(* ===== verification/Prelude.thy ===== *)
theory Prelude
  imports Main "HOL-Library.Finite_Map" "HOL-Library.List_Lexorder" "HOL-Library.Char_ord"
begin

text \<open>
  What every component shares: Go errors as values, the outcome of a call that returns
  \<open>error\<close> or \<open>(value, error)\<close> and changes the outside world, sequencing of such calls with
  Go's \<open>if err != nil { return err }\<close>, and Go maps from string to string with their nil value.
\<close>

named_theorems go_simps \<open>evaluation of the Go primitives\<close>

section \<open>Errors\<close>

text \<open>
  \<open>Api\<close> is an error status of the Kubernetes API, \<open>Msg\<close> is \<open>errors.New\<close> or \<open>fmt.Errorf\<close>
  without a cause, \<open>Wrapped\<close> is \<open>fmt.Errorf("...: %w", err)\<close> (the text before \<open>: %w\<close>). A
  \<open>Panic\<close> is a run time panic: it is not an error value, but it leaves the handler the same way.
\<close>

datatype api_status = NotFound | AlreadyExists | Conflict | OtherStatus string

datatype goerr = Api api_status | Msg string | Wrapped string goerr | Panic string

text \<open>The test of \<open>k8serr.IsNotFound\<close>, which looks through wrapped errors.\<close>

fun isNotFound :: "goerr \<Rightarrow> bool" where
  "isNotFound (Api s) = (s = NotFound)"
| "isNotFound (Msg _) = False"
| "isNotFound (Wrapped _ e) = isNotFound e"
| "isNotFound (Panic _) = False"

text \<open>\<open>client.IgnoreNotFound\<close> on an \<open>error\<close>, whose nil is \<open>None\<close>.\<close>

definition ignoreNotFound :: "goerr option \<Rightarrow> goerr option" where
  "ignoreNotFound r = (case r of None \<Rightarrow> None | Some e \<Rightarrow> if isNotFound e then None else Some e)"

lemma ignoreNotFound_None [simp]: "ignoreNotFound None = None"
  by (simp add: ignoreNotFound_def)

lemma ignoreNotFound_eq_None:
  "ignoreNotFound r = None \<longleftrightarrow> r = None \<or> (\<exists>e. r = Some e \<and> isNotFound e)"
  by (auto simp: ignoreNotFound_def split: option.splits)

section \<open>Effects\<close>

text \<open>
  The world \<open>'w\<close> is everything outside the process: the API server, the file system, the event
  sink. A call returns its Go results and the world after it.
\<close>

type_synonym ('w, 'a) call = "'w \<Rightarrow> (goerr + 'a) \<times> 'w"
type_synonym 'w act = "'w \<Rightarrow> goerr option \<times> 'w"

text \<open>\<open>if err := a(); err != nil { return err }; return b()\<close>\<close>

definition andThen :: "'w act \<Rightarrow> 'w act \<Rightarrow> 'w act" where
  "andThen a b w = (case a w of (Some e, w') \<Rightarrow> (Some e, w') | (None, w') \<Rightarrow> b w')"

definition nop :: "'w act" where
  "nop w = (None, w)"

text \<open>\<open>return fmt.Errorf("msg: %w", err)\<close> where \<open>a\<close> failed, its result otherwise.\<close>

definition wrapErr :: "string \<Rightarrow> 'w act \<Rightarrow> 'w act" where
  "wrapErr msg a w = (case a w of (Some e, w') \<Rightarrow> (Some (Wrapped msg e), w') | (None, w') \<Rightarrow> (None, w'))"

lemma andThen_assoc: "andThen (andThen a b) c = andThen a (andThen b c)"
  by (rule ext) (simp add: andThen_def split: option.splits prod.splits)

lemma andThen_nop [simp]: "andThen nop a = a" "andThen a nop = a"
  by (rule ext, simp add: andThen_def nop_def split: option.splits prod.splits)+

lemma andThen_okE:
  assumes "andThen a b w = (None, w'')"
  obtains w' where "a w = (None, w')" "b w' = (None, w'')"
  using assms by (auto simp: andThen_def split: option.splits prod.splits)

lemma andThen_ok [simp]: "a w = (None, w') \<Longrightarrow> andThen a b w = b w'"
  by (simp add: andThen_def)

lemma andThen_err [simp]: "a w = (Some e, w') \<Longrightarrow> andThen a b w = (Some e, w')"
  by (simp add: andThen_def)

lemma wrapErr_ok [simp]: "wrapErr msg a w = (None, w') \<longleftrightarrow> a w = (None, w')"
  by (auto simp: wrapErr_def split: option.splits prod.splits)

lemma wrapErr_err:
  "wrapErr msg a w = (Some e, w') \<longleftrightarrow> (\<exists>e'. a w = (Some e', w') \<and> e = Wrapped msg e')"
  by (auto simp: wrapErr_def split: option.splits prod.splits)

text \<open>The same for a call that returns a value.\<close>

definition wrapSum :: "string \<Rightarrow> goerr + 'a \<Rightarrow> goerr + 'a" where
  "wrapSum msg r = (case r of Inl e \<Rightarrow> Inl (Wrapped msg e) | Inr x \<Rightarrow> Inr x)"

text \<open>A Go loop that returns at the first error.\<close>

fun forEach :: "('a \<Rightarrow> 'w act) \<Rightarrow> 'a list \<Rightarrow> 'w act" where
  "forEach f [] w = (None, w)"
| "forEach f (x # xs) w = andThen (f x) (forEach f xs) w"

lemma forEach_ok_induct:
  assumes "forEach f xs w = (None, w')"
    and "P [] w"
    and "\<And>ys x zs v v'. xs = ys @ x # zs \<Longrightarrow> P ys v \<Longrightarrow> f x v = (None, v') \<Longrightarrow> P (ys @ [x]) v'"
  shows "P xs w'"
proof -
  have "forEach f zs v = (None, w') \<Longrightarrow> P ys v \<Longrightarrow> xs = ys @ zs \<Longrightarrow> P (ys @ zs) w'" for ys zs v
  proof (induction zs arbitrary: ys v)
    case Nil
    then show ?case by simp
  next
    case (Cons z zs)
    from Cons.prems(1) obtain v' where "f z v = (None, v')" "forEach f zs v' = (None, w')"
      by (auto elim: andThen_okE)
    with Cons.prems assms(3) [of ys z zs v v'] Cons.IH [of v' "ys @ [z]"] show ?case by simp
  qed
  from this [of xs w "[]"] assms(1,2) show ?thesis by simp
qed

section \<open>Separators\<close>

lemma append_sep_inject:
  "c \<notin> set xs \<Longrightarrow> c \<notin> set ys \<Longrightarrow> xs @ c # us = ys @ c # vs \<Longrightarrow> xs = ys \<and> us = vs"
proof (induction xs arbitrary: ys)
  case Nil
  then show ?case by (cases ys) auto
next
  case (Cons x xs)
  then show ?case by (cases ys) auto
qed

section \<open>Go maps from string to string\<close>

text \<open>
  A Go map is a reference that may be nil. Reading a key that is absent, or any key of a nil map,
  gives the zero value. Writing needs a map that is not nil: a write is a function on
  \<open>(string, string) fmap\<close>, reached through \<open>gm_make\<close>, which is the code's
  \<open>if m == nil { m = map[string]string{} }\<close>.
\<close>

type_synonym gomap = "(string, string) fmap option"

definition gm_get :: "gomap \<Rightarrow> string \<Rightarrow> string" where
  "gm_get m k = (case m of None \<Rightarrow> [] | Some f \<Rightarrow> (case fmlookup f k of None \<Rightarrow> [] | Some v \<Rightarrow> v))"

definition gm_lookup :: "gomap \<Rightarrow> string \<Rightarrow> string option" where
  "gm_lookup m k = (case m of None \<Rightarrow> None | Some f \<Rightarrow> fmlookup f k)"

definition gm_make :: "gomap \<Rightarrow> (string, string) fmap" where
  "gm_make m = (case m of None \<Rightarrow> fmempty | Some f \<Rightarrow> f)"

text \<open>\<open>delete(m, k)\<close>, which is a no-op on a nil map.\<close>

definition gm_delete :: "string \<Rightarrow> gomap \<Rightarrow> gomap" where
  "gm_delete k m = map_option (fmdrop k) m"

text \<open>Two maps that no read can tell apart (a nil map and an empty one).\<close>

definition gm_eq :: "gomap \<Rightarrow> gomap \<Rightarrow> bool" where
  "gm_eq m n \<longleftrightarrow> gm_make m = gm_make n"

lemma gm_get_lookup: "gm_get m k = (case gm_lookup m k of None \<Rightarrow> [] | Some v \<Rightarrow> v)"
  by (simp add: gm_get_def gm_lookup_def split: option.splits)

lemma gm_lookup_make: "gm_lookup m k = fmlookup (gm_make m) k"
  by (simp add: gm_lookup_def gm_make_def split: option.splits)

lemma gm_lookup_simps [simp]:
  "gm_lookup None k = None"
  "gm_lookup (Some f) k = fmlookup f k"
  by (simp_all add: gm_lookup_def)

lemma gm_get_simps [simp, go_simps]:
  "gm_get None k = []"
  "gm_get (Some fmempty) k = []"
  "gm_get (Some (fmupd k' v f)) k = (if k = k' then v else gm_get (Some f) k)"
  by (simp_all add: gm_get_def)

lemma gm_make_simps [simp, go_simps]:
  "gm_make None = fmempty"
  "gm_make (Some f) = f"
  by (simp_all add: gm_make_def)

lemma gm_get_make [simp]: "gm_get (Some (gm_make m)) k = gm_get m k"
  by (simp add: gm_make_def split: option.splits)

lemma gm_eq_refl [simp, intro]: "gm_eq m m"
  by (simp add: gm_eq_def)

lemma gm_eq_sym: "gm_eq m n \<Longrightarrow> gm_eq n m"
  by (simp add: gm_eq_def)

lemma gm_eq_trans: "gm_eq l m \<Longrightarrow> gm_eq m n \<Longrightarrow> gm_eq l n"
  by (simp add: gm_eq_def)

lemma gm_eq_lookup: "gm_eq m n \<longleftrightarrow> (\<forall>k. gm_lookup m k = gm_lookup n k)"
  by (auto simp: gm_eq_def gm_lookup_make intro: fmap_ext)

lemma gm_eq_get: "gm_eq m n \<Longrightarrow> gm_get m k = gm_get n k"
  by (simp add: gm_get_lookup gm_eq_lookup)

lemma gm_lookup_delete [simp]:
  "gm_lookup (gm_delete k m) k' = (if k = k' then None else gm_lookup m k')"
  by (simp add: gm_delete_def gm_lookup_def split: option.splits)

lemma gm_get_delete [simp]: "gm_get (gm_delete k m) k' = (if k = k' then [] else gm_get m k')"
  by (simp add: gm_get_lookup)

end
