(* ===== verification/Config.thy ===== *)
theory Config
  imports Prelude
begin

text \<open>
  \<^verbatim>\<open>pkg/config/config.go\<close>: the configuration record, its constants, and the platform release
  derived from it. The semantic-version library is a parameter: an abstract type \<open>'v\<close> of versions
  with the four operations the repository calls.
\<close>

definition keyManifestsPath :: string where "keyManifestsPath = ''manifests-path''"
definition keyApplicationsNS :: string where "keyApplicationsNS = ''applications-namespace''"
definition keyPlatformVersion :: string where "keyPlatformVersion = ''platformVersion''"
definition keyPlatformType :: string where "keyPlatformType = ''platform-type''"
definition keyMetricsBindAddr :: string where "keyMetricsBindAddr = ''controller.metrics.bind-address''"
definition keyHealthBindAddr :: string where "keyHealthBindAddr = ''controller.health.bind-address''"
definition keyLeaderElectEnabled :: string where "keyLeaderElectEnabled = ''controller.leader-election.enabled''"
definition keyLeaderElectID :: string where "keyLeaderElectID = ''controller.leader-election.id''"
definition keyZapLevel :: string where "keyZapLevel = ''controller.zap.level''"
definition keyPprofEnabled :: string where "keyPprofEnabled = ''controller.pprof.enabled''"
definition keyPprofBindAddr :: string where "keyPprofBindAddr = ''controller.pprof.bind-address''"
definition keyFeatureStoreEnabled :: string where "keyFeatureStoreEnabled = ''feature-store-enabled''"
definition keyDataRegistryEnabled :: string where "keyDataRegistryEnabled = ''data-registry-enabled''"

definition defaultApplicationsNS :: string where "defaultApplicationsNS = ''opendatahub''"
definition defaultPlatformType :: string where "defaultPlatformType = ''unknown''"
definition defaultPlatformVersion :: string where "defaultPlatformVersion = ''unknown''"
definition defaultMetricsBindAddr :: string where "defaultMetricsBindAddr = '':8080''"
definition defaultHealthBindAddr :: string where "defaultHealthBindAddr = '':8081''"
definition defaultLeaderElectEnabled :: bool where "defaultLeaderElectEnabled = True"
definition defaultLeaderElectID :: string where "defaultLeaderElectID = ''opendatahub-feast-operator-lock''"
definition defaultZapLevel :: string where "defaultZapLevel = ''info''"
definition defaultPprofEnabled :: bool where "defaultPprofEnabled = False"
definition defaultFeatureStoreEnabled :: bool where "defaultFeatureStoreEnabled = True"
definition defaultDataRegistryEnabled :: bool where "defaultDataRegistryEnabled = True"

definition configPathEnvVar :: string where "configPathEnvVar = ''ODH_MODULE_OPERATOR_CONFIGURATION_PATH''"
definition envPrefix :: string where "envPrefix = ''ODH_MODULE_OPERATOR''"

text \<open>The nested controller settings; a one-field struct is a one-field record.\<close>

record metrics_config =
  metricsBindAddress :: string

record health_config =
  healthBindAddress :: string

record leader_election_config =
  leaderElectionEnabled :: bool
  leaderElectionID :: string

record zap_config =
  zapLevel :: string

record pprof_config =
  pprofEnabled :: bool
  pprofBindAddress :: string

record controller_config =
  ctlMetrics :: metrics_config
  ctlHealth :: health_config
  ctlLeaderElection :: leader_election_config
  ctlZap :: zap_config
  ctlPprof :: pprof_config

record config =
  cfgManifestsPath :: string
  cfgApplicationsNamespace :: string
  cfgPlatformType :: string
  cfgPlatformVersion :: string
  cfgFeatureStoreEnabled :: bool
  cfgDataRegistryEnabled :: bool
  cfgController :: controller_config

text \<open>The zero value \<open>&Config{}\<close> that \<open>Unmarshal\<close> fills.\<close>

definition zeroConfig :: config where
  "zeroConfig =
     \<lparr>cfgManifestsPath = [], cfgApplicationsNamespace = [], cfgPlatformType = [], cfgPlatformVersion = [],
      cfgFeatureStoreEnabled = False, cfgDataRegistryEnabled = False,
      cfgController =
        \<lparr>ctlMetrics = \<lparr>metricsBindAddress = []\<rparr>, ctlHealth = \<lparr>healthBindAddress = []\<rparr>,
         ctlLeaderElection = \<lparr>leaderElectionEnabled = False, leaderElectionID = []\<rparr>,
         ctlZap = \<lparr>zapLevel = []\<rparr>, ctlPprof = \<lparr>pprofEnabled = False, pprofBindAddress = []\<rparr>\<rparr>\<rparr>"

section \<open>The platform release\<close>

record 'v semver =
  semverParse :: "string \<Rightarrow> goerr + 'v"
  semverParseTolerant :: "string \<Rightarrow> goerr + 'v"
  semverGT :: "'v \<Rightarrow> 'v \<Rightarrow> bool"
  semverZero :: 'v

record 'v release =
  relName :: string
  relVersion :: 'v

text \<open>\<open>(*Config).Release\<close>: the version stays the zero one when the configured one does not parse.\<close>

definition configRelease :: "'v semver \<Rightarrow> config \<Rightarrow> 'v release" where
  "configRelease S c =
     (let rel = \<lparr>relName = cfgPlatformType c, relVersion = semverZero S\<rparr> in
      if cfgPlatformVersion c \<noteq> []
      then (case semverParseTolerant S (cfgPlatformVersion c) of
              Inr v \<Rightarrow> rel\<lparr>relVersion := v\<rparr>
            | Inl _ \<Rightarrow> rel)
      else rel)"

lemma configRelease_name [simp]: "relName (configRelease S c) = cfgPlatformType c"
  by (simp add: configRelease_def Let_def split: sum.splits)

end
