(* ===== verification/GoStrings.thy ===== *)
theory GoStrings
  imports Prelude "HOL-Library.Sublist"
begin

text \<open>
  The functions of Go's packages \<^verbatim>\<open>strings\<close>, \<^verbatim>\<open>strconv\<close> and \<^verbatim>\<open>fmt\<close> that the code calls, on
  byte strings. A Go string is a sequence of bytes and so is \<^typ>\<open>string\<close>: lengths, prefixes
  and slices count bytes in both.
\<close>

abbreviation nl :: char where "nl \<equiv> CHR 0x0A"
abbreviation sp :: char where "sp \<equiv> CHR 0x20"
abbreviation tab :: char where "tab \<equiv> CHR 0x09"
abbreviation dquote :: char where "dquote \<equiv> CHR 0x22"

section \<open>HasPrefix, Contains, TrimPrefix\<close>

definition hasPrefix :: "string \<Rightarrow> string \<Rightarrow> bool" where
  "hasPrefix s p = prefix p s"

definition hasSuffix :: "string \<Rightarrow> string \<Rightarrow> bool" where
  "hasSuffix s p = suffix p s"

definition contains :: "string \<Rightarrow> string \<Rightarrow> bool" where
  "contains s t = sublist t s"

definition trimPrefix :: "string \<Rightarrow> string \<Rightarrow> string" where
  "trimPrefix s p = (if hasPrefix s p then drop (length p) s else s)"

text \<open>
  \<open>strings.ToLower\<close> on ASCII text (the code lowers API groups, versions and kinds, which are
  ASCII).
\<close>

definition toLowerChar :: "char \<Rightarrow> char" where
  "toLowerChar c =
     (let n = (of_char c :: nat) in if 65 \<le> n \<and> n \<le> 90 then char_of (n + 32) else c)"

definition toLower :: "string \<Rightarrow> string" where
  "toLower s = map toLowerChar s"

section \<open>Split, Join\<close>

text \<open>\<open>strings.Split(s, c)\<close> for a separator of one byte.\<close>

fun splitOn :: "char \<Rightarrow> string \<Rightarrow> string list" where
  "splitOn c [] = [[]]"
| "splitOn c (x # xs) =
     (if x = c then [] # splitOn c xs
      else (case splitOn c xs of [] \<Rightarrow> [[x]] | p # ps \<Rightarrow> (x # p) # ps))"

abbreviation splitLines :: "string \<Rightarrow> string list" where
  "splitLines \<equiv> splitOn nl"

text \<open>\<open>strings.SplitN(s, c, n)\<close> for a separator of one byte and \<open>n > 0\<close>.\<close>

fun splitN :: "char \<Rightarrow> nat \<Rightarrow> string \<Rightarrow> string list" where
  "splitN c 0 s = []"
| "splitN c (Suc 0) s = [s]"
| "splitN c (Suc (Suc n)) s =
     (if c \<in> set s
      then takeWhile (\<lambda>x. x \<noteq> c) s # splitN c (Suc n) (tl (dropWhile (\<lambda>x. x \<noteq> c) s))
      else [s])"

text \<open>\<open>strings.Join\<close>\<close>

fun join :: "string \<Rightarrow> string list \<Rightarrow> string" where
  "join sep [] = []"
| "join sep [x] = x"
| "join sep (x # y # zs) = x @ sep @ join sep (y # zs)"

abbreviation joinLines :: "string list \<Rightarrow> string" where
  "joinLines \<equiv> join [nl]"

lemma splitOn_nonempty [simp]: "splitOn c s \<noteq> []"
  by (induction s) (auto split: list.splits)

lemma join_Cons: "xs \<noteq> [] \<Longrightarrow> join sep (x # xs) = x @ sep @ join sep xs"
  by (cases xs) simp_all

lemma join_splitOn [simp]: "join [c] (splitOn c s) = s"
proof (induction s)
  case Nil
  then show ?case by simp
next
  case (Cons x xs)
  obtain p ps where ps: "splitOn c xs = p # ps"
    by (cases "splitOn c xs") simp_all
  from Cons ps show ?case
    by (cases ps) simp_all
qed

lemma splitOn_no_sep: "p \<in> set (splitOn c s) \<Longrightarrow> c \<notin> set p"
  by (induction s arbitrary: p) (fastforce split: list.splits if_splits)+

lemma splitOn_id: "c \<notin> set s \<Longrightarrow> splitOn c s = [s]"
  by (induction s) auto

lemma splitOn_append: "c \<notin> set p \<Longrightarrow> splitOn c (p @ c # s) = p # splitOn c s"
  by (induction p) auto

lemma splitOn_join [simp]:
  "xs \<noteq> [] \<Longrightarrow> (\<And>x. x \<in> set xs \<Longrightarrow> c \<notin> set x) \<Longrightarrow> splitOn c (join [c] xs) = xs"
proof (induction "[c]" xs rule: join.induct)
  case (3 x y zs)
  then show ?case by (simp add: splitOn_append)
qed (simp_all add: splitOn_id)

lemma join_append:
  "xs \<noteq> [] \<Longrightarrow> ys \<noteq> [] \<Longrightarrow> join sep (xs @ ys) = join sep xs @ sep @ join sep ys"
  by (induction sep xs rule: join.induct) (simp_all add: join_Cons)

lemma set_join: "set (join sep xs) \<subseteq> \<Union> (set ` set xs) \<union> set sep"
  by (induction sep xs rule: join.induct) auto

section \<open>TrimSpace and indentation\<close>

text \<open>
  The UTF-8 encodings of the code points with Unicode's White Space property, which is what
  \<open>strings.TrimSpace\<close> strips: the six ASCII ones, U+0085, U+00A0, U+1680, U+2000 to U+200A,
  U+2028, U+2029, U+202F, U+205F and U+3000.
\<close>

definition spaceEncodings :: "string list" where
  "spaceEncodings =
     [[CHR 0x09], [CHR 0x0A], [CHR 0x0B], [CHR 0x0C], [CHR 0x0D], [CHR 0x20],
      [CHR 0xC2, CHR 0x85], [CHR 0xC2, CHR 0xA0], [CHR 0xE1, CHR 0x9A, CHR 0x80],
      [CHR 0xE2, CHR 0x80, CHR 0x80], [CHR 0xE2, CHR 0x80, CHR 0x81],
      [CHR 0xE2, CHR 0x80, CHR 0x82], [CHR 0xE2, CHR 0x80, CHR 0x83],
      [CHR 0xE2, CHR 0x80, CHR 0x84], [CHR 0xE2, CHR 0x80, CHR 0x85],
      [CHR 0xE2, CHR 0x80, CHR 0x86], [CHR 0xE2, CHR 0x80, CHR 0x87],
      [CHR 0xE2, CHR 0x80, CHR 0x88], [CHR 0xE2, CHR 0x80, CHR 0x89],
      [CHR 0xE2, CHR 0x80, CHR 0x8A], [CHR 0xE2, CHR 0x80, CHR 0xA8],
      [CHR 0xE2, CHR 0x80, CHR 0xA9], [CHR 0xE2, CHR 0x80, CHR 0xAF],
      [CHR 0xE2, CHR 0x81, CHR 0x9F], [CHR 0xE3, CHR 0x80, CHR 0x80]]"

function stripPrefixes :: "string list \<Rightarrow> string \<Rightarrow> string" where
  "stripPrefixes ps s =
     (case find (\<lambda>p. p \<noteq> [] \<and> prefix p s) ps of
        None \<Rightarrow> s
      | Some p \<Rightarrow> stripPrefixes ps (drop (length p) s))"
  by pat_completeness auto
termination
proof (relation "measure (\<lambda>(ps, s). length s)", simp)
  fix ps :: "string list" and s p :: string
  assume "find (\<lambda>p. p \<noteq> [] \<and> prefix p s) ps = Some p"
  then have "p \<noteq> [] \<and> prefix p s" by (auto simp: find_Some_iff)
  then show "((ps, drop (length p) s), ps, s) \<in> measure (\<lambda>(ps, s). length s)"
    by (cases s) (auto simp: prefix_def)
qed

declare stripPrefixes.simps [simp del]

definition trimLeftSpace :: "string \<Rightarrow> string" where
  "trimLeftSpace s = stripPrefixes spaceEncodings s"

definition trimRightSpace :: "string \<Rightarrow> string" where
  "trimRightSpace s = rev (stripPrefixes (map rev spaceEncodings) (rev s))"

text \<open>\<open>strings.TrimSpace\<close>\<close>

definition trimSpace :: "string \<Rightarrow> string" where
  "trimSpace s = trimRightSpace (trimLeftSpace s)"

text \<open>\<open>strings.TrimLeft(line, " ")\<close> and \<open>line[:len(line)-len(strings.TrimLeft(line, " "))]\<close>.\<close>

definition trimLeftBlank :: "string \<Rightarrow> string" where
  "trimLeftBlank line = dropWhile (\<lambda>c. c = sp) line"

definition indentOf :: "string \<Rightarrow> string" where
  "indentOf line = take (length line - length (trimLeftBlank line)) line"

lemma take_length_dropWhile: "take (length xs - length (dropWhile P xs)) xs = takeWhile P xs"
  by (induction xs) (simp_all add: Suc_diff_le length_dropWhile_le)

lemma indentOf_takeWhile: "indentOf line = takeWhile (\<lambda>c. c = sp) line"
  by (simp add: indentOf_def trimLeftBlank_def take_length_dropWhile)

lemma indentOf_blanks [simp]: "c \<in> set (indentOf line) \<Longrightarrow> c = sp"
  by (auto simp: indentOf_takeWhile dest: set_takeWhileD)

lemma set_indentOf: "set (indentOf line) \<subseteq> {sp}"
  by (auto dest: indentOf_blanks)

lemma indentOf_append [simp]:
  "set i \<subseteq> {sp} \<Longrightarrow> s \<noteq> [] \<Longrightarrow> hd s \<noteq> sp \<Longrightarrow> indentOf (i @ s) = i"
  by (cases s) (auto simp: indentOf_takeWhile takeWhile_append)

text \<open>
  A byte that is printable ASCII other than the blank begins and ends no white space, so a string
  whose first and last bytes are such is its own trim, and so it is behind any number of blanks.
\<close>

definition visible :: "char \<Rightarrow> bool" where
  "visible c \<longleftrightarrow> 33 \<le> (of_char c :: nat) \<and> (of_char c :: nat) \<le> 126"

definition solid :: "string \<Rightarrow> bool" where
  "solid s \<longleftrightarrow> s \<noteq> [] \<and> visible (hd s) \<and> visible (last s)"

lemma prefix_hd: "prefix p s \<Longrightarrow> p \<noteq> [] \<Longrightarrow> s \<noteq> [] \<and> hd p = hd s"
  by (cases p; cases s) auto

lemma stripPrefixes_id:
  assumes "\<And>p. p \<in> set ps \<Longrightarrow> p \<noteq> [] \<Longrightarrow> \<not> prefix p s"
  shows "stripPrefixes ps s = s"
proof -
  have "find (\<lambda>p. p \<noteq> [] \<and> prefix p s) ps = None"
    using assms by (auto simp: find_None_iff)
  then show ?thesis by (subst stripPrefixes.simps) simp
qed

lemma spaceEncodings_not_visible:
  "p \<in> set spaceEncodings \<Longrightarrow> p \<noteq> [] \<and> \<not> visible (hd p) \<and> \<not> visible (last p)"
  by (auto simp: spaceEncodings_def visible_def)

lemma trimLeftSpace_visible:
  assumes "s = [] \<or> visible (hd s)"
  shows "trimLeftSpace s = s"
proof -
  have "\<not> prefix p s" if "p \<in> set spaceEncodings" "p \<noteq> []" for p
    using that assms spaceEncodings_not_visible prefix_hd by metis
  then have "stripPrefixes spaceEncodings s = s" by (rule stripPrefixes_id)
  then show ?thesis by (simp add: trimLeftSpace_def)
qed

lemma trimRightSpace_visible:
  assumes "s = [] \<or> visible (last s)"
  shows "trimRightSpace s = s"
proof -
  have "\<not> prefix p (rev s)" if p: "p \<in> set (map rev spaceEncodings)" "p \<noteq> []" for p
  proof
    assume "prefix p (rev s)"
    with p prefix_hd [of p "rev s"] have "hd p = last s" "s \<noteq> []"
      by (simp_all add: hd_rev)
    moreover from p(1) obtain q where "q \<in> set spaceEncodings" "p = rev q" by (auto simp del: set_rev)
    then have "\<not> visible (hd p)"
      using spaceEncodings_not_visible [of q] by (simp add: hd_rev)
    ultimately show False using assms by simp
  qed
  then have "stripPrefixes (map rev spaceEncodings) (rev s) = rev s" by (rule stripPrefixes_id)
  then show ?thesis by (simp add: trimRightSpace_def)
qed

lemma find_blank: "find (\<lambda>p. p \<noteq> [] \<and> prefix p (sp # s)) spaceEncodings = Some [sp]"
  by (simp add: spaceEncodings_def)

lemma trimLeftSpace_blank [simp]: "trimLeftSpace (sp # s) = trimLeftSpace s"
  unfolding trimLeftSpace_def by (subst stripPrefixes.simps) (simp add: find_blank)

lemma trimLeftSpace_indent [simp]: "set i \<subseteq> {sp} \<Longrightarrow> trimLeftSpace (i @ s) = trimLeftSpace s"
  by (induction i) auto

lemma trimSpace_indent [simp]: "set i \<subseteq> {sp} \<Longrightarrow> trimSpace (i @ s) = trimSpace s"
  by (simp add: trimSpace_def)

lemma trimSpace_solid [simp]: "solid s \<Longrightarrow> trimSpace s = s"
  by (simp add: trimSpace_def solid_def trimLeftSpace_visible trimRightSpace_visible)

lemma trimSpace_Nil [simp]: "trimSpace [] = []"
  by (simp add: trimSpace_def trimLeftSpace_visible trimRightSpace_visible)

lemma solid_hd: "solid s \<Longrightarrow> hd s \<noteq> sp"
  by (auto simp: solid_def visible_def)

lemma trimSpace_template:
  "solid t \<Longrightarrow> trimSpace (indentOf line @ t) = t"
  by (simp add: set_indentOf)

lemma indentOf_template: "solid t \<Longrightarrow> indentOf (indentOf line @ t) = indentOf line"
  using solid_hd [of t] by (intro indentOf_append set_indentOf) (auto simp: solid_def)

lemma stripPrefixes_suffix: "\<exists>pre. s = pre @ stripPrefixes ps s"
proof (induction ps s rule: stripPrefixes.induct)
  case (1 ps s)
  show ?case
  proof (cases "find (\<lambda>p. p \<noteq> [] \<and> prefix p s) ps")
    case None
    then show ?thesis by (subst stripPrefixes.simps) simp
  next
    case (Some p)
    then have p: "p \<noteq> []" "prefix p s" by (auto simp: find_Some_iff)
    from "1.IH" [OF Some] obtain pre where "drop (length p) s = pre @ stripPrefixes ps (drop (length p) s)"
      by blast
    with p have "s = (p @ pre) @ stripPrefixes ps (drop (length p) s)"
      by (auto simp: prefix_def)
    moreover from Some have "stripPrefixes ps s = stripPrefixes ps (drop (length p) s)"
      by (simp add: stripPrefixes.simps [of ps s])
    ultimately show ?thesis by metis
  qed
qed

lemma trimSpace_sublist: "\<exists>a b. s = a @ trimSpace s @ b"
proof -
  obtain a where a: "s = a @ trimLeftSpace s"
    using stripPrefixes_suffix by (auto simp: trimLeftSpace_def)
  obtain b where "rev (trimLeftSpace s) = b @ stripPrefixes (map rev spaceEncodings) (rev (trimLeftSpace s))"
    using stripPrefixes_suffix by blast
  then have "trimLeftSpace s = trimSpace s @ rev b"
    by (metis rev_append rev_rev_ident trimRightSpace_def trimSpace_def)
  with a show ?thesis by metis
qed

section \<open>Printing\<close>

text \<open>\<open>strconv.FormatBool\<close> and the verb \<open>%d\<close> on a number that is not negative.\<close>

definition formatBool :: "bool \<Rightarrow> string" where
  "formatBool b = (if b then ''true'' else ''false'')"

definition digitChar :: "nat \<Rightarrow> char" where
  "digitChar n = char_of (48 + n)"

fun formatNat :: "nat \<Rightarrow> string" where
  "formatNat n = (if n < 10 then [digitChar n] else formatNat (n div 10) @ [digitChar (n mod 10)])"

declare formatNat.simps [simp del]

lemma formatBool_inject [simp]: "formatBool a = formatBool b \<longleftrightarrow> a = b"
  by (simp add: formatBool_def)

lemma formatBool_nonempty [simp]: "formatBool a \<noteq> []"
  by (simp add: formatBool_def)

section \<open>Quoting\<close>

text \<open>
  The verb \<open>%q\<close> on ASCII text: control characters and \<^verbatim>\<open>"\<close>, \<^verbatim>\<open>\\<close> are escaped. Bytes from \<open>0x80\<close> on are
  copied, which is what Go does with printable runes in valid UTF-8.
\<close>

definition hexChar :: "nat \<Rightarrow> char" where
  "hexChar n = (if n < 10 then char_of (48 + n) else char_of (87 + n))"

definition quoteChar :: "char \<Rightarrow> string" where
  "quoteChar c =
     (let n = of_char c :: nat; esc = (\<lambda>d. [CHR 0x5C, d]) in
      if c = dquote \<or> c = CHR 0x5C then esc c
      else if n = 7 then esc (CHR ''a'') else if n = 8 then esc (CHR ''b'')
      else if n = 9 then esc (CHR ''t'') else if n = 10 then esc (CHR ''n'')
      else if n = 11 then esc (CHR ''v'') else if n = 12 then esc (CHR ''f'')
      else if n = 13 then esc (CHR ''r'')
      else if n < 32 \<or> n = 127 then esc (CHR ''x'') @ [hexChar (n div 16), hexChar (n mod 16)]
      else [c])"

definition goQuote :: "string \<Rightarrow> string" where
  "goQuote s = [dquote] @ concat (map quoteChar s) @ [dquote]"

end
