(* ===== verification/GoTime.thy ===== *)
theory GoTime
  imports GoStrings "HOL-Library.Monad_Syntax"
begin

text \<open>
  What the code uses of Go's package \<^verbatim>\<open>time\<close>: an instant is the number of nanoseconds since
  the Unix epoch, \<open>Time.UTC().Format(time.RFC3339)\<close> prints it to the second, \<open>time.Parse\<close> with
  the layout \<^verbatim>\<open>RFC3339\<close> reads it back (with the leniencies of that function: a one digit hour,
  a fraction of a second the layout does not mention, a numeric zone), and \<open>time.Since\<close> is a
  difference that saturates at the ends of \<open>int64\<close>. The main lemma is the round trip
  \<open>parse_format\<close>.
\<close>

type_synonym time = int

definition second :: int where "second = 1000000000"
definition minute :: int where "minute = 60 * second"

text \<open>The zero \<open>time.Time\<close> (January 1 of year 1, UTC), which \<open>IsZero\<close> tests for.\<close>

definition zeroTime :: time where
  "zeroTime = -62135596800 * second"

definition maxDuration :: int where "maxDuration = 2 ^ 63 - 1"
definition minDuration :: int where "minDuration = - (2 ^ 63)"

text \<open>\<open>time.Since(t)\<close> at the instant \<open>now\<close>, for \<open>t\<close> without a monotonic reading.\<close>

definition since :: "time \<Rightarrow> time \<Rightarrow> int" where
  "since now t = max minDuration (min maxDuration (now - t))"

lemma since_less: "minDuration < d \<Longrightarrow> d \<le> maxDuration \<Longrightarrow> since now t < d \<longleftrightarrow> now - t < d"
  by (auto simp: since_def)

section \<open>The calendar\<close>

definition isLeap :: "int \<Rightarrow> bool" where
  "isLeap y \<longleftrightarrow> y mod 4 = 0 \<and> (y mod 100 \<noteq> 0 \<or> y mod 400 = 0)"

definition monthLengths :: "int \<Rightarrow> int list" where
  "monthLengths y = [31, if isLeap y then 29 else 28, 31, 30, 31, 30, 31, 31, 30, 31, 30, 31]"

definition daysIn :: "int \<Rightarrow> int \<Rightarrow> int" where
  "daysIn m y = monthLengths y ! nat (m - 1)"

definition daysBeforeYear :: "int \<Rightarrow> int" where
  "daysBeforeYear y = (let p = y - 1 in 365 * p + p div 4 - p div 100 + p div 400)"

definition daysBeforeMonth :: "int \<Rightarrow> int \<Rightarrow> int" where
  "daysBeforeMonth m y = sum_list (take (nat (m - 1)) (monthLengths y))"

text \<open>Days from January 1 of year 1 to a date.\<close>

definition dateToDays :: "int \<Rightarrow> int \<Rightarrow> int \<Rightarrow> int" where
  "dateToDays y m d = daysBeforeYear y + daysBeforeMonth m y + (d - 1)"

fun findMonth :: "int \<Rightarrow> int \<Rightarrow> int list \<Rightarrow> int \<times> int" where
  "findMonth m r [] = (m, r + 1)"
| "findMonth m r (l # ls) = (if r < l then (m, r + 1) else findMonth (m + 1) (r - l) ls)"

text \<open>Year and day of the year, by cycles of 400, 100, 4 and 1 years.\<close>

definition daysToYear :: "int \<Rightarrow> int \<times> int" where
  "daysToYear d =
     (let n400 = d div 146097; d1 = d - 146097 * n400;
          q100 = d1 div 36524; n100 = q100 - q100 div 4; d2 = d1 - 36524 * n100;
          n4 = d2 div 1461; d3 = d2 - 1461 * n4;
          q1 = d3 div 365; n1 = q1 - q1 div 4
      in (400 * n400 + 100 * n100 + 4 * n4 + n1 + 1, d3 - 365 * n1))"

definition daysToDate :: "int \<Rightarrow> int \<times> int \<times> int" where
  "daysToDate d =
     (let (y, yday) = daysToYear d; (m, dm) = findMonth 1 yday (monthLengths y) in (y, m, dm))"

definition unixDay :: int where "unixDay = 719162"

definition dateTime :: "int \<Rightarrow> int \<Rightarrow> int \<Rightarrow> int \<Rightarrow> int \<Rightarrow> int \<Rightarrow> int \<Rightarrow> time" where
  "dateTime y m d h mi s ns =
     ((dateToDays y m d - unixDay) * 86400 + h * 3600 + mi * 60 + s) * second + ns"

lemma div_mod_decomp:
  assumes "x = k * q + r" "0 \<le> r" "r < k"
  shows "x div k = q" "x mod k = (r::int)"
  using assms by (auto simp: div_mult_self3)

lemma quot_bounds:
  assumes "0 < (k::int)"
  shows "k * (x div k) \<le> x" "x < k * (x div k) + k" "0 \<le> x - k * (x div k)" "x - k * (x div k) < k"
  using assms pos_mod_sign [of k x] pos_mod_bound [of k x] mult_div_mod_eq [of k x] by linarith+

lemma quot_range:
  assumes "0 \<le> x" "x < k * n" "0 < (k::int)"
  shows "0 \<le> x div k" "x div k < n"
proof -
  show "0 \<le> x div k" using assms by (simp add: pos_imp_zdiv_nonneg_iff)
  have "k * (x div k) < k * n" using quot_bounds(1) [OF assms(3), of x] assms(2) by linarith
  with assms(3) show "x div k < n" by (simp only: mult_less_cancel_left_pos)
qed

lemma daysToYear_cycles:
  assumes "daysToYear d = (y, yday)"
  obtains a b c e where "y = 400 * a + 100 * b + 4 * c + e + 1"
    "d = 146097 * a + 36524 * b + 1461 * c + 365 * e + yday"
    "0 \<le> b" "b \<le> 3" "0 \<le> c" "c \<le> 24" "0 \<le> e" "e \<le> 3"
    "0 \<le> yday" "yday \<le> 365" "yday = 365 \<longrightarrow> e = 3 \<and> (c = 24 \<longrightarrow> b = 3)"
proof -
  define a where "a = d div 146097"
  define d1 where "d1 = d - 146097 * a"
  define q100 where "q100 = d1 div 36524"
  define b where "b = q100 - q100 div 4"
  define d2 where "d2 = d1 - 36524 * b"
  define c where "c = d2 div 1461"
  define d3 where "d3 = d2 - 1461 * c"
  define q1 where "q1 = d3 div 365"
  define e where "e = q1 - q1 div 4"
  have eq: "daysToYear d = (400 * a + 100 * b + 4 * c + e + 1, d3 - 365 * e)"
    unfolding daysToYear_def Let_def a_def d1_def q100_def b_def d2_def c_def d3_def q1_def e_def
    by (rule refl)
  have eqs: "y = 400 * a + 100 * b + 4 * c + e + 1" "yday = d3 - 365 * e"
    using assms eq by simp_all
  have d1: "0 \<le> d1" "d1 < 146097"
    using quot_bounds [of 146097 d] by (simp_all add: d1_def a_def)
  have rq: "36524 * q100 \<le> d1" "d1 < 36524 * q100 + 36524"
    using quot_bounds [of 36524 d1] by (simp_all add: q100_def)
  then have q100: "0 \<le> q100" "q100 \<le> 4" using d1 by linarith+
  then have b: "b = (if q100 = 4 then 3 else q100)" "0 \<le> b" "b \<le> 3"
    by (auto simp: b_def)
  have d2: "0 \<le> d2" "d2 \<le> 36524" "d2 = 36524 \<longrightarrow> b = 3"
    using d1 rq b(1) by (auto simp: d2_def split: if_splits)
  have rc: "1461 * c \<le> d2" "d2 < 1461 * c + 1461"
    using quot_bounds [of 1461 d2] by (simp_all add: c_def)
  then have c: "0 \<le> c" "c \<le> 24" "0 \<le> d3" "d3 \<le> 1460" "c = 24 \<and> d3 = 1460 \<longrightarrow> d2 = 36524"
    using d2 by (auto simp: d3_def)
  have rq1: "365 * q1 \<le> d3" "d3 < 365 * q1 + 365"
    using quot_bounds [of 365 d3] by (simp_all add: q1_def)
  then have q1: "0 \<le> q1" "q1 \<le> 4" using c by linarith+
  then have e: "e = (if q1 = 4 then 3 else q1)" "0 \<le> e" "e \<le> 3"
    by (auto simp: e_def)
  have yday: "0 \<le> yday" "yday \<le> 365" "yday = 365 \<longrightarrow> e = 3 \<and> d3 = 1460"
    using c rq1 e(1) by (auto simp: eqs(2) split: if_splits)
  show ?thesis
  proof (rule that [OF eqs(1)])
    show "d = 146097 * a + 36524 * b + 1461 * c + 365 * e + yday"
      by (simp add: eqs(2) d3_def d2_def d1_def)
    show "yday = 365 \<longrightarrow> e = 3 \<and> (c = 24 \<longrightarrow> b = 3)"
      using yday c d2 by auto
  qed (use b c e yday in auto)
qed

lemma daysToYear_inverse:
  assumes "daysToYear d = (y, yday)"
  shows "daysBeforeYear y + yday = d" "0 \<le> yday" "yday < (if isLeap y then 366 else 365)"
proof -
  from assms obtain a b c e where h: "y = 400 * a + 100 * b + 4 * c + e + 1"
    "d = 146097 * a + 36524 * b + 1461 * c + 365 * e + yday"
    "0 \<le> b" "b \<le> 3" "0 \<le> c" "c \<le> 24" "0 \<le> e" "e \<le> 3"
    "0 \<le> yday" "yday \<le> 365" "yday = 365 \<longrightarrow> e = 3 \<and> (c = 24 \<longrightarrow> b = 3)"
    by (rule daysToYear_cycles)
  have "(y - 1) div 4 = 100 * a + 25 * b + c"
    using h by (intro div_mod_decomp(1) [where r = e]) simp_all
  moreover have "(y - 1) div 100 = 4 * a + b"
    using h by (intro div_mod_decomp(1) [where r = "4 * c + e"]) simp_all
  moreover have "(y - 1) div 400 = a"
    using h by (intro div_mod_decomp(1) [where r = "100 * b + 4 * c + e"]) simp_all
  ultimately show "daysBeforeYear y + yday = d"
    by (simp add: daysBeforeYear_def Let_def h(1,2) algebra_simps)
  show "0 \<le> yday" by (rule h(9))
  have "isLeap y" if "e = 3" "c = 24 \<longrightarrow> b = 3"
  proof -
    have "y mod 4 = 0"
      using h that by (intro div_mod_decomp(2) [where q = "100 * a + 25 * b + c + 1"]) simp_all
    moreover have "y mod 400 = 0" if "c = 24" "b = 3"
      using h \<open>e = 3\<close> that by (intro div_mod_decomp(2) [where q = "a + 1"]) simp_all
    moreover have "y mod 100 = 4 * c + 4" if "c \<noteq> 24"
      using h \<open>e = 3\<close> that by (intro div_mod_decomp(2) [where q = "4 * a + b"]) simp_all
    ultimately show ?thesis using that h(5) by (cases "c = 24") (simp_all add: isLeap_def)
  qed
  with h(10,11) show "yday < (if isLeap y then 366 else 365)" by auto
qed

lemma findMonth_spec:
  assumes "findMonth m r ls = (m', d)" "0 \<le> r" "r < sum_list ls"
  shows "\<exists>k < length ls. m' = m + int k \<and> r = sum_list (take k ls) + (d - 1) \<and> 1 \<le> d \<and> d \<le> ls ! k"
  using assms
proof (induction m r ls rule: findMonth.induct)
  case (1 m r)
  then show ?case by simp
next
  case (2 m r l ls)
  show ?case
  proof (cases "r < l")
    case True
    with 2 show ?thesis by (intro exI [of _ 0]) auto
  next
    case False
    with 2 obtain k where "k < length ls" "m' = m + 1 + int k"
      "r - l = sum_list (take k ls) + (d - 1)" "1 \<le> d" "d \<le> ls ! k" by auto
    then show ?thesis by (intro exI [of _ "Suc k"]) auto
  qed
qed

lemma findMonth_inverse:
  assumes "findMonth 1 r (monthLengths y) = (m, dm)" "0 \<le> r"
    "r < (if isLeap y then 366 else 365)"
  shows "daysBeforeMonth m y + (dm - 1) = r \<and> 1 \<le> m \<and> m \<le> 12 \<and> 1 \<le> dm \<and> dm \<le> daysIn m y \<and> dm \<le> 31"
proof -
  have "sum_list (monthLengths y) = (if isLeap y then 366 else 365)" "length (monthLengths y) = 12"
    by (simp_all add: monthLengths_def)
  with findMonth_spec [OF assms(1,2)] assms(3) obtain k where k: "k < 12" "m = 1 + int k"
    "r = sum_list (take k (monthLengths y)) + (dm - 1)" "1 \<le> dm" "dm \<le> monthLengths y ! k"
    by auto
  moreover have "monthLengths y ! k \<le> 31"
    using nth_mem [of k "monthLengths y"] k(1) by (auto simp: monthLengths_def)
  ultimately show ?thesis by (auto simp: daysBeforeMonth_def daysIn_def)
qed

lemma daysToDate_inverse:
  assumes "daysToDate d = (y, m, dm)"
  shows "dateToDays y m dm = d \<and> 1 \<le> m \<and> m \<le> 12 \<and> 1 \<le> dm \<and> dm \<le> daysIn m y \<and> dm \<le> 31"
proof -
  obtain yday where y: "daysToYear d = (y, yday)" "findMonth 1 yday (monthLengths y) = (m, dm)"
    using assms by (auto simp: daysToDate_def split: prod.splits)
  from daysToYear_inverse [OF y(1)] findMonth_inverse [OF y(2)] show ?thesis
    by (auto simp: dateToDays_def)
qed

section \<open>Format and Parse with the layout RFC3339\<close>

text \<open>Zero padding to a width, with the sign in front.\<close>

definition padInt :: "nat \<Rightarrow> int \<Rightarrow> string" where
  "padInt w x =
     (let ds = formatNat (nat \<bar>x\<bar>)
      in (if x < 0 then ''-'' else []) @ replicate (w - length ds) (CHR ''0'') @ ds)"

text \<open>\<open>t.UTC().Format(time.RFC3339)\<close>\<close>

definition formatRFC3339 :: "time \<Rightarrow> string" where
  "formatRFC3339 t =
     (let secs = t div second; (y, m, d) = daysToDate (secs div 86400 + unixDay); r = secs mod 86400
      in padInt 4 y @ ''-'' @ padInt 2 m @ ''-'' @ padInt 2 d @ ''T'' @
         padInt 2 (r div 3600) @ '':'' @ padInt 2 (r mod 3600 div 60) @ '':'' @ padInt 2 (r mod 60) @ ''Z'')"

definition isDigit :: "char \<Rightarrow> bool" where
  "isDigit c \<longleftrightarrow> 48 \<le> (of_char c :: nat) \<and> (of_char c :: nat) \<le> 57"

definition digitVal :: "char \<Rightarrow> int" where
  "digitVal c = int (of_char c) - 48"

definition digitsVal :: "string \<Rightarrow> int" where
  "digitsVal ds = foldl (\<lambda>n c. 10 * n + digitVal c) 0 ds"

text \<open>\<open>getnum(value, fixed)\<close>: one digit is enough unless \<open>fixed\<close>.\<close>

fun getnum :: "bool \<Rightarrow> string \<Rightarrow> (int \<times> string) option" where
  "getnum fixed [] = None"
| "getnum fixed [a] = (if isDigit a \<and> \<not> fixed then Some (digitVal a, []) else None)"
| "getnum fixed (a # b # s) =
     (if \<not> isDigit a then None
      else if isDigit b then Some (10 * digitVal a + digitVal b, s)
      else if fixed then None
      else Some (digitVal a, b # s))"

fun skipChar :: "char \<Rightarrow> string \<Rightarrow> string option" where
  "skipChar c [] = None"
| "skipChar c (x # xs) = (if x = c then Some xs else None)"

text \<open>The four digits of the year, \<open>stdLongYear\<close>.\<close>

definition getYear :: "string \<Rightarrow> (int \<times> string) option" where
  "getYear s =
     (if 4 \<le> length s \<and> list_all isDigit (take 4 s) then Some (digitsVal (take 4 s), drop 4 s) else None)"

text \<open>A number that must be below a bound, as the fields of the time of day are checked.\<close>

definition getBelow :: "bool \<Rightarrow> int \<Rightarrow> string \<Rightarrow> (int \<times> string) option" where
  "getBelow fixed hi s =
     (case getnum fixed s of Some (n, r) \<Rightarrow> if n < hi then Some (n, r) else None | None \<Rightarrow> None)"

text \<open>
  A fraction after the seconds, although the layout has none: at most nine digits count
  (\<open>parseNanoseconds\<close>).
\<close>

definition getFraction :: "string \<Rightarrow> int \<times> string" where
  "getFraction s =
     (case s of
        c # x # r \<Rightarrow>
          if (c = CHR ''.'' \<or> c = CHR '','') \<and> isDigit x
          then (let ds = takeWhile isDigit (x # r); k = take 9 ds
                in (digitsVal k * 10 ^ (9 - length k), dropWhile isDigit (x # r)))
          else (0, s)
      | _ \<Rightarrow> (0, s))"

text \<open>The zone, \<open>Z07:00\<close>: seconds east of UTC.\<close>

definition getZone :: "string \<Rightarrow> (int \<times> string) option" where
  "getZone s =
     (case s of
        [] \<Rightarrow> None
      | c # r \<Rightarrow>
          if c = CHR ''Z'' then Some (0, r)
          else if length s < 6 \<or> s ! 3 \<noteq> CHR '':'' then None
          else do {
            (hh, _) \<leftarrow> getnum True (take 2 (drop 1 s));
            (mm, _) \<leftarrow> getnum True (take 2 (drop 4 s));
            if 24 < hh \<or> 60 < mm then None
            else if c = CHR ''+'' then Some ((hh * 60 + mm) * 60, drop 6 s)
            else if c = CHR ''-'' then Some (- ((hh * 60 + mm) * 60), drop 6 s)
            else None })"

text \<open>\<open>time.Parse(time.RFC3339, value)\<close>; \<open>None\<close> for any error.\<close>

definition parseRFC3339 :: "string \<Rightarrow> time option" where
  "parseRFC3339 value = do {
     (y, s) \<leftarrow> getYear value;
     s \<leftarrow> skipChar (CHR ''-'') s;
     (m, s) \<leftarrow> getnum True s;
     s \<leftarrow> (if m \<le> 0 \<or> 12 < m then None else skipChar (CHR ''-'') s);
     (d, s) \<leftarrow> getnum True s;
     s \<leftarrow> skipChar (CHR ''T'') s;
     (h, s) \<leftarrow> getBelow False 24 s;
     s \<leftarrow> skipChar (CHR '':'') s;
     (mi, s) \<leftarrow> getBelow True 60 s;
     s \<leftarrow> skipChar (CHR '':'') s;
     (sec, s) \<leftarrow> getBelow True 60 s;
     (ns, s) \<leftarrow> Some (getFraction s);
     (off, s) \<leftarrow> getZone s;
     if s \<noteq> [] \<or> d < 1 \<or> daysIn m y < d then None
     else Some (dateTime y m d h mi sec ns - off * second) }"

lemma digitChar [simp]:
  assumes "n < 10"
  shows "isDigit (digitChar n)" "digitVal (digitChar n) = int n"
  using assms by (simp_all add: isDigit_def digitVal_def digitChar_def of_char_of)

lemma digitChar_0: "digitChar 0 = CHR ''0''"
  by code_simp

lemma padInt2:
  assumes "0 \<le> x" "x < 100"
  shows "padInt 2 x = [digitChar (nat x div 10), digitChar (nat x mod 10)]"
proof (cases "x < 10")
  case True
  with assms have "nat x < 10" by linarith
  with True assms show ?thesis
    by (simp add: padInt_def formatNat.simps [of "nat x"] digitChar_0)
next
  case False
  with assms have "nat x div 10 < 10" by linarith
  with False assms show ?thesis
    by (simp add: padInt_def formatNat.simps [of "nat x"] formatNat.simps [of "nat x div 10"])
qed

lemma getnum_padInt2 [simp]:
  assumes "0 \<le> x" "x < 100"
  shows "getnum fixed (padInt 2 x @ s) = Some (x, s)"
proof -
  have "nat x div 10 < 10" using assms by linarith
  moreover have "10 * int (nat x div 10) + int (nat x mod 10) = x"
    using assms by (simp add: zdiv_int zmod_int)
  ultimately show ?thesis by (simp add: padInt2 [OF assms])
qed

lemma getBelow_padInt2 [simp]:
  "0 \<le> x \<Longrightarrow> x < hi \<Longrightarrow> hi \<le> 100 \<Longrightarrow> getBelow fixed hi (padInt 2 x @ s) = Some (x, s)"
  by (simp add: getBelow_def)

lemma formatNat_step: "10 \<le> n \<Longrightarrow> formatNat n = formatNat (n div 10) @ [digitChar (n mod 10)]"
  by (simp add: formatNat.simps [of n])

lemma formatNat_digit: "n < 10 \<Longrightarrow> formatNat n = [digitChar n]"
  by (simp add: formatNat.simps [of n])

lemma pad4:
  assumes "n < 10000"
  shows "replicate (4 - length (formatNat n)) (CHR ''0'') @ formatNat n =
    [digitChar (n div 1000), digitChar (n div 100 mod 10), digitChar (n div 10 mod 10), digitChar (n mod 10)]"
proof -
  have d: "n div 10 div 10 = n div 100" "n div 100 div 10 = n div 1000"
    by (simp_all add: div_mult2_eq [symmetric])
  consider "n < 10" | "10 \<le> n" "n < 100" | "100 \<le> n" "n < 1000" | "1000 \<le> n" by linarith
  then show ?thesis
  proof cases
    case 1
    then show ?thesis by (simp add: formatNat_digit digitChar_0 numeral_3_eq_3)
  next
    case 2
    then have "n div 10 < 10" by linarith
    with 2 show ?thesis
      by (simp add: formatNat_step [of n] formatNat_digit digitChar_0 numeral_2_eq_2)
  next
    case 3
    then have "10 \<le> n div 10" "n div 100 < 10" by linarith+
    with 3 show ?thesis
      by (simp add: formatNat_step [of n] formatNat_step [of "n div 10"] formatNat_digit digitChar_0 d)
  next
    case 4
    with assms have "10 \<le> n div 10" "10 \<le> n div 100" "n div 1000 < 10" by linarith+
    with 4 show ?thesis
      by (simp add: formatNat_step [of n] formatNat_step [of "n div 10"] formatNat_step [of "n div 100"]
          formatNat_digit d)
  qed
qed

lemma getYear_padInt4:
  assumes "0 \<le> y" "y < 10000"
  shows "getYear (padInt 4 y @ s) = Some (y, s)"
proof -
  define n where "n = nat y"
  with assms have n: "n < 10000" "y = int n" by auto
  have p: "padInt 4 (int n) = [digitChar (n div 1000), digitChar (n div 100 mod 10),
      digitChar (n div 10 mod 10), digitChar (n mod 10)]"
    using pad4 [OF n(1)] by (simp add: padInt_def Let_def)
  have "n div 1000 < 10" using n(1) by linarith
  moreover have "10 * (n div 1000) + n div 100 mod 10 = n div 100"
    using mult_div_mod_eq [of 10 "n div 100"] by (simp add: div_mult2_eq [symmetric])
  then have "10 * (10 * (10 * (n div 1000) + n div 100 mod 10) + n div 10 mod 10) + n mod 10 = n"
    using mult_div_mod_eq [of 10 "n div 10"] mult_div_mod_eq [of 10 n]
    by (simp add: div_mult2_eq [symmetric])
  then have "int (10 * (10 * (10 * (n div 1000) + n div 100 mod 10) + n div 10 mod 10) + n mod 10) = int n"
    by simp
  ultimately show ?thesis
    by (simp add: getYear_def p digitsVal_def n(2))
qed

lemma skipChar_Cons [simp]: "skipChar c (c # s) = Some s"
  by simp

lemma getZone_Z [simp]: "getZone ''Z'' = Some (0, [])"
  by (simp add: getZone_def)

text \<open>
  The round trip: a formatted instant of the years 0 to 9999 parses, and to the same second.
\<close>

definition yearOf :: "time \<Rightarrow> int" where
  "yearOf t = fst (daysToDate (t div second div 86400 + unixDay))"

lemma parse_fields:
  assumes "0 \<le> y" "y < 10000" "1 \<le> m" "m \<le> 12" "1 \<le> d" "d \<le> daysIn m y" "d \<le> 31"
    "0 \<le> h" "h < 24" "0 \<le> mi" "mi < 60" "0 \<le> s" "s < 60"
  shows "parseRFC3339 (padInt 4 y @ ''-'' @ padInt 2 m @ ''-'' @ padInt 2 d @ ''T'' @
    padInt 2 h @ '':'' @ padInt 2 mi @ '':'' @ padInt 2 s @ ''Z'') = Some (dateTime y m d h mi s 0)"
  using assms by (simp add: parseRFC3339_def getYear_padInt4 getFraction_def)

lemma parse_format:
  assumes "0 \<le> yearOf t" "yearOf t < 10000"
  shows "parseRFC3339 (formatRFC3339 t) = Some (t - t mod second)"
proof -
  define secs where "secs = t div second"
  define r where "r = secs mod 86400"
  obtain y m d where date: "daysToDate (secs div 86400 + unixDay) = (y, m, d)"
    by (cases "daysToDate (secs div 86400 + unixDay)") auto
  with assms have y: "0 \<le> y" "y < 10000" by (simp_all add: yearOf_def secs_def)
  have dt: "dateToDays y m d = secs div 86400 + unixDay" "1 \<le> m" "m \<le> 12" "1 \<le> d" "d \<le> daysIn m y" "d \<le> 31"
    using daysToDate_inverse [OF date] by auto
  have r: "0 \<le> r" "r < 86400" by (simp_all add: r_def)
  from r have hms: "0 \<le> r div 3600" "r div 3600 < 24" "0 \<le> r mod 3600 div 60" "r mod 3600 div 60 < 60"
    "0 \<le> r mod 60" "r mod 60 < 60"
    using quot_range [of r 3600 24] quot_range [of "r mod 3600" 60 60] by simp_all
  have split: "r div 3600 * 3600 + r mod 3600 div 60 * 60 + r mod 60 = r"
  proof -
    have "60 * (r mod 3600 div 60) + r mod 60 = r mod 3600"
      using mult_div_mod_eq [of 60 "r mod 3600"] by (simp add: mod_mod_cancel)
    moreover have "3600 * (r div 3600) + r mod 3600 = r" by simp
    ultimately show ?thesis by linarith
  qed
  have "parseRFC3339 (formatRFC3339 t) =
    Some (dateTime y m d (r div 3600) (r mod 3600 div 60) (r mod 60) 0)"
    unfolding formatRFC3339_def Let_def secs_def [symmetric] r_def [symmetric] date prod.case
    by (rule parse_fields [OF y dt(2-6) hms])
  also have "dateTime y m d (r div 3600) (r mod 3600 div 60) (r mod 60) 0 = secs * second"
  proof -
    have "(dateToDays y m d - unixDay) * 86400 + r div 3600 * 3600 + r mod 3600 div 60 * 60 + r mod 60 = secs"
      unfolding dt(1)
      using split div_mult_mod_eq [of secs 86400, folded r_def] by (simp only: add.assoc) simp
    then show ?thesis by (simp add: dateTime_def)
  qed
  also have "\<dots> = t - t mod second"
    using minus_mod_eq_div_mult [of t second] by (simp add: secs_def)
  finally show ?thesis by simp
qed

end
