(* ===== verification/ApiTypes.thy ===== *)
theory ApiTypes
  imports GoTime
begin

text \<open>
  The \<^verbatim>\<open>FeastOperator\<close> resource of \<^verbatim>\<open>api/components/v1alpha1\<close>: its spec (the optional OIDC
  settings and the optional capability block) and the part of its status that the controller
  itself reads and writes, \<^verbatim>\<open>status.releases\<close>. The status conditions belong to the
  framework; their accessors are in \<open>DeepCopy\<close>.
\<close>

definition feastOperatorComponentName :: string where
  "feastOperatorComponentName = ''feastoperator''"

definition feastOperatorInstanceName :: string where
  "feastOperatorInstanceName = ''default-feastoperator''"

definition feastOperatorKind :: string where
  "feastOperatorKind = ''FeastOperator''"

text \<open>
  A management state is a string in Go. The CRD admits \<open>Managed\<close> and \<open>Removed\<close>; the Go type admits
  any string.
\<close>

type_synonym management_state = string

definition capabilityManaged :: management_state where
  "capabilityManaged = ''Managed''"

definition capabilityRemoved :: management_state where
  "capabilityRemoved = ''Removed''"

record capability_spec =
  managementState :: management_state

record capabilities_spec =
  featureStore :: capability_spec
  dataRegistry :: capability_spec

text \<open>A pointer field is an option; \<open>OIDC\<close> carries its \<open>IssuerURL\<close>.\<close>

record feast_operator_spec =
  specOIDC :: "string option"
  specCapabilities :: "capabilities_spec option"

record component_release =
  releaseName :: string
  releaseVersion :: string

record feast_operator_status =
  statusReleases :: "component_release list"

record feast_operator =
  metaName :: string
  spec :: feast_operator_spec
  status :: feast_operator_status

text \<open>\<open>GetReleaseStatus\<close> and \<open>SetReleaseStatus\<close>, which the framework's release action calls.\<close>

definition getReleaseStatus :: "feast_operator \<Rightarrow> component_release list" where
  "getReleaseStatus c = statusReleases (status c)"

definition setReleaseStatus :: "component_release list \<Rightarrow> feast_operator \<Rightarrow> feast_operator" where
  "setReleaseStatus rs c = c\<lparr>status := (status c)\<lparr>statusReleases := rs\<rparr>\<rparr>"

lemma release_status_simps [simp]:
  "getReleaseStatus (setReleaseStatus rs c) = rs"
  "spec (setReleaseStatus rs c) = spec c"
  "metaName (setReleaseStatus rs c) = metaName c"
  "setReleaseStatus rs (setReleaseStatus rs' c) = setReleaseStatus rs c"
  by (simp_all add: getReleaseStatus_def setReleaseStatus_def)

end
