(* ===== verification/Kube.thy ===== *)
theory Kube
  imports ApiTypes
begin

text \<open>
  What the controller sees of the cluster. The objects carry the fields the code reads or writes.
  The client of controller-runtime, its \<open>controllerutil\<close> helpers and the ODH libraries are not part
  of this repository: they are the fields of a record \<open>'w kube\<close> that every handler takes as an
  argument, operations on an abstract world \<open>'w\<close>. What is assumed of them is stated by
  \<open>kube_laws\<close> (documented effects on the stored objects, and that an operation leaves other objects
  alone) and \<open>kube_available\<close> (requests on existing objects succeed), over a view \<open>V\<close> of the
  objects the API server stores.
\<close>

section \<open>Objects\<close>

record objkey =
  keyName :: string
  keyNamespace :: string

record config_map =
  cmName :: string
  cmNamespace :: string
  cmLabels :: gomap
  cmAnnotations :: gomap
  cmFinalizers :: "string list"
  cmDeletionTimestamp :: "time option"
  cmOwners :: "string list"
  cmData :: gomap

record knamespace =
  nsName :: string
  nsLabels :: gomap

text \<open>A deployment's \<open>spec.selector\<close> is a pointer; its \<open>matchLabels\<close> is a map.\<close>

record deployment =
  depName :: string
  depNamespace :: string
  depSelector :: "gomap option"
  depTemplateAnnotations :: gomap

text \<open>A ClusterRole or ClusterRoleBinding, as far as the clean-up looks at it.\<close>

record rbac_object =
  rbacName :: string
  rbacLabels :: gomap

record manifest_info =
  manifestPath :: string
  manifestContextDir :: string
  manifestSourcePath :: string

record event =
  eventType :: string
  eventReason :: string
  eventAction :: string
  eventNote :: string

definition cmKey :: "config_map \<Rightarrow> objkey" where
  "cmKey cm = \<lparr>keyName = cmName cm, keyNamespace = cmNamespace cm\<rparr>"

definition depKey :: "deployment \<Rightarrow> objkey" where
  "depKey d = \<lparr>keyName = depName d, keyNamespace = depNamespace d\<rparr>"

text \<open>The zero value an object literal starts from.\<close>

definition newConfigMap :: "string \<Rightarrow> string \<Rightarrow> config_map" where
  "newConfigMap n ns =
     \<lparr>cmName = n, cmNamespace = ns, cmLabels = None, cmAnnotations = None, cmFinalizers = [],
      cmDeletionTimestamp = None, cmOwners = [], cmData = None\<rparr>"

definition newNamespace :: "string \<Rightarrow> knamespace" where
  "newNamespace n = \<lparr>nsName = n, nsLabels = None\<rparr>"

section \<open>The client and the libraries, as a parameter\<close>

record 'w kube =
  getCM :: "objkey \<Rightarrow> ('w, config_map) call"
  updateCM :: "config_map \<Rightarrow> 'w act"
  deleteCM :: "config_map \<Rightarrow> 'w act"
  createOrUpdateCM :: "config_map \<Rightarrow> (config_map \<Rightarrow> goerr + config_map) \<Rightarrow> ('w, config_map) call"
  getNS :: "string \<Rightarrow> ('w, knamespace) call"
  patchNS :: "knamespace \<Rightarrow> knamespace \<Rightarrow> 'w act"
  createOrUpdateNS :: "knamespace \<Rightarrow> (knamespace \<Rightarrow> goerr + knamespace) \<Rightarrow> ('w, knamespace) call"
  getDeploy :: "objkey \<Rightarrow> ('w, deployment) call"
  patchDeploy :: "deployment \<Rightarrow> deployment \<Rightarrow> 'w act"
  deleteDeploy :: "deployment \<Rightarrow> 'w act"
  listCRBs :: "(string \<times> string) list \<Rightarrow> ('w, rbac_object list) call"
  deleteCRB :: "rbac_object \<Rightarrow> 'w act"
  listCRs :: "(string \<times> string) list \<Rightarrow> ('w, rbac_object list) call"
  deleteCR :: "rbac_object \<Rightarrow> 'w act"
  addFinalizer :: "string \<Rightarrow> config_map \<Rightarrow> config_map"
  removeFinalizer :: "string \<Rightarrow> config_map \<Rightarrow> config_map"
  containsFinalizer :: "string \<Rightarrow> config_map \<Rightarrow> bool"
  setControllerReference :: "feast_operator \<Rightarrow> config_map \<Rightarrow> goerr + config_map"
  componentLabel :: "string \<Rightarrow> string"
  labelTrue :: string
  manifestString :: "manifest_info \<Rightarrow> string"
  applyParams :: "string \<Rightarrow> string \<Rightarrow> (string \<times> string) list \<Rightarrow> (string \<times> string) list list \<Rightarrow> 'w act"

section \<open>What is assumed of the client\<close>

record cluster =
  clCMs :: "objkey \<Rightarrow> config_map option"
  clNSs :: "string \<Rightarrow> knamespace option"
  clDeploys :: "objkey \<Rightarrow> deployment option"
  clCRBs :: "rbac_object list"
  clCRs :: "rbac_object list"

text \<open>The API server may store an empty map as nil, so stored objects are compared up to that.\<close>

definition same_cm :: "config_map \<Rightarrow> config_map \<Rightarrow> bool" where
  "same_cm a b \<longleftrightarrow>
     cmKey a = cmKey b \<and> cmFinalizers a = cmFinalizers b \<and>
     cmDeletionTimestamp a = cmDeletionTimestamp b \<and> cmOwners a = cmOwners b \<and>
     gm_eq (cmLabels a) (cmLabels b) \<and> gm_eq (cmAnnotations a) (cmAnnotations b) \<and>
     gm_eq (cmData a) (cmData b)"

definition same_ns :: "knamespace \<Rightarrow> knamespace \<Rightarrow> bool" where
  "same_ns a b \<longleftrightarrow> nsName a = nsName b \<and> gm_eq (nsLabels a) (nsLabels b)"

definition same_dep :: "deployment \<Rightarrow> deployment \<Rightarrow> bool" where
  "same_dep a b \<longleftrightarrow>
     depKey a = depKey b \<and> gm_eq (depTemplateAnnotations a) (depTemplateAnnotations b) \<and>
     rel_option gm_eq (depSelector a) (depSelector b)"

text \<open>
  An object written back: it disappears when it is terminating and has lost its last finalizer.
\<close>

definition stored_as :: "config_map \<Rightarrow> config_map option \<Rightarrow> bool" where
  "stored_as cm r \<longleftrightarrow>
     (if cmDeletionTimestamp cm \<noteq> None \<and> cmFinalizers cm = [] then r = None
      else (\<exists>cm'. r = Some cm' \<and> same_cm cm cm'))"

definition finalizer_laws :: "'w kube \<Rightarrow> bool" where
  "finalizer_laws K \<longleftrightarrow>
     (\<forall>f cm. containsFinalizer K f cm = (f \<in> set (cmFinalizers cm)) \<and>
        addFinalizer K f cm =
          cm\<lparr>cmFinalizers := (if f \<in> set (cmFinalizers cm) then cmFinalizers cm else cmFinalizers cm @ [f])\<rparr> \<and>
        removeFinalizer K f cm = cm\<lparr>cmFinalizers := filter (\<lambda>x. x \<noteq> f) (cmFinalizers cm)\<rparr>)"

text \<open>
  \<open>controllerutil.SetControllerReference\<close> only touches the owner references, and what it makes of
  them depends on nothing but the owner, the object's key and the references already there. It updates
  the owner's entry where there is one, so setting the same owner again changes nothing.
\<close>

definition owner_laws :: "'w kube \<Rightarrow> bool" where
  "owner_laws K \<longleftrightarrow>
     (\<forall>f cm cm'. setControllerReference K f cm = Inr cm' \<longrightarrow>
        (\<forall>c. cmKey c = cmKey cm \<and> cmOwners c = cmOwners cm \<longrightarrow>
           setControllerReference K f c = Inr (c\<lparr>cmOwners := cmOwners cm'\<rparr>)) \<and>
        setControllerReference K f cm' = Inr cm')"

text \<open>A read returns what is stored, \<open>NotFound\<close> only what is not, and changes nothing.\<close>

definition reads :: "('k \<Rightarrow> ('w, 'o) call) \<Rightarrow> ('w \<Rightarrow> cluster) \<Rightarrow> (cluster \<Rightarrow> 'k \<Rightarrow> 'o option) \<Rightarrow> ('o \<Rightarrow> 'k) \<Rightarrow> bool"
  where
  "reads get V sel key \<longleftrightarrow>
     (\<forall>k w r w'. get k w = (r, w') \<longrightarrow> V w' = V w \<and>
        (\<forall>ob. r = Inr ob \<longrightarrow> sel (V w) k = Some ob \<and> key ob = k) \<and>
        (\<forall>e. r = Inl e \<and> isNotFound e \<longrightarrow> sel (V w) k = None))"

text \<open>A list by labels returns the stored objects that carry all of them.\<close>

definition lists ::
  "((string \<times> string) list \<Rightarrow> ('w, rbac_object list) call) \<Rightarrow> ('w \<Rightarrow> cluster) \<Rightarrow> (cluster \<Rightarrow> rbac_object list) \<Rightarrow> bool"
  where
  "lists ls V sel \<longleftrightarrow>
     (\<forall>ps w r w'. ls ps w = (r, w') \<longrightarrow> V w' = V w \<and>
        (\<forall>xs. r = Inr xs \<longrightarrow>
           set xs = {x \<in> set (sel (V w)). \<forall>(k, v) \<in> set ps. gm_lookup (rbacLabels x) k = Some v}))"

text \<open>
  A request that changes the cluster is one transaction: a request that fails either had its whole
  effect or none (a lost response, a conflict). An update replaces the stored object, whose deletion
  timestamp it cannot change; a terminating object without finalizers goes away.
\<close>

definition updates :: "'w kube \<Rightarrow> ('w \<Rightarrow> cluster) \<Rightarrow> bool" where
  "updates K V \<longleftrightarrow>
     (\<forall>cm w r w'. updateCM K cm w = (r, w') \<longrightarrow>
        r \<noteq> None \<and> V w' = V w \<or>
        (\<exists>old x. clCMs (V w) (cmKey cm) = Some old \<and>
           stored_as (cm\<lparr>cmDeletionTimestamp := cmDeletionTimestamp old\<rparr>) x \<and>
           V w' = (V w)\<lparr>clCMs := (clCMs (V w))(cmKey cm := x)\<rparr>))"

text \<open>A delete of an object with finalizers only sets its deletion timestamp.\<close>

definition terminated :: "time \<Rightarrow> config_map \<Rightarrow> config_map option" where
  "terminated t s =
     (if cmFinalizers s = [] then None
      else Some (s\<lparr>cmDeletionTimestamp :=
             (case cmDeletionTimestamp s of None \<Rightarrow> Some t | Some u \<Rightarrow> Some u)\<rparr>))"

definition deletes :: "'w kube \<Rightarrow> ('w \<Rightarrow> cluster) \<Rightarrow> bool" where
  "deletes K V \<longleftrightarrow>
     (\<forall>cm w r w'. deleteCM K cm w = (r, w') \<longrightarrow>
        (\<exists>e. r = Some e \<and> V w' = V w \<and> (isNotFound e \<longrightarrow> clCMs (V w) (cmKey cm) = None)) \<or>
        (\<exists>t s. clCMs (V w) (cmKey cm) = Some s \<and>
           V w' = (V w)\<lparr>clCMs := (clCMs (V w))(cmKey cm := terminated t s)\<rparr>))"

text \<open>
  \<open>controllerutil.CreateOrUpdate\<close> applies the callback to the stored object, or to the given one
  where none is stored, and writes the result.
\<close>

definition createsOrUpdates :: "'w kube \<Rightarrow> ('w \<Rightarrow> cluster) \<Rightarrow> bool" where
  "createsOrUpdates K V \<longleftrightarrow>
     (\<forall>cm f w res w'. createOrUpdateCM K cm f w = (res, w') \<longrightarrow>
        (\<exists>e. res = Inl e \<and> V w' = V w) \<or>
        (let base = (case clCMs (V w) (cmKey cm) of None \<Rightarrow> cm | Some old \<Rightarrow> old) in
         \<exists>cm1 x. f base = Inr cm1 \<and> cmKey cm1 = cmKey cm \<and>
           stored_as (cm1\<lparr>cmDeletionTimestamp := cmDeletionTimestamp base\<rparr>) x \<and>
           V w' = (V w)\<lparr>clCMs := (clCMs (V w))(cmKey cm := x)\<rparr>)) \<and>
     (\<forall>ns f w res w'. createOrUpdateNS K ns f w = (res, w') \<longrightarrow>
        (\<exists>e. res = Inl e \<and> V w' = V w) \<or>
        (\<exists>ns1 ns'. f (case clNSs (V w) (nsName ns) of None \<Rightarrow> ns | Some old \<Rightarrow> old) = Inr ns1 \<and>
           same_ns ns1 ns' \<and> V w' = (V w)\<lparr>clNSs := (clNSs (V w))(nsName ns \<mapsto> ns')\<rparr>))"

text \<open>A merge patch computed against the stored object writes the modified object.\<close>

definition patches :: "'w kube \<Rightarrow> ('w \<Rightarrow> cluster) \<Rightarrow> bool" where
  "patches K V \<longleftrightarrow>
     (\<forall>old ns w r w'. patchNS K old ns w = (r, w') \<longrightarrow> clNSs (V w) (nsName ns) = Some old \<longrightarrow>
        r \<noteq> None \<and> V w' = V w \<or>
        (\<exists>ns'. same_ns ns ns' \<and> V w' = (V w)\<lparr>clNSs := (clNSs (V w))(nsName ns \<mapsto> ns')\<rparr>)) \<and>
     (\<forall>old d w r w'. patchDeploy K old d w = (r, w') \<longrightarrow> clDeploys (V w) (depKey d) = Some old \<longrightarrow>
        r \<noteq> None \<and> V w' = V w \<or>
        (\<exists>d'. same_dep d d' \<and> V w' = (V w)\<lparr>clDeploys := (clDeploys (V w))(depKey d \<mapsto> d')\<rparr>))"

text \<open>A delete of an object without finalizers removes it.\<close>

definition removes :: "'w kube \<Rightarrow> ('w \<Rightarrow> cluster) \<Rightarrow> bool" where
  "removes K V \<longleftrightarrow>
     (\<forall>d w r w'. deleteDeploy K d w = (r, w') \<longrightarrow>
        (\<exists>e. r = Some e \<and> V w' = V w \<and> (isNotFound e \<longrightarrow> clDeploys (V w) (depKey d) = None)) \<or>
        V w' = (V w)\<lparr>clDeploys := (clDeploys (V w))(depKey d := None)\<rparr>) \<and>
     (\<forall>x w r w'. deleteCRB K x w = (r, w') \<longrightarrow>
        (\<exists>e. r = Some e \<and> V w' = V w \<and> (isNotFound e \<longrightarrow> rbacName x \<notin> rbacName ` set (clCRBs (V w)))) \<or>
        V w' = (V w)\<lparr>clCRBs := filter (\<lambda>y. rbacName y \<noteq> rbacName x) (clCRBs (V w))\<rparr>) \<and>
     (\<forall>x w r w'. deleteCR K x w = (r, w') \<longrightarrow>
        (\<exists>e. r = Some e \<and> V w' = V w \<and> (isNotFound e \<longrightarrow> rbacName x \<notin> rbacName ` set (clCRs (V w)))) \<or>
        V w' = (V w)\<lparr>clCRs := filter (\<lambda>y. rbacName y \<noteq> rbacName x) (clCRs (V w))\<rparr>)"

definition kube_laws :: "'w kube \<Rightarrow> ('w \<Rightarrow> cluster) \<Rightarrow> bool" where
  "kube_laws K V \<longleftrightarrow>
     finalizer_laws K \<and>
     reads (getCM K) V clCMs cmKey \<and> reads (getNS K) V clNSs nsName \<and> reads (getDeploy K) V clDeploys depKey \<and>
     lists (listCRBs K) V clCRBs \<and> lists (listCRs K) V clCRs \<and>
     updates K V \<and> deletes K V \<and> createsOrUpdates K V \<and> patches K V \<and> removes K V \<and> owner_laws K"

text \<open>
  An API server that answers: a read finds exactly the stored objects, and a write to a stored
  object succeeds. Only theorems about progress assume it.
\<close>

definition answers :: "('k \<Rightarrow> ('w, 'o) call) \<Rightarrow> ('w \<Rightarrow> cluster) \<Rightarrow> (cluster \<Rightarrow> 'k \<Rightarrow> 'o option) \<Rightarrow> bool" where
  "answers get V sel \<longleftrightarrow>
     (\<forall>k w. (\<forall>ob. sel (V w) k = Some ob \<longrightarrow> fst (get k w) = Inr ob) \<and>
        (sel (V w) k = None \<longrightarrow> (\<exists>e. fst (get k w) = Inl e \<and> isNotFound e)))"

definition kube_available :: "'w kube \<Rightarrow> ('w \<Rightarrow> cluster) \<Rightarrow> bool" where
  "kube_available K V \<longleftrightarrow>
     answers (getCM K) V clCMs \<and> answers (getNS K) V clNSs \<and> answers (getDeploy K) V clDeploys \<and>
     (\<forall>cm w. clCMs (V w) (cmKey cm) \<noteq> None \<longrightarrow>
        fst (updateCM K cm w) = None \<and> fst (deleteCM K cm w) = None) \<and>
     (\<forall>a b w. clNSs (V w) (nsName b) \<noteq> None \<longrightarrow> fst (patchNS K a b w) = None) \<and>
     (\<forall>a b w. clDeploys (V w) (depKey b) \<noteq> None \<longrightarrow> fst (patchDeploy K a b w) = None) \<and>
     (\<forall>ps w. (\<exists>xs. fst (listCRBs K ps w) = Inr xs) \<and> (\<exists>xs. fst (listCRs K ps w) = Inr xs)) \<and>
     (\<forall>x w. ignoreNotFound (fst (deleteCRB K x w)) = None \<and> ignoreNotFound (fst (deleteCR K x w)) = None)"

section \<open>The laws, one operation at a time\<close>

lemma kube_lawsD:
  assumes "kube_laws K V"
  shows "finalizer_laws K" "reads (getCM K) V clCMs cmKey" "reads (getNS K) V clNSs nsName"
    "reads (getDeploy K) V clDeploys depKey" "lists (listCRBs K) V clCRBs" "lists (listCRs K) V clCRs"
    "updates K V" "deletes K V" "createsOrUpdates K V" "patches K V" "removes K V" "owner_laws K"
  using assms unfolding kube_laws_def by simp_all

lemma finalizer_ops:
  assumes "kube_laws K V"
  shows "containsFinalizer K f cm \<longleftrightarrow> f \<in> set (cmFinalizers cm)"
    "addFinalizer K f cm =
       cm\<lparr>cmFinalizers := (if f \<in> set (cmFinalizers cm) then cmFinalizers cm else cmFinalizers cm @ [f])\<rparr>"
    "removeFinalizer K f cm = cm\<lparr>cmFinalizers := filter (\<lambda>x. x \<noteq> f) (cmFinalizers cm)\<rparr>"
  using kube_lawsD(1) [OF assms] unfolding finalizer_laws_def by blast+

lemma setControllerReference_owners:
  assumes "kube_laws K V" "setControllerReference K f cm = Inr cm'"
  obtains os where "cm' = cm\<lparr>cmOwners := os\<rparr>"
proof -
  have "setControllerReference K f cm = Inr (cm\<lparr>cmOwners := cmOwners cm'\<rparr>)"
    using assms(2) kube_lawsD(12) [OF assms(1)] unfolding owner_laws_def by blast
  with assms(2) have "cm' = cm\<lparr>cmOwners := cmOwners cm'\<rparr>" by simp
  then show thesis by (rule that)
qed

text \<open>The object carries the reference to its owner: setting it again changes nothing.\<close>

definition ownedBy :: "'w kube \<Rightarrow> feast_operator \<Rightarrow> config_map \<Rightarrow> bool" where
  "ownedBy K f cm \<longleftrightarrow> setControllerReference K f cm = Inr cm"

lemma setControllerReference_cong:
  assumes "kube_laws K V" "setControllerReference K f cm = Inr cm'" "cmKey c = cmKey cm" "cmOwners c = cmOwners cm"
  shows "setControllerReference K f c = Inr (c\<lparr>cmOwners := cmOwners cm'\<rparr>)"
  using assms(2-4) kube_lawsD(12) [OF assms(1)] unfolding owner_laws_def by blast

lemma setControllerReference_owned:
  assumes "kube_laws K V" "setControllerReference K f cm = Inr cm'" "cmKey c = cmKey cm'" "cmOwners c = cmOwners cm'"
  shows "ownedBy K f c"
proof -
  have "setControllerReference K f cm' = Inr cm'"
    using assms(2) kube_lawsD(12) [OF assms(1)] unfolding owner_laws_def by blast
  from setControllerReference_cong [OF assms(1) this assms(3,4)] assms(4) show ?thesis
    by (simp add: ownedBy_def)
qed

lemma readsD:
  assumes "reads get V sel key" "get k w = (r, w')"
  shows "V w' = V w"
    "r = Inr ob \<Longrightarrow> sel (V w) k = Some ob \<and> key ob = k"
    "r = Inl e \<Longrightarrow> isNotFound e \<Longrightarrow> sel (V w) k = None"
  using assms unfolding reads_def by blast+

lemma listsD:
  assumes "lists ls V sel" "ls ps w = (r, w')"
  shows "V w' = V w"
    "r = Inr xs \<Longrightarrow> set xs = {x \<in> set (sel (V w)). \<forall>(k, v) \<in> set ps. gm_lookup (rbacLabels x) k = Some v}"
  using assms unfolding lists_def by blast+

lemmas getCM_reads = readsD [OF kube_lawsD(2)]
lemmas getNS_reads = readsD [OF kube_lawsD(3)]
lemmas getDeploy_reads = readsD [OF kube_lawsD(4)]
lemmas listCRBs_lists = listsD [OF kube_lawsD(5)]
lemmas listCRs_lists = listsD [OF kube_lawsD(6)]

lemma updateCM_effect:
  assumes "kube_laws K V" "updateCM K cm w = (r, w')"
  obtains (failed) "r \<noteq> None" "V w' = V w"
  | (written) old x where "clCMs (V w) (cmKey cm) = Some old"
      "stored_as (cm\<lparr>cmDeletionTimestamp := cmDeletionTimestamp old\<rparr>) x"
      "V w' = (V w)\<lparr>clCMs := (clCMs (V w))(cmKey cm := x)\<rparr>"
  using assms(2) kube_lawsD(7) [OF assms(1)] unfolding updates_def by blast

lemma deleteCM_effect:
  assumes "kube_laws K V" "deleteCM K cm w = (r, w')"
  obtains (failed) e where "r = Some e" "V w' = V w" "isNotFound e \<Longrightarrow> clCMs (V w) (cmKey cm) = None"
  | (deleted) t s where "clCMs (V w) (cmKey cm) = Some s"
      "V w' = (V w)\<lparr>clCMs := (clCMs (V w))(cmKey cm := terminated t s)\<rparr>"
  using assms(2) kube_lawsD(8) [OF assms(1)] unfolding deletes_def by blast

lemma createOrUpdateCM_effect:
  assumes "kube_laws K V" "createOrUpdateCM K cm f w = (res, w')"
    "base = (case clCMs (V w) (cmKey cm) of None \<Rightarrow> cm | Some old \<Rightarrow> old)"
  obtains (failed) e where "res = Inl e" "V w' = V w"
  | (written) cm1 x where "f base = Inr cm1" "cmKey cm1 = cmKey cm"
      "stored_as (cm1\<lparr>cmDeletionTimestamp := cmDeletionTimestamp base\<rparr>) x"
      "V w' = (V w)\<lparr>clCMs := (clCMs (V w))(cmKey cm := x)\<rparr>"
  using assms(2,3) kube_lawsD(9) [OF assms(1)] unfolding createsOrUpdates_def Let_def by blast

lemma createOrUpdateNS_effect:
  assumes "kube_laws K V" "createOrUpdateNS K ns f w = (res, w')"
    "base = (case clNSs (V w) (nsName ns) of None \<Rightarrow> ns | Some old \<Rightarrow> old)"
  obtains (failed) e where "res = Inl e" "V w' = V w"
  | (written) ns1 ns' where "f base = Inr ns1" "same_ns ns1 ns'"
      "V w' = (V w)\<lparr>clNSs := (clNSs (V w))(nsName ns \<mapsto> ns')\<rparr>"
  using assms(2,3) kube_lawsD(9) [OF assms(1)] unfolding createsOrUpdates_def by blast

lemma patchNS_effect:
  assumes "kube_laws K V" "patchNS K old ns w = (r, w')" "clNSs (V w) (nsName ns) = Some old"
  obtains (failed) "r \<noteq> None" "V w' = V w"
  | (written) ns' where "same_ns ns ns'" "V w' = (V w)\<lparr>clNSs := (clNSs (V w))(nsName ns \<mapsto> ns')\<rparr>"
  using assms(2,3) kube_lawsD(10) [OF assms(1)] unfolding patches_def by blast

lemma patchDeploy_effect:
  assumes "kube_laws K V" "patchDeploy K old d w = (r, w')" "clDeploys (V w) (depKey d) = Some old"
  obtains (failed) "r \<noteq> None" "V w' = V w"
  | (written) d' where "same_dep d d'" "V w' = (V w)\<lparr>clDeploys := (clDeploys (V w))(depKey d \<mapsto> d')\<rparr>"
  using assms(2,3) kube_lawsD(10) [OF assms(1)] unfolding patches_def by blast

lemma deleteDeploy_effect:
  assumes "kube_laws K V" "deleteDeploy K d w = (r, w')"
  obtains (failed) e where "r = Some e" "V w' = V w" "isNotFound e \<Longrightarrow> clDeploys (V w) (depKey d) = None"
  | (deleted) "V w' = (V w)\<lparr>clDeploys := (clDeploys (V w))(depKey d := None)\<rparr>"
  using assms(2) kube_lawsD(11) [OF assms(1)] unfolding removes_def by blast

lemma deleteCRB_effect:
  assumes "kube_laws K V" "deleteCRB K x w = (r, w')"
  obtains (failed) e where "r = Some e" "V w' = V w" "isNotFound e \<Longrightarrow> rbacName x \<notin> rbacName ` set (clCRBs (V w))"
  | (deleted) "V w' = (V w)\<lparr>clCRBs := filter (\<lambda>y. rbacName y \<noteq> rbacName x) (clCRBs (V w))\<rparr>"
  using assms(2) kube_lawsD(11) [OF assms(1)] unfolding removes_def by blast

lemma deleteCR_effect:
  assumes "kube_laws K V" "deleteCR K x w = (r, w')"
  obtains (failed) e where "r = Some e" "V w' = V w" "isNotFound e \<Longrightarrow> rbacName x \<notin> rbacName ` set (clCRs (V w))"
  | (deleted) "V w' = (V w)\<lparr>clCRs := filter (\<lambda>y. rbacName y \<noteq> rbacName x) (clCRs (V w))\<rparr>"
  using assms(2) kube_lawsD(11) [OF assms(1)] unfolding removes_def by blast

lemma same_cm_refl [simp, intro]: "same_cm a a"
  by (simp add: same_cm_def)

lemma same_cm_fields:
  "same_cm a b \<Longrightarrow> cmKey b = cmKey a"
  "same_cm a b \<Longrightarrow> cmFinalizers b = cmFinalizers a"
  "same_cm a b \<Longrightarrow> cmDeletionTimestamp b = cmDeletionTimestamp a"
  "same_cm a b \<Longrightarrow> gm_get (cmData b) k = gm_get (cmData a) k"
  "same_cm a b \<Longrightarrow> gm_get (cmAnnotations b) k = gm_get (cmAnnotations a) k"
  "same_cm a b \<Longrightarrow> gm_get (cmLabels b) k = gm_get (cmLabels a) k"
  "same_cm a b \<Longrightarrow> gm_make (cmData b) = gm_make (cmData a)"
  by (auto simp: same_cm_def gm_eq_def intro: gm_eq_get [unfolded gm_eq_def])

end
