(* ===== verification/ModuleCore.thy ===== *)
theory ModuleCore
  imports Config Kube
begin

text \<open>
  \<^verbatim>\<open>internal/controller/feastoperator/feastoperator.go\<close>: the process-lifetime state of the
  controller, the request a handler works on, the choice of the manifests overlay and the first
  action of the pipeline. The names of the RHOAI platforms come from the ODH library and are an
  argument; so are the \<open>params.env\<close> helpers, fields of the client record.
\<close>

definition componentName :: string where
  "componentName = feastOperatorComponentName"

definition overlayODH :: string where
  "overlayODH = ''overlays/odh''"

definition overlayRhoai :: string where
  "overlayRhoai = ''overlays/rhoai''"

definition imageParamMap :: "(string \<times> string) list" where
  "imageParamMap =
     [(''RELATED_IMAGE_FEAST_OPERATOR'', ''RELATED_IMAGE_ODH_FEAST_OPERATOR_IMAGE''),
      (''RELATED_IMAGE_FEATURE_SERVER'', ''RELATED_IMAGE_ODH_FEATURE_SERVER_IMAGE''),
      (''RELATED_IMAGE_ODH_KUBE_RBAC_PROXY_IMAGE'', ''RELATED_IMAGE_ODH_KUBE_RBAC_PROXY_IMAGE'')]"

section \<open>State\<close>

text \<open>The event recorder is an interface value; nil (\<open>None\<close>) skips the emission.\<close>

record 'w module =
  mCfg :: config
  mManifestInfo :: manifest_info
  mRecorder :: "(event \<Rightarrow> 'w \<Rightarrow> 'w) option"

text \<open>The instance of a request is an interface value that the handlers cast.\<close>

datatype instance_obj = FeastInst feast_operator | OtherInst

record 'v request =
  rrInstance :: instance_obj
  rrManifests :: "manifest_info list"
  rrRelease :: "'v release"

section \<open>Operations\<close>

record platforms =
  selfManagedRhoai :: string
  managedRhoai :: string

definition overlayFor :: "platforms \<Rightarrow> string \<Rightarrow> string" where
  "overlayFor P platformType =
     (if platformType = selfManagedRhoai P then overlayRhoai
      else if platformType = managedRhoai P then overlayRhoai
      else overlayODH)"

definition newModule :: "'w kube \<Rightarrow> platforms \<Rightarrow> config \<Rightarrow> ('w, 'w module) call" where
  "newModule K P cfg w =
     (let mi = \<lparr>manifestPath = cfgManifestsPath cfg, manifestContextDir = componentName,
                manifestSourcePath = overlayFor P (cfgPlatformType cfg)\<rparr> in
      case applyParams K (manifestString K mi) ''params.env'' imageParamMap [] w of
        (Some e, w') \<Rightarrow> (Inl (Wrapped (''failed to update images on path '' @ manifestString K mi) e), w')
      | (None, w') \<Rightarrow> (Inr \<lparr>mCfg = cfg, mManifestInfo = mi, mRecorder = None\<rparr>, w'))"

text \<open>
  An action that only reads the request is a function of it into \<open>'w act\<close>; one that changes the
  request is an \<open>act\<close> on the pair of request and world.
\<close>

type_synonym ('w, 'v) action = "('v request \<times> 'w) act"

definition readsRequest :: "('v request \<Rightarrow> 'w act) \<Rightarrow> ('w, 'v) action" where
  "readsRequest h s = (case s of (rr, w) \<Rightarrow> (case h rr w of (r, w') \<Rightarrow> (r, (rr, w'))))"

definition initialize :: "'w module \<Rightarrow> ('w, 'v) action" where
  "initialize m s = (case s of (rr, w) \<Rightarrow> (None, (rr\<lparr>rrManifests := rrManifests rr @ [mManifestInfo m]\<rparr>, w)))"

section \<open>Lemmas\<close>

lemma newModule_ok:
  assumes "newModule K P cfg w = (Inr m, w')"
  shows "mCfg m = cfg" "mRecorder m = None"
    "manifestSourcePath (mManifestInfo m) = overlayFor P (cfgPlatformType cfg)"
    "manifestPath (mManifestInfo m) = cfgManifestsPath cfg"
  using assms by (auto simp: newModule_def Let_def split: prod.splits option.splits)

lemma overlayFor_cases:
  "overlayFor P t \<in> {overlayODH, overlayRhoai}"
  "overlayFor P t = overlayRhoai \<longleftrightarrow> t = selfManagedRhoai P \<or> t = managedRhoai P"
  by (auto simp: overlayFor_def overlayODH_def overlayRhoai_def)

lemma readsRequest_keeps [simp]: "fst (snd (readsRequest h (rr, w))) = rr"
  by (simp add: readsRequest_def split: prod.splits)

text \<open>The cast at the head of a handler.\<close>

definition asFeast :: "'v request \<Rightarrow> feast_operator option" where
  "asFeast rr = (case rrInstance rr of FeastInst f \<Rightarrow> Some f | OtherInst \<Rightarrow> None)"

lemma asFeast_simps [simp]:
  "asFeast (rr\<lparr>rrInstance := FeastInst f\<rparr>) = Some f"
  "asFeast (rr\<lparr>rrManifests := ms\<rparr>) = asFeast rr"
  by (simp_all add: asFeast_def)

end
