(* ===== verification/GoSha256.thy ===== *)
theory GoSha256
  imports GoStrings "HOL-Library.Word"
begin

unbundle bit_operations_syntax

text \<open>
  Go's packages \<^verbatim>\<open>crypto/sha256\<close> and \<^verbatim>\<open>encoding/hex\<close> as the capability hash uses them: SHA-256 of
  a byte string (FIPS 180-4, on words of 32 bits whose addition wraps) and its digest in lower
  case hexadecimal.
\<close>

type_synonym u32 = "32 word"

definition shaK :: "u32 list" where
  "shaK =
     [0x428A2F98, 0x71374491, 0xB5C0FBCF, 0xE9B5DBA5,
      0x3956C25B, 0x59F111F1, 0x923F82A4, 0xAB1C5ED5,
      0xD807AA98, 0x12835B01, 0x243185BE, 0x550C7DC3,
      0x72BE5D74, 0x80DEB1FE, 0x9BDC06A7, 0xC19BF174,
      0xE49B69C1, 0xEFBE4786, 0x0FC19DC6, 0x240CA1CC,
      0x2DE92C6F, 0x4A7484AA, 0x5CB0A9DC, 0x76F988DA,
      0x983E5152, 0xA831C66D, 0xB00327C8, 0xBF597FC7,
      0xC6E00BF3, 0xD5A79147, 0x06CA6351, 0x14292967,
      0x27B70A85, 0x2E1B2138, 0x4D2C6DFC, 0x53380D13,
      0x650A7354, 0x766A0ABB, 0x81C2C92E, 0x92722C85,
      0xA2BFE8A1, 0xA81A664B, 0xC24B8B70, 0xC76C51A3,
      0xD192E819, 0xD6990624, 0xF40E3585, 0x106AA070,
      0x19A4C116, 0x1E376C08, 0x2748774C, 0x34B0BCB5,
      0x391C0CB3, 0x4ED8AA4A, 0x5B9CCA4F, 0x682E6FF3,
      0x748F82EE, 0x78A5636F, 0x84C87814, 0x8CC70208,
      0x90BEFFFA, 0xA4506CEB, 0xBEF9A3F7, 0xC67178F2]"

definition shaH0 :: "u32 list" where
  "shaH0 =
     [0x6A09E667, 0xBB67AE85, 0x3C6EF372, 0xA54FF53A,
      0x510E527F, 0x9B05688C, 0x1F83D9AB, 0x5BE0CD19]"

definition bigSigma0 :: "u32 \<Rightarrow> u32" where
  "bigSigma0 x = word_rotr 2 x XOR word_rotr 13 x XOR word_rotr 22 x"

definition bigSigma1 :: "u32 \<Rightarrow> u32" where
  "bigSigma1 x = word_rotr 6 x XOR word_rotr 11 x XOR word_rotr 25 x"

definition smallSigma0 :: "u32 \<Rightarrow> u32" where
  "smallSigma0 x = word_rotr 7 x XOR word_rotr 18 x XOR drop_bit 3 x"

definition smallSigma1 :: "u32 \<Rightarrow> u32" where
  "smallSigma1 x = word_rotr 17 x XOR word_rotr 19 x XOR drop_bit 10 x"

definition choose32 :: "u32 \<Rightarrow> u32 \<Rightarrow> u32 \<Rightarrow> u32" where
  "choose32 x y z = (x AND y) XOR (NOT x AND z)"

definition majority32 :: "u32 \<Rightarrow> u32 \<Rightarrow> u32 \<Rightarrow> u32" where
  "majority32 x y z = (x AND y) XOR (x AND z) XOR (y AND z)"

text \<open>Padding to whole blocks of 64 bytes, with the length in bits at the end.\<close>

definition bigEndian64 :: "nat \<Rightarrow> nat list" where
  "bigEndian64 n = map (\<lambda>i. n div 256 ^ (7 - i) mod 256) [0..<8]"

definition shaPad :: "nat list \<Rightarrow> nat list" where
  "shaPad bs =
     bs @ [128] @ replicate ((119 - length bs mod 64) mod 64) 0 @ bigEndian64 (8 * length bs)"

fun wordsOf :: "nat list \<Rightarrow> u32 list" where
  "wordsOf (a # b # c # d # bs) =
     word_of_nat (((a * 256 + b) * 256 + c) * 256 + d) # wordsOf bs"
| "wordsOf _ = []"

fun schedule :: "nat \<Rightarrow> u32 list \<Rightarrow> u32 list" where
  "schedule 0 ws = ws"
| "schedule (Suc n) ws =
     (let t = length ws
      in schedule n (ws @ [smallSigma1 (ws ! (t - 2)) + ws ! (t - 7) + smallSigma0 (ws ! (t - 15)) + ws ! (t - 16)]))"

fun shaRound :: "u32 list \<Rightarrow> u32 \<times> u32 \<Rightarrow> u32 list" where
  "shaRound [a, b, c, d, e, f, g, h] (k, w) =
     (let t1 = h + bigSigma1 e + choose32 e f g + k + w; t2 = bigSigma0 a + majority32 a b c
      in [t1 + t2, a, b, c, d + t1, e, f, g])"
| "shaRound st _ = st"

definition shaBlock :: "u32 list \<Rightarrow> u32 list \<Rightarrow> u32 list" where
  "shaBlock st ws = map2 (+) st (foldl shaRound st (zip shaK (schedule 48 ws)))"

fun shaBlocks :: "nat \<Rightarrow> u32 list \<Rightarrow> u32 list \<Rightarrow> u32 list" where
  "shaBlocks 0 st ws = st"
| "shaBlocks (Suc n) st ws = shaBlocks n (shaBlock st (take 16 ws)) (drop 16 ws)"

definition bytesOf :: "u32 \<Rightarrow> nat list" where
  "bytesOf w = map (\<lambda>i. unat w div 256 ^ (3 - i) mod 256) [0..<4]"

definition sha256 :: "string \<Rightarrow> nat list" where
  "sha256 s =
     (let ws = wordsOf (shaPad (map of_char s))
      in concat (map bytesOf (shaBlocks (length ws div 16) shaH0 ws)))"

definition hexDigit :: "nat \<Rightarrow> char" where
  "hexDigit n = ''0123456789abcdef'' ! n"

text \<open>\<open>hex.EncodeToString\<close>\<close>

definition hexEncode :: "nat list \<Rightarrow> string" where
  "hexEncode bs = concat (map (\<lambda>b. [hexDigit (b div 16), hexDigit (b mod 16)]) bs)"

lemma length_shaRound [simp]: "length st = 8 \<Longrightarrow> length (shaRound st kw) = 8"
  by (cases "(st, kw)" rule: shaRound.cases) (auto simp: Let_def)

lemma length_shaRounds [simp]: "length st = 8 \<Longrightarrow> length (foldl shaRound st kws) = 8"
  by (induction kws arbitrary: st) simp_all

lemma length_shaBlocks [simp]: "length st = 8 \<Longrightarrow> length (shaBlocks n st ws) = 8"
  by (induction n arbitrary: st ws) (simp_all add: shaBlock_def)

lemma length_sha256 [simp]: "length (sha256 s) = 32"
proof -
  have "length (concat (map bytesOf ws)) = 4 * length ws" for ws
    by (induction ws) (simp_all add: bytesOf_def)
  then show ?thesis by (simp add: sha256_def Let_def shaH0_def)
qed

lemma sha256_bytes: "b \<in> set (sha256 s) \<Longrightarrow> b < 256"
  by (auto simp: sha256_def Let_def bytesOf_def)

lemma length_hexEncode [simp]: "length (hexEncode bs) = 2 * length bs"
  by (induction bs) (simp_all add: hexEncode_def)

lemma hexDigit_set: "n < 16 \<Longrightarrow> hexDigit n \<in> set ''0123456789abcdef''"
  unfolding hexDigit_def by (rule nth_mem) simp

lemma hexEncode_set: "(\<And>b. b \<in> set bs \<Longrightarrow> b < 256) \<Longrightarrow> set (hexEncode bs) \<subseteq> set ''0123456789abcdef''"
proof (induction bs)
  case Nil
  then show ?case by (simp add: hexEncode_def)
next
  case (Cons b bs)
  then have "b div 16 < 16" by (simp add: div_less_iff_less_mult)
  then have "hexDigit (b div 16) \<in> set ''0123456789abcdef''" "hexDigit (b mod 16) \<in> set ''0123456789abcdef''"
    by (simp_all only: hexDigit_set mod_less_divisor zero_less_numeral)
  moreover from Cons have "set (hexEncode bs) \<subseteq> set ''0123456789abcdef''" by simp
  ultimately show ?case
    by (simp only: hexEncode_def list.map concat.simps set_append set_simps Un_subset_iff insert_subset) simp
qed

end
