(* ===== verification/CapabilityData.thy ===== *)
theory CapabilityData
  imports ModuleCore GoSha256
begin

text \<open>
  The data of the capability hand-over in \<^verbatim>\<open>feastoperator_capabilities.go\<close>: the constants of the
  \<^verbatim>\<open>feast-capabilities-config\<close> ConfigMap, the resolution of the effective capabilities, and the
  hash of the ConfigMap data that the pod template carries.
\<close>

section \<open>Constants\<close>

definition capabilitiesConfigMapName :: string where
  "capabilitiesConfigMapName = ''feast-capabilities-config''"

definition capabilitiesKeyFeatureStoreEnabled :: string where
  "capabilitiesKeyFeatureStoreEnabled = ''featureStoreEnabled''"

definition capabilitiesKeyDataRegistryEnabled :: string where
  "capabilitiesKeyDataRegistryEnabled = ''dataRegistryEnabled''"

definition capabilitiesKeyDataRegistryNS :: string where
  "capabilitiesKeyDataRegistryNS = ''dataRegistryNamespace''"

definition capabilitiesHashAnnotation :: string where
  "capabilitiesHashAnnotation = ''feast.dev/capabilities-hash''"

definition capabilitiesConfigMapFinalizer :: string where
  "capabilitiesConfigMapFinalizer = ''components.platform.opendatahub.io/feast-capabilities''"

definition feastOperatorCapabilitiesFinalizer :: string where
  "feastOperatorCapabilitiesFinalizer = ''feast.dev/capabilities-config-cleanup''"

definition feastOperatorReleaseTimeout :: int where
  "feastOperatorReleaseTimeout = 5 * minute"

definition capabilitiesCleanupStartedAnnotation :: string where
  "capabilitiesCleanupStartedAnnotation = ''components.platform.opendatahub.io/capabilities-cleanup-started-at''"

definition capabilitiesCleanupTimeoutReason :: string where
  "capabilitiesCleanupTimeoutReason = ''CapabilitiesCleanupTimeout''"

definition dataRegistryNamespaceName :: string where
  "dataRegistryNamespaceName = ''rhoai-data-registry''"

definition dataRegistryEnabledLabelKey :: string where
  "dataRegistryEnabledLabelKey = ''dataregistry.opendatahub.io/enabled''"

definition dataRegistryEnabledLabelValue :: string where
  "dataRegistryEnabledLabelValue = ''true''"

definition deploymentName :: string where
  "deploymentName = ''feast-operator-controller-manager''"

lemma capability_keys_distinct [simp]:
  "capabilitiesKeyFeatureStoreEnabled \<noteq> capabilitiesKeyDataRegistryEnabled"
  "capabilitiesKeyDataRegistryEnabled \<noteq> capabilitiesKeyFeatureStoreEnabled"
  "capabilitiesKeyFeatureStoreEnabled \<noteq> capabilitiesKeyDataRegistryNS"
  "capabilitiesKeyDataRegistryNS \<noteq> capabilitiesKeyFeatureStoreEnabled"
  "capabilitiesKeyDataRegistryEnabled \<noteq> capabilitiesKeyDataRegistryNS"
  "capabilitiesKeyDataRegistryNS \<noteq> capabilitiesKeyDataRegistryEnabled"
  by (simp_all add: capabilitiesKeyFeatureStoreEnabled_def capabilitiesKeyDataRegistryEnabled_def
      capabilitiesKeyDataRegistryNS_def)

lemma finalizers_distinct [simp]:
  "capabilitiesConfigMapFinalizer \<noteq> feastOperatorCapabilitiesFinalizer"
  "feastOperatorCapabilitiesFinalizer \<noteq> capabilitiesConfigMapFinalizer"
  by (simp_all add: capabilitiesConfigMapFinalizer_def feastOperatorCapabilitiesFinalizer_def)

section \<open>Effective capabilities\<close>

definition boolString :: "bool \<Rightarrow> string" where
  "boolString value = formatBool value"

definition resolveCapabilities :: "'w module \<Rightarrow> feast_operator \<Rightarrow> bool \<times> bool" where
  "resolveCapabilities m feast =
     (case specCapabilities (spec feast) of
        Some c \<Rightarrow> (managementState (featureStore c) = capabilityManaged,
                  managementState (dataRegistry c) = capabilityManaged)
      | None \<Rightarrow> (cfgFeatureStoreEnabled (mCfg m), cfgDataRegistryEnabled (mCfg m)))"

text \<open>The spec is authoritative: with a capability block the configuration is not looked at.\<close>

lemma resolveCapabilities_spec:
  "specCapabilities (spec feast) = Some c \<Longrightarrow> resolveCapabilities m feast = resolveCapabilities m' feast"
  by (simp add: resolveCapabilities_def)

section \<open>The data hash\<close>

text \<open>
  The keys are collected by ranging over the map, in an order Go does not fix: it is the argument
  \<open>order\<close>. The bytes written to the hash are the sorted \<open>key=value\<close> lines.
\<close>

definition hashInput :: "string list \<Rightarrow> gomap \<Rightarrow> string" where
  "hashInput keys data = concat (map (\<lambda>k. k @ ''='' @ gm_get data k @ [nl]) keys)"

definition capabilitiesDataHash :: "string list \<Rightarrow> gomap \<Rightarrow> string" where
  "capabilitiesDataHash order data = take 16 (hexEncode (sha256 (hashInput (sort order) data)))"

text \<open>What an iteration over a map may be, and one such iteration.\<close>

definition isRange :: "string list \<Rightarrow> gomap \<Rightarrow> bool" where
  "isRange order data \<longleftrightarrow> distinct order \<and> set order = {k. gm_lookup data k \<noteq> None}"

definition rangeKeys :: "gomap \<Rightarrow> string list" where
  "rangeKeys data = sorted_list_of_fset (fmdom (gm_make data))"

lemma rangeKeys_isRange [simp, intro]: "isRange (rangeKeys data) data"
  by (auto simp: isRange_def rangeKeys_def gm_lookup_make sorted_list_of_fset.rep_eq fmlookup_dom_iff)

lemma isRange_sort:
  assumes "isRange order data"
  shows "sort order = rangeKeys data"
proof -
  have "set order = set (rangeKeys data)" "distinct order"
    using assms rangeKeys_isRange [of data] by (auto simp: isRange_def)
  moreover have "sorted (rangeKeys data)" "distinct (rangeKeys data)"
    by (simp_all add: rangeKeys_def sorted_list_of_fset.rep_eq)
  ultimately show ?thesis
    by (metis sorted_distinct_set_unique sorted_sort distinct_sort set_sort)
qed

lemma hash_range: "isRange order data \<Longrightarrow> capabilitiesDataHash order data = capabilitiesDataHash (rangeKeys data) data"
  by (simp add: capabilitiesDataHash_def isRange_sort [OF rangeKeys_isRange] isRange_sort)

lemma rangeKeys_eq: "gm_eq a b \<Longrightarrow> rangeKeys a = rangeKeys b"
  by (simp add: gm_eq_def rangeKeys_def)

lemma hashInput_eq: "gm_eq a b \<Longrightarrow> hashInput ks a = hashInput ks b"
  by (simp add: hashInput_def gm_eq_get)

lemma length_capabilitiesDataHash: "length (capabilitiesDataHash order data) = 16"
  by (simp add: capabilitiesDataHash_def)

lemma capabilitiesDataHash_nonempty [simp]: "capabilitiesDataHash order data \<noteq> []"
  using length_capabilitiesDataHash [of order data] by auto

section \<open>The hashed bytes determine clean data\<close>

text \<open>No \<open>=\<close> or line feed in a key, no line feed in a value: so are all data the controller writes.\<close>

definition cleanData :: "gomap \<Rightarrow> bool" where
  "cleanData data =
     list_all (\<lambda>k. CHR ''='' \<notin> set k \<and> nl \<notin> set k \<and> nl \<notin> set (gm_get data k)) (rangeKeys data)"

lemma rangeKeys_iff: "k \<in> set (rangeKeys data) \<longleftrightarrow> gm_lookup data k \<noteq> None"
  using rangeKeys_isRange [of data] by (simp add: isRange_def)

lemma hashInput_inject:
  assumes "\<And>k. k \<in> set ks \<Longrightarrow> CHR ''='' \<notin> set k \<and> nl \<notin> set k \<and> nl \<notin> set (gm_get a k)"
    and "\<And>k. k \<in> set ks' \<Longrightarrow> CHR ''='' \<notin> set k \<and> nl \<notin> set k \<and> nl \<notin> set (gm_get b k)"
    and "hashInput ks a = hashInput ks' b"
  shows "ks = ks' \<and> (\<forall>k \<in> set ks. gm_get a k = gm_get b k)"
  using assms
proof (induction ks arbitrary: ks')
  case Nil
  then show ?case by (cases ks') (auto simp: hashInput_def)
next
  case (Cons k ks)
  from Cons.prems(3) obtain k' ls where ks': "ks' = k' # ls"
    by (cases ks') (auto simp: hashInput_def)
  let ?line = "k @ ''='' @ gm_get a k" and ?line' = "k' @ ''='' @ gm_get b k'"
  have lines: "nl \<notin> set ?line" "nl \<notin> set ?line'"
    using Cons.prems(1) [of k] Cons.prems(2) [of k'] ks' by auto
  have "?line @ nl # hashInput ks a = ?line' @ nl # hashInput ls b"
    using Cons.prems(3) by (simp add: ks' hashInput_def)
  then have "?line = ?line'" "hashInput ks a = hashInput ls b"
    using append_sep_inject [OF lines] by blast+
  moreover have "CHR ''='' \<notin> set k" "CHR ''='' \<notin> set k'"
    using Cons.prems(1) [of k] Cons.prems(2) [of k'] ks' by auto
  ultimately have "k = k' \<and> gm_get a k = gm_get b k'"
    using append_sep_inject [of "CHR ''=''" k k'] by simp
  moreover have "ks = ls \<and> (\<forall>k \<in> set ks. gm_get a k = gm_get b k)"
    by (rule Cons.IH [OF _ _ \<open>hashInput ks a = hashInput ls b\<close>]) (simp_all add: Cons.prems(1,2) ks')
  ultimately show ?case using ks' by auto
qed

lemma hashInput_determines:
  assumes "cleanData a" "cleanData b" "hashInput (rangeKeys a) a = hashInput (rangeKeys b) b"
  shows "gm_eq a b"
proof -
  have keys: "rangeKeys a = rangeKeys b" and vals: "k \<in> set (rangeKeys a) \<Longrightarrow> gm_get a k = gm_get b k" for k
    using hashInput_inject [OF _ _ assms(3)] assms(1,2) by (auto simp: cleanData_def list_all_iff)
  have "gm_lookup a k = gm_lookup b k" for k
  proof (cases "k \<in> set (rangeKeys a)")
    case True
    then obtain u v where "gm_lookup a k = Some u" "gm_lookup b k = Some v"
      using keys rangeKeys_iff [of k a] rangeKeys_iff [of k b] by auto
    with vals [OF True] show ?thesis by (simp add: gm_get_lookup)
  next
    case False
    then show ?thesis using keys rangeKeys_iff [of k a] rangeKeys_iff [of k b] by simp
  qed
  then show ?thesis by (simp add: gm_eq_lookup)
qed

end
