(* ===== verification/Capabilities.thy ===== *)
theory Capabilities
  imports CapabilityData
begin

text \<open>
  The handlers of \<^verbatim>\<open>feastoperator_capabilities.go\<close>: the reconciliation of the capabilities
  ConfigMap, the rollout of the feast operator when its data change, and the steps of the
  finalizer hand-over. \<open>now\<close> is the clock reading of the call.
\<close>

section \<open>Reading the ConfigMap\<close>

definition capabilitiesKey :: "'w module \<Rightarrow> objkey" where
  "capabilitiesKey m = \<lparr>keyName = capabilitiesConfigMapName, keyNamespace = cfgApplicationsNamespace (mCfg m)\<rparr>"

definition deploymentKey :: "'w module \<Rightarrow> objkey" where
  "deploymentKey m = \<lparr>keyName = deploymentName, keyNamespace = cfgApplicationsNamespace (mCfg m)\<rparr>"

definition getCapabilitiesConfigMap :: "'w kube \<Rightarrow> 'w module \<Rightarrow> ('w, config_map option) call" where
  "getCapabilitiesConfigMap K m w =
     (case getCM K (capabilitiesKey m) w of
        (Inr cm, w') \<Rightarrow> (Inr (Some cm), w')
      | (Inl e, w') \<Rightarrow>
          if isNotFound e then (Inr None, w')
          else (Inl (Wrapped (''failed to get capabilities ConfigMap '' @ capabilitiesConfigMapName) e), w'))"

text \<open>The callers' \<open>if err != nil || cm == nil { return err }\<close>.\<close>

definition withCapabilities :: "'w kube \<Rightarrow> 'w module \<Rightarrow> (config_map \<Rightarrow> 'w act) \<Rightarrow> 'w act" where
  "withCapabilities K m h w =
     (case getCapabilitiesConfigMap K m w of
        (Inl e, w') \<Rightarrow> (Some e, w')
      | (Inr None, w') \<Rightarrow> (None, w')
      | (Inr (Some cm), w') \<Rightarrow> h cm w')"

section \<open>Reconciliation\<close>

text \<open>The map literal of the ConfigMap data.\<close>

definition capabilitiesData :: "bool \<Rightarrow> bool \<Rightarrow> (string, string) fmap" where
  "capabilitiesData fsEnabled drEnabled =
     (let data = fmupd capabilitiesKeyDataRegistryEnabled (boolString drEnabled)
                   (fmupd capabilitiesKeyFeatureStoreEnabled (boolString fsEnabled) fmempty) in
      if drEnabled then fmupd capabilitiesKeyDataRegistryNS dataRegistryNamespaceName data else data)"

text \<open>The callback of \<open>CreateOrUpdate\<close>.\<close>

definition mutateCapabilities :: "'w kube \<Rightarrow> feast_operator \<Rightarrow> bool \<Rightarrow> bool \<Rightarrow> config_map \<Rightarrow> goerr + config_map" where
  "mutateCapabilities K feast fsEnabled drEnabled cm =
     (if cmDeletionTimestamp cm \<noteq> None
      then Inr (removeFinalizer K capabilitiesConfigMapFinalizer cm)
      else
        let cm1 = cm\<lparr>cmLabels :=
                    Some (fmupd (componentLabel K componentName) (labelTrue K) (gm_make (cmLabels cm)))\<rparr>;
            cm2 = addFinalizer K capabilitiesConfigMapFinalizer cm1;
            cm3 = cm2\<lparr>cmData := Some (capabilitiesData fsEnabled drEnabled)\<rparr>
        in setControllerReference K feast cm3)"

definition reconcileCapabilitiesConfigMap :: "'w kube \<Rightarrow> 'w module \<Rightarrow> 'v request \<Rightarrow> 'w act" where
  "reconcileCapabilitiesConfigMap K m rr w =
     (case rrInstance rr of
        OtherInst \<Rightarrow> (Some (Msg ''instance is not a FeastOperator''), w)
      | FeastInst feast \<Rightarrow>
          (case resolveCapabilities m feast of (fsEnabled, drEnabled) \<Rightarrow>
           let cm = newConfigMap capabilitiesConfigMapName (cfgApplicationsNamespace (mCfg m)) in
           case createOrUpdateCM K cm (mutateCapabilities K feast fsEnabled drEnabled) w of
             (Inl e, w') \<Rightarrow> (Some (Wrapped ''failed to reconcile capabilities ConfigMap'' e), w')
           | (Inr _, w') \<Rightarrow> (None, w')))"

section \<open>Rollout\<close>

definition triggerCapabilityRolloutIfNeeded :: "'w kube \<Rightarrow> 'w module \<Rightarrow> 'w act" where
  "triggerCapabilityRolloutIfNeeded K m w =
     (case getCM K (capabilitiesKey m) w of
        (Inl e, w1) \<Rightarrow>
          if isNotFound e then (None, w1) else (Some (Wrapped ''failed to get capabilities ConfigMap'' e), w1)
      | (Inr cm, w1) \<Rightarrow>
          let hash = capabilitiesDataHash (rangeKeys (cmData cm)) (cmData cm) in
          (case getDeploy K (deploymentKey m) w1 of
             (Inl e, w2) \<Rightarrow>
               if isNotFound e then (None, w2)
               else (Some (Wrapped (''failed to get Deployment '' @ deploymentName @
                                    '' for capability rollout check'') e), w2)
           | (Inr d, w2) \<Rightarrow>
               if gm_get (depTemplateAnnotations d) capabilitiesHashAnnotation = hash then (None, w2)
               else
                 let d' = d\<lparr>depTemplateAnnotations :=
                            Some (fmupd capabilitiesHashAnnotation hash (gm_make (depTemplateAnnotations d)))\<rparr>
                 in wrapErr (''failed to patch Deployment '' @ deploymentName @ '' with capabilities hash'')
                      (patchDeploy K d d') w2))"

section \<open>The hand-over steps of the finalizer\<close>

text \<open>Both flags are off, and the ConfigMap with the intent written into it.\<close>

definition flagsDisabled :: "config_map \<Rightarrow> bool" where
  "flagsDisabled cm \<longleftrightarrow>
     gm_get (cmData cm) capabilitiesKeyFeatureStoreEnabled = boolString False \<and>
     gm_get (cmData cm) capabilitiesKeyDataRegistryEnabled = boolString False"

definition startedAt :: "config_map \<Rightarrow> string" where
  "startedAt cm = gm_get (cmAnnotations cm) capabilitiesCleanupStartedAnnotation"

definition teardownIntent :: "time \<Rightarrow> config_map \<Rightarrow> config_map" where
  "teardownIntent now cm =
     (let data = fmupd capabilitiesKeyDataRegistryEnabled (boolString False)
                   (fmupd capabilitiesKeyFeatureStoreEnabled (boolString False) (gm_make (cmData cm)));
          ann = (if startedAt cm = []
                 then fmupd capabilitiesCleanupStartedAnnotation (formatRFC3339 now) (gm_make (cmAnnotations cm))
                 else gm_make (cmAnnotations cm))
      in cm\<lparr>cmData := Some data, cmAnnotations := Some ann\<rparr>)"

definition markCapabilitiesDisabled :: "'w kube \<Rightarrow> 'w module \<Rightarrow> time \<Rightarrow> 'w act" where
  "markCapabilitiesDisabled K m now =
     withCapabilities K m (\<lambda>cm w.
       if flagsDisabled cm \<and> startedAt cm \<noteq> [] then (None, w)
       else wrapErr (''failed to write teardown intent into capabilities ConfigMap '' @ capabilitiesConfigMapName)
              (updateCM K (teardownIntent now cm)) w)"

definition deleteCapabilitiesConfigMap :: "'w kube \<Rightarrow> 'w module \<Rightarrow> 'w act" where
  "deleteCapabilitiesConfigMap K m =
     withCapabilities K m (\<lambda>cm w.
       if cmDeletionTimestamp cm \<noteq> None then (None, w)
       else
         (case deleteCM K cm w of (r, w') \<Rightarrow>
            case ignoreNotFound r of
              None \<Rightarrow> (None, w')
            | Some _ \<Rightarrow> (map_option (Wrapped (''failed to delete capabilities ConfigMap '' @ capabilitiesConfigMapName)) r, w')))"

definition cleanupTimeoutEvent :: "'w module \<Rightarrow> string \<Rightarrow> event" where
  "cleanupTimeoutEvent m heldSince =
     \<lparr>eventType = ''Warning'', eventReason = capabilitiesCleanupTimeoutReason, eventAction = ''Uninstall'',
      eventNote = ''Timed out waiting for finalizer '' @ feastOperatorCapabilitiesFinalizer @ '' on ConfigMap '' @
        cfgApplicationsNamespace (mCfg m) @ ''/'' @ capabilitiesConfigMapName @ '' (held since '' @ heldSince @
        ''); uninstall continuing. For manual cleanup, remove only this finalizer and preserve any others.''\<rparr>"

definition waitForFeastOperatorRelease :: "'w kube \<Rightarrow> 'w module \<Rightarrow> time \<Rightarrow> 'w act" where
  "waitForFeastOperatorRelease K m now =
     withCapabilities K m (\<lambda>cm w.
       if \<not> containsFinalizer K feastOperatorCapabilitiesFinalizer cm then (None, w)
       else if cmDeletionTimestamp cm = None
       then (Some (Msg (''capabilities ConfigMap '' @ capabilitiesConfigMapName @ '' is not terminating yet'')), w)
       else
         (case parseRFC3339 (startedAt cm) of
            None \<Rightarrow>
              (Some (Msg (''capabilities ConfigMap '' @ capabilitiesConfigMapName @
                          '' cleanup start time is missing or invalid'')), w)
          | Some started \<Rightarrow>
              let heldSince = formatRFC3339 started in
              if since now started < feastOperatorReleaseTimeout
              then (Some (Msg (''waiting for feast operator to release capabilities ConfigMap '' @
                               capabilitiesConfigMapName @ '' (finalizer '' @ feastOperatorCapabilitiesFinalizer @
                               '' held since '' @ heldSince @ '')'')), w)
              else
                (case mRecorder m of
                   None \<Rightarrow> (None, w)
                 | Some record_event \<Rightarrow> (None, record_event (cleanupTimeoutEvent m heldSince) w))))"

definition releaseCapabilitiesConfigMap :: "'w kube \<Rightarrow> 'w module \<Rightarrow> 'w act" where
  "releaseCapabilitiesConfigMap K m =
     withCapabilities K m (\<lambda>cm w.
       if \<not> containsFinalizer K capabilitiesConfigMapFinalizer cm then (None, w)
       else wrapErr (''failed to remove finalizer from capabilities ConfigMap '' @ capabilitiesConfigMapName)
              (updateCM K (removeFinalizer K capabilitiesConfigMapFinalizer cm)) w)"

end
