(* ===== verification/NamespaceRec.thy ===== *)
theory NamespaceRec
  imports Capabilities
begin

text \<open>
  \<^verbatim>\<open>feastoperator_namespace.go\<close>: provisioning of the Data Registry namespace and of the label
  that advertises an enabled registry, and the removal of the label.
\<close>

definition removeDataRegistryLabel :: "'w kube \<Rightarrow> 'w act" where
  "removeDataRegistryLabel K w =
     (case getNS K dataRegistryNamespaceName w of
        (Inl e, w') \<Rightarrow>
          if isNotFound e then (None, w')
          else (Some (Wrapped (''failed to get Data Registry namespace '' @ dataRegistryNamespaceName) e), w')
      | (Inr ns, w') \<Rightarrow>
          if gm_get (nsLabels ns) dataRegistryEnabledLabelKey \<noteq> dataRegistryEnabledLabelValue then (None, w')
          else wrapErr (''failed to remove enabled label from Data Registry namespace '' @ dataRegistryNamespaceName)
                 (patchNS K ns (ns\<lparr>nsLabels := gm_delete dataRegistryEnabledLabelKey (nsLabels ns)\<rparr>)) w')"

text \<open>The callback of \<open>CreateOrUpdate\<close>.\<close>

definition labelNamespace :: "knamespace \<Rightarrow> goerr + knamespace" where
  "labelNamespace ns =
     Inr (ns\<lparr>nsLabels :=
            Some (fmupd dataRegistryEnabledLabelKey dataRegistryEnabledLabelValue (gm_make (nsLabels ns)))\<rparr>)"

definition reconcileDataRegistryNamespace :: "'w kube \<Rightarrow> 'w module \<Rightarrow> 'v request \<Rightarrow> 'w act" where
  "reconcileDataRegistryNamespace K m rr w =
     (case rrInstance rr of
        OtherInst \<Rightarrow> (Some (Msg ''instance is not a FeastOperator''), w)
      | FeastInst feast \<Rightarrow>
          if \<not> snd (resolveCapabilities m feast) then removeDataRegistryLabel K w
          else
            (case createOrUpdateNS K (newNamespace dataRegistryNamespaceName) labelNamespace w of
               (Inl e, w') \<Rightarrow>
                 (Some (Wrapped (''failed to reconcile Data Registry namespace '' @ dataRegistryNamespaceName) e), w')
             | (Inr _, w') \<Rightarrow> (None, w')))"

section \<open>What the label says\<close>

text \<open>Whether the stored namespace advertises an enabled registry.\<close>

definition registryAdvertised :: "cluster \<Rightarrow> bool" where
  "registryAdvertised c =
     (case clNSs c dataRegistryNamespaceName of
        None \<Rightarrow> False
      | Some ns \<Rightarrow> gm_get (nsLabels ns) dataRegistryEnabledLabelKey = dataRegistryEnabledLabelValue)"

text \<open>A namespace, whether it was and is there, keeps all other labels.\<close>

definition keepsOtherLabels :: "cluster \<Rightarrow> cluster \<Rightarrow> bool" where
  "keepsOtherLabels a b \<longleftrightarrow>
     (\<forall>ns. clNSs a dataRegistryNamespaceName = Some ns \<longrightarrow>
        (\<exists>ns'. clNSs b dataRegistryNamespaceName = Some ns' \<and>
           (\<forall>k. k \<noteq> dataRegistryEnabledLabelKey \<longrightarrow> gm_lookup (nsLabels ns') k = gm_lookup (nsLabels ns) k)))"

lemma keepsOtherLabels_refl [simp, intro]: "keepsOtherLabels a a"
  by (auto simp: keepsOtherLabels_def)

lemma same_ns_lookup: "same_ns a b \<Longrightarrow> gm_lookup (nsLabels b) k = gm_lookup (nsLabels a) k"
  by (simp add: same_ns_def gm_eq_lookup)

text \<open>The whole effect of the removal, in one case analysis.\<close>

lemma removeDataRegistryLabel_effect:
  assumes "kube_laws K V" "removeDataRegistryLabel K w = (r, w')"
  obtains (same) "V w' = V w" "r = None \<Longrightarrow> \<not> registryAdvertised (V w)"
  | (removed) ns ns' where "clNSs (V w) dataRegistryNamespaceName = Some ns"
      "\<And>k. gm_lookup (nsLabels ns') k = (if k = dataRegistryEnabledLabelKey then None else gm_lookup (nsLabels ns) k)"
      "V w' = (V w)\<lparr>clNSs := (clNSs (V w))(dataRegistryNamespaceName \<mapsto> ns')\<rparr>"
proof (cases "getNS K dataRegistryNamespaceName w")
  case (Pair g w1)
  note read = getNS_reads [OF assms(1) Pair]
  show thesis
  proof (cases g)
    case (Inl e)
    with assms(2) Pair read show thesis
      by (intro same) (auto simp: removeDataRegistryLabel_def registryAdvertised_def split: if_splits)
  next
    case (Inr ns)
    with read(2) have ns: "clNSs (V w) dataRegistryNamespaceName = Some ns" "nsName ns = dataRegistryNamespaceName"
      by auto
    let ?ns = "ns\<lparr>nsLabels := gm_delete dataRegistryEnabledLabelKey (nsLabels ns)\<rparr>"
    show thesis
    proof (cases "gm_get (nsLabels ns) dataRegistryEnabledLabelKey = dataRegistryEnabledLabelValue")
      case False
      with assms(2) Pair Inr ns read(1) show thesis
        by (intro same) (auto simp: removeDataRegistryLabel_def registryAdvertised_def)
    next
      case True
      with assms(2) Pair Inr obtain r1 where patch: "patchNS K ns ?ns w1 = (r1, w')" "r = None \<longleftrightarrow> r1 = None"
        by (auto simp: removeDataRegistryLabel_def wrapErr_def split: prod.splits option.splits)
      have "clNSs (V w1) (nsName ?ns) = Some ns" using ns read(1) by simp
      from assms(1) patch(1) this show thesis
      proof (cases rule: patchNS_effect)
        case failed
        with same patch(2) read(1) show thesis by simp
      next
        case (written ns')
        with removed [OF ns(1), of ns'] ns(2) read(1) show thesis by (simp add: same_ns_lookup)
      qed
    qed
  qed
qed

lemma reconcileDataRegistryNamespace_disabled:
  "rrInstance rr = FeastInst feast \<Longrightarrow> \<not> snd (resolveCapabilities m feast) \<Longrightarrow>
     reconcileDataRegistryNamespace K m rr = removeDataRegistryLabel K"
  by (rule ext) (simp add: reconcileDataRegistryNamespace_def)

lemma reconcileDataRegistryNamespace_enabled:
  assumes "kube_laws K V" "rrInstance rr = FeastInst feast" "snd (resolveCapabilities m feast)"
    "reconcileDataRegistryNamespace K m rr w = (r, w')"
  obtains (failed) "r \<noteq> None" "V w' = V w"
  | (written) ns' where "V w' = (V w)\<lparr>clNSs := (clNSs (V w))(dataRegistryNamespaceName \<mapsto> ns')\<rparr>"
      "gm_lookup (nsLabels ns') dataRegistryEnabledLabelKey = Some dataRegistryEnabledLabelValue"
      "\<And>ns k. clNSs (V w) dataRegistryNamespaceName = Some ns \<Longrightarrow> k \<noteq> dataRegistryEnabledLabelKey \<Longrightarrow>
         gm_lookup (nsLabels ns') k = gm_lookup (nsLabels ns) k"
proof -
  let ?ns = "newNamespace dataRegistryNamespaceName"
  obtain res where res: "createOrUpdateNS K ?ns labelNamespace w = (res, w')" "r = None \<longleftrightarrow> \<not> isl res"
    using assms(2-4) by (auto simp: reconcileDataRegistryNamespace_def split: prod.splits sum.splits)
  have name: "nsName ?ns = dataRegistryNamespaceName" by (simp add: newNamespace_def)
  from assms(1) res(1) refl show thesis
  proof (cases rule: createOrUpdateNS_effect)
    case (failed e)
    with res(2) that(1) show thesis by simp
  next
    case (written ns1 ns')
    then show thesis
      by (intro that(2) [of ns']) (auto simp: name labelNamespace_def same_ns_lookup gm_lookup_make [symmetric])
  qed
qed

end
