(* ===== verification/FinalizerStep.thy ===== *)
theory FinalizerStep
  imports NamespaceRec
begin

text \<open>
  The contract that every step of the finalizer keeps, whatever its outcome: it stays within the
  module's own objects, and it never takes the capabilities ConfigMap away from a feast operator
  that holds it. The contract is a locale over the steps; a sequence of steps keeps it again.
\<close>

section \<open>The contract\<close>

text \<open>Nothing but the capabilities ConfigMap, the Data Registry namespace and the deployment changes.\<close>

definition scope :: "'w module \<Rightarrow> cluster \<Rightarrow> cluster \<Rightarrow> bool" where
  "scope m a b \<longleftrightarrow>
     clCRBs b = clCRBs a \<and> clCRs b = clCRs a \<and>
     (\<forall>k. k \<noteq> capabilitiesKey m \<longrightarrow> clCMs b k = clCMs a k) \<and>
     (\<forall>n. n \<noteq> dataRegistryNamespaceName \<longrightarrow> clNSs b n = clNSs a n) \<and>
     (\<forall>k. k \<noteq> deploymentKey m \<longrightarrow> clDeploys b k = clDeploys a k)"

definition heldByFeast :: "config_map \<Rightarrow> bool" where
  "heldByFeast cm \<longleftrightarrow> feastOperatorCapabilitiesFinalizer \<in> set (cmFinalizers cm)"

text \<open>
  A ConfigMap that the feast operator holds stays, held; a deletion timestamp and a recorded start
  of the cleanup do not change.
\<close>

definition custody :: "config_map option \<Rightarrow> config_map option \<Rightarrow> bool" where
  "custody a b \<longleftrightarrow>
     (\<forall>cm. a = Some cm \<and> heldByFeast cm \<longrightarrow>
        (\<exists>cm'. b = Some cm' \<and> heldByFeast cm' \<and>
           (cmDeletionTimestamp cm \<noteq> None \<longrightarrow> cmDeletionTimestamp cm' = cmDeletionTimestamp cm) \<and>
           (startedAt cm \<noteq> [] \<longrightarrow> startedAt cm' = startedAt cm)))"

definition handover :: "'w module \<Rightarrow> cluster \<Rightarrow> cluster \<Rightarrow> bool" where
  "handover m a b \<longleftrightarrow> scope m a b \<and> custody (clCMs a (capabilitiesKey m)) (clCMs b (capabilitiesKey m))"

text \<open>Recording an event does not change the objects.\<close>

definition recorder_laws :: "'w module \<Rightarrow> ('w \<Rightarrow> cluster) \<Rightarrow> bool" where
  "recorder_laws m V \<longleftrightarrow> (\<forall>f e w. mRecorder m = Some f \<longrightarrow> V (f e w) = V w)"

lemma scope_refl [simp, intro]: "scope m a a"
  by (simp add: scope_def)

lemma scope_trans: "scope m a b \<Longrightarrow> scope m b c \<Longrightarrow> scope m a c"
  by (simp add: scope_def)

lemma custody_refl [simp, intro]: "custody a a"
  by (auto simp: custody_def)

lemma custody_trans: "custody a b \<Longrightarrow> custody b c \<Longrightarrow> custody a c"
  unfolding custody_def by metis

lemma handover_refl [simp, intro]: "handover m a a"
  by (simp add: handover_def)

lemma handover_trans: "handover m a b \<Longrightarrow> handover m b c \<Longrightarrow> handover m a c"
  unfolding handover_def by (blast intro: scope_trans custody_trans)

lemma handover_ns [intro]:
  "b = a\<lparr>clNSs := (clNSs a)(dataRegistryNamespaceName := x)\<rparr> \<Longrightarrow> handover m a b"
  by (simp add: handover_def scope_def)

lemma handover_deploy [intro]:
  "b = a\<lparr>clDeploys := (clDeploys a)(deploymentKey m := x)\<rparr> \<Longrightarrow> handover m a b"
  by (simp add: handover_def scope_def)

lemma handover_cm:
  assumes "b = a\<lparr>clCMs := (clCMs a)(capabilitiesKey m := x)\<rparr>" "custody (clCMs a (capabilitiesKey m)) x"
  shows "handover m a b"
  using assms by (simp add: handover_def scope_def)

section \<open>The interface of a step\<close>

locale finalizer_step =
  fixes step :: "'w kube \<Rightarrow> 'w module \<Rightarrow> time \<Rightarrow> 'w act"
  assumes step_handover:
    "kube_laws K V \<Longrightarrow> recorder_laws m V \<Longrightarrow> step K m now w = (r, w') \<Longrightarrow> handover m (V w) (V w')"
begin

lemma rbac_kept:
  assumes "kube_laws K V" "recorder_laws m V" "step K m now w = (r, w')"
  shows "clCRBs (V w') = clCRBs (V w)" "clCRs (V w') = clCRs (V w)"
  using step_handover [OF assms] by (simp_all add: handover_def scope_def)

lemma still_held:
  assumes "kube_laws K V" "recorder_laws m V" "step K m now w = (r, w')"
    "clCMs (V w) (capabilitiesKey m) = Some cm" "heldByFeast cm"
  obtains cm' where "clCMs (V w') (capabilitiesKey m) = Some cm'" "heldByFeast cm'"
    "cmDeletionTimestamp cm \<noteq> None \<Longrightarrow> cmDeletionTimestamp cm' = cmDeletionTimestamp cm"
    "startedAt cm \<noteq> [] \<Longrightarrow> startedAt cm' = startedAt cm"
  using step_handover [OF assms(1-3)] assms(4,5) by (auto simp: handover_def custody_def)

end

text \<open>Two steps in sequence, with Go's early return, are a step.\<close>

locale finalizer_steps = first: finalizer_step first_step + second: finalizer_step second_step
  for first_step second_step :: "'w kube \<Rightarrow> 'w module \<Rightarrow> time \<Rightarrow> 'w act"
begin

lemma both_handover:
  assumes "kube_laws K V" "recorder_laws m V" "andThen (first_step K m now) (second_step K m now') w = (r, w')"
  shows "handover m (V w) (V w')"
proof (cases "first_step K m now w")
  case (Pair r1 w1)
  show ?thesis
  proof (cases r1)
    case None
    with Pair assms(3) have "second_step K m now' w1 = (r, w')" by simp
    with Pair first.step_handover second.step_handover assms(1,2) show ?thesis by (blast intro: handover_trans)
  next
    case (Some e)
    with Pair assms show ?thesis by (auto intro: first.step_handover)
  qed
qed

end

sublocale finalizer_steps \<subseteq> both: finalizer_step "\<lambda>K m now. andThen (first_step K m now) (second_step K m now)"
  by unfold_locales (rule both_handover)

end
