(* ===== verification/CapabilitySteps.thy ===== *)
theory CapabilitySteps
  imports FinalizerStep
begin

text \<open>
  The effect of each hand-over step on the stored objects, and the proof that each keeps the
  contract of \<open>FinalizerStep\<close>: the interpretations of the locale on the code's handlers.
\<close>

section \<open>Shared case analyses\<close>

lemma withCapabilities_cases:
  assumes "kube_laws K V" "withCapabilities K m h w = (r, w')"
  obtains (failed) "r \<noteq> None" "V w' = V w"
  | (absent) "r = None" "clCMs (V w) (capabilitiesKey m) = None" "V w' = V w"
  | (present) cm w1 where "clCMs (V w) (capabilitiesKey m) = Some cm" "cmKey cm = capabilitiesKey m"
      "V w1 = V w" "h cm w1 = (r, w')"
proof (cases "getCM K (capabilitiesKey m) w")
  case (Pair g w1)
  note read = getCM_reads [OF assms(1) Pair]
  show thesis
  proof (cases g)
    case (Inl e)
    with Pair assms(2) read failed absent show thesis
      by (auto simp: withCapabilities_def getCapabilitiesConfigMap_def split: if_splits)
  next
    case (Inr cm)
    with Pair assms(2) read present [of cm w1] show thesis
      by (simp add: withCapabilities_def getCapabilitiesConfigMap_def)
  qed
qed

text \<open>Writing back an object that keeps what \<open>custody\<close> protects.\<close>

lemma custody_stored:
  assumes "stored_as cm' x"
    and "heldByFeast cm \<Longrightarrow> heldByFeast cm' \<and> cmDeletionTimestamp cm' = cmDeletionTimestamp cm \<and>
           (startedAt cm \<noteq> [] \<longrightarrow> startedAt cm' = startedAt cm)"
  shows "custody (Some cm) x"
proof -
  have "\<exists>cm''. x = Some cm'' \<and> same_cm cm' cm''" if "heldByFeast cm"
    using assms that by (auto simp: stored_as_def heldByFeast_def split: if_splits)
  then show ?thesis
    using assms(2) by (fastforce simp: custody_def heldByFeast_def startedAt_def same_cm_fields)
qed

lemma stored_as_Some:
  "stored_as cm (Some cm') \<Longrightarrow> same_cm cm cm'"
  by (auto simp: stored_as_def split: if_splits)

section \<open>Marking\<close>

lemma cm_update_key [simp]:
  "cmKey (cm\<lparr>cmData := d\<rparr>) = cmKey cm" "cmKey (cm\<lparr>cmAnnotations := a\<rparr>) = cmKey cm"
  "cmKey (cm\<lparr>cmFinalizers := f\<rparr>) = cmKey cm" "cmKey (cm\<lparr>cmLabels := l\<rparr>) = cmKey cm"
  "cmKey (cm\<lparr>cmOwners := os\<rparr>) = cmKey cm" "cmKey (cm\<lparr>cmDeletionTimestamp := t\<rparr>) = cmKey cm"
  by (simp_all add: cmKey_def)

lemma formatRFC3339_nonempty [simp]: "formatRFC3339 t \<noteq> []"
  by (simp add: formatRFC3339_def Let_def split: prod.splits)

lemma teardownIntent_fields [simp]:
  "cmKey (teardownIntent now cm) = cmKey cm"
  "cmFinalizers (teardownIntent now cm) = cmFinalizers cm"
  "cmDeletionTimestamp (teardownIntent now cm) = cmDeletionTimestamp cm"
  "cmLabels (teardownIntent now cm) = cmLabels cm"
  "startedAt (teardownIntent now cm) = (if startedAt cm = [] then formatRFC3339 now else startedAt cm)"
  "flagsDisabled (teardownIntent now cm)"
  by (simp_all add: teardownIntent_def startedAt_def flagsDisabled_def Let_def)

lemma same_deletion: "cmDeletionTimestamp cm' = t \<Longrightarrow> cm'\<lparr>cmDeletionTimestamp := t\<rparr> = cm'"
  by auto

lemma markCapabilitiesDisabled_effect:
  assumes "kube_laws K V" "markCapabilitiesDisabled K m now w = (r, w')"
  obtains (same) "V w' = V w"
      "\<And>cm. r = None \<Longrightarrow> clCMs (V w) (capabilitiesKey m) = Some cm \<Longrightarrow> flagsDisabled cm \<and> startedAt cm \<noteq> []"
  | (marked) cm x where "clCMs (V w) (capabilitiesKey m) = Some cm"
      "\<not> (flagsDisabled cm \<and> startedAt cm \<noteq> [])" "stored_as (teardownIntent now cm) x"
      "V w' = (V w)\<lparr>clCMs := (clCMs (V w))(capabilitiesKey m := x)\<rparr>"
  using assms(1) assms(2) [unfolded markCapabilitiesDisabled_def]
proof (cases rule: withCapabilities_cases)
  case failed
  with same show thesis by auto
next
  case absent
  with same show thesis by auto
next
  case (present cm w1)
  show thesis
  proof (cases "flagsDisabled cm \<and> startedAt cm \<noteq> []")
    case True
    with present same show thesis by simp
  next
    case False
    with present(4) obtain r1 where up: "updateCM K (teardownIntent now cm) w1 = (r1, w')" "r = None \<longleftrightarrow> r1 = None"
      by (auto simp: wrapErr_def split: prod.splits option.splits if_splits)
    from assms(1) up(1) show thesis
    proof (cases rule: updateCM_effect)
      case failed
      with up(2) present(3) same show thesis by auto
    next
      case (written old x)
      then have "old = cm" using present(1-3) by simp
      with written(2) have "stored_as (teardownIntent now cm) x"
        by (simp add: same_deletion)
      with written(3) present show thesis by (intro marked [OF present(1) False]) simp_all
    qed
  qed
qed

section \<open>Rolling out\<close>

definition dataHash :: "config_map \<Rightarrow> string" where
  "dataHash cm = capabilitiesDataHash (rangeKeys (cmData cm)) (cmData cm)"

definition annotatedHash :: "deployment \<Rightarrow> string" where
  "annotatedHash d = gm_get (depTemplateAnnotations d) capabilitiesHashAnnotation"

lemma triggerCapabilityRolloutIfNeeded_effect:
  assumes "kube_laws K V" "triggerCapabilityRolloutIfNeeded K m w = (r, w')"
  obtains (same) "V w' = V w"
      "\<And>cm d. r = None \<Longrightarrow> clCMs (V w) (capabilitiesKey m) = Some cm \<Longrightarrow>
         clDeploys (V w) (deploymentKey m) = Some d \<Longrightarrow> annotatedHash d = dataHash cm"
  | (patched) cm d d' where "clCMs (V w) (capabilitiesKey m) = Some cm"
      "clDeploys (V w) (deploymentKey m) = Some d" "annotatedHash d \<noteq> dataHash cm"
      "\<And>k. gm_lookup (depTemplateAnnotations d') k =
         (if k = capabilitiesHashAnnotation then Some (dataHash cm) else gm_lookup (depTemplateAnnotations d) k)"
      "V w' = (V w)\<lparr>clDeploys := (clDeploys (V w))(deploymentKey m \<mapsto> d')\<rparr>"
      "depKey d' = depKey d" "rel_option gm_eq (depSelector d) (depSelector d')"
proof (cases "getCM K (capabilitiesKey m) w")
  case (Pair g w1)
  note read = getCM_reads [OF assms(1) Pair]
  show thesis
  proof (cases g)
    case (Inl e)
    with Pair assms(2) read same show thesis
      by (auto simp: triggerCapabilityRolloutIfNeeded_def split: if_splits)
  next
    case (Inr cm)
    with read have cm: "clCMs (V w) (capabilitiesKey m) = Some cm" by simp
    obtain gd w2 where gd: "getDeploy K (deploymentKey m) w1 = (gd, w2)" by fastforce
    note readd = getDeploy_reads [OF assms(1) gd]
    show thesis
    proof (cases gd)
      case (Inl e)
      with Pair Inr gd assms(2) read(1) readd(1,3) same show thesis
        by (auto simp: triggerCapabilityRolloutIfNeeded_def Let_def split: if_splits)
    next
      case d: (Inr d)
      with readd read(1) have dep: "clDeploys (V w) (deploymentKey m) = Some d" "depKey d = deploymentKey m"
        by auto
      show thesis
      proof (cases "annotatedHash d = dataHash cm")
        case True
        with Pair Inr gd d assms(2) read(1) readd(1) cm dep(1) same show thesis
          by (auto simp: triggerCapabilityRolloutIfNeeded_def Let_def annotatedHash_def dataHash_def)
      next
        case False
        let ?d = "d\<lparr>depTemplateAnnotations :=
          Some (fmupd capabilitiesHashAnnotation (dataHash cm) (gm_make (depTemplateAnnotations d)))\<rparr>"
        from False Pair Inr gd d assms(2) obtain r1
          where patch: "patchDeploy K d ?d w2 = (r1, w')" "r = None \<longleftrightarrow> r1 = None"
          by (auto simp: triggerCapabilityRolloutIfNeeded_def Let_def annotatedHash_def dataHash_def
              wrapErr_def split: prod.splits option.splits)
        have key: "depKey ?d = deploymentKey m" using dep(2) by (simp add: depKey_def)
        with dep(1) read(1) readd(1) have "clDeploys (V w2) (depKey ?d) = Some d" by simp
        with assms(1) patch(1) show thesis
        proof (cases rule: patchDeploy_effect)
          case failed
          with patch(2) read(1) readd(1) same show thesis by auto
        next
          case (written d')
          have "gm_lookup (depTemplateAnnotations d') k = gm_lookup (depTemplateAnnotations ?d) k" for k
            using written(1) by (simp add: same_dep_def gm_eq_lookup)
          moreover have "depKey d' = depKey d" "rel_option gm_eq (depSelector d) (depSelector d')"
            using written(1) key dep(2) by (simp_all add: same_dep_def)
          ultimately show thesis using written(2) key read(1) readd(1)
            by (intro patched [OF cm dep(1) False, of d']) (auto simp: gm_lookup_make [symmetric])
        qed
      qed
    qed
  qed
qed

section \<open>Deleting\<close>

lemma terminated_fields:
  assumes "terminated t s = Some s'"
  shows "cmDeletionTimestamp s' \<noteq> None" "cmFinalizers s' = cmFinalizers s" "startedAt s' = startedAt s"
    "cmData s' = cmData s" "cmKey s' = cmKey s" "cmLabels s' = cmLabels s"
    "cmDeletionTimestamp s \<noteq> None \<Longrightarrow> cmDeletionTimestamp s' = cmDeletionTimestamp s"
  using assms by (auto simp: terminated_def startedAt_def split: if_splits option.splits)

lemma deleteCapabilitiesConfigMap_effect:
  assumes "kube_laws K V" "deleteCapabilitiesConfigMap K m w = (r, w')"
  obtains (same) "V w' = V w"
      "\<And>cm. r = None \<Longrightarrow> clCMs (V w) (capabilitiesKey m) = Some cm \<Longrightarrow> cmDeletionTimestamp cm \<noteq> None"
  | (terminates) cm t where "clCMs (V w) (capabilitiesKey m) = Some cm" "cmDeletionTimestamp cm = None"
      "V w' = (V w)\<lparr>clCMs := (clCMs (V w))(capabilitiesKey m := terminated t cm)\<rparr>"
  using assms(1) assms(2) [unfolded deleteCapabilitiesConfigMap_def]
proof (cases rule: withCapabilities_cases)
  case failed
  with same show thesis by auto
next
  case absent
  with same show thesis by auto
next
  case (present cm w1)
  show thesis
  proof (cases "cmDeletionTimestamp cm")
    case (Some t)
    with present same show thesis by auto
  next
    case None
    with present(4) obtain r1 where del: "deleteCM K cm w1 = (r1, w')" "r = None \<longleftrightarrow> ignoreNotFound r1 = None"
      by (auto simp: ignoreNotFound_def split: prod.splits option.splits if_splits)
    from assms(1) del(1) show thesis
    proof (cases rule: deleteCM_effect)
      case (failed e)
      with del(2) present(1-3) same show thesis by (auto simp: ignoreNotFound_def split: if_splits)
    next
      case (deleted t s)
      with present show thesis by (intro terminates [OF present(1) None, of t]) simp
    qed
  qed
qed

section \<open>Waiting and releasing\<close>

text \<open>The wait is over: the start of the cleanup is known and the timeout has passed since.\<close>

definition timedOut :: "time \<Rightarrow> config_map \<Rightarrow> bool" where
  "timedOut now cm \<longleftrightarrow>
     (case parseRFC3339 (startedAt cm) of
        None \<Rightarrow> False
      | Some started \<Rightarrow> feastOperatorReleaseTimeout \<le> since now started)"

lemma waitForFeastOperatorRelease_effect:
  assumes "kube_laws K V" "recorder_laws m V" "waitForFeastOperatorRelease K m now w = (r, w')"
  shows "V w' = V w"
    and "r = None \<Longrightarrow> clCMs (V w) (capabilitiesKey m) = Some cm \<Longrightarrow> heldByFeast cm \<Longrightarrow>
           cmDeletionTimestamp cm \<noteq> None \<and> timedOut now cm"
proof -
  have "V w' = V w \<and> (\<forall>cm. r = None \<longrightarrow> clCMs (V w) (capabilitiesKey m) = Some cm \<longrightarrow> heldByFeast cm \<longrightarrow>
      cmDeletionTimestamp cm \<noteq> None \<and> timedOut now cm)"
    using assms(1) assms(3) [unfolded waitForFeastOperatorRelease_def]
  proof (cases rule: withCapabilities_cases)
    case (present cm w1)
    then show ?thesis using assms(2)
      by (auto simp: finalizer_ops [OF assms(1)] heldByFeast_def timedOut_def recorder_laws_def Let_def
          split: if_splits option.splits)
  qed auto
  then show "V w' = V w"
    and "r = None \<Longrightarrow> clCMs (V w) (capabilitiesKey m) = Some cm \<Longrightarrow> heldByFeast cm \<Longrightarrow>
           cmDeletionTimestamp cm \<noteq> None \<and> timedOut now cm"
    by blast+
qed

definition heldByModule :: "config_map \<Rightarrow> bool" where
  "heldByModule cm \<longleftrightarrow> capabilitiesConfigMapFinalizer \<in> set (cmFinalizers cm)"

definition released :: "config_map \<Rightarrow> config_map" where
  "released cm = cm\<lparr>cmFinalizers := filter (\<lambda>f. f \<noteq> capabilitiesConfigMapFinalizer) (cmFinalizers cm)\<rparr>"

lemma released_fields [simp]:
  "cmKey (released cm) = cmKey cm" "cmDeletionTimestamp (released cm) = cmDeletionTimestamp cm"
  "startedAt (released cm) = startedAt cm" "flagsDisabled (released cm) = flagsDisabled cm"
  "heldByFeast (released cm) = heldByFeast cm" "\<not> heldByModule (released cm)"
  "cmFinalizers (released cm) = filter (\<lambda>f. f \<noteq> capabilitiesConfigMapFinalizer) (cmFinalizers cm)"
  by (auto simp: released_def startedAt_def flagsDisabled_def heldByFeast_def heldByModule_def)

lemma releaseCapabilitiesConfigMap_effect:
  assumes "kube_laws K V" "releaseCapabilitiesConfigMap K m w = (r, w')"
  obtains (same) "V w' = V w"
      "\<And>cm. r = None \<Longrightarrow> clCMs (V w) (capabilitiesKey m) = Some cm \<Longrightarrow> \<not> heldByModule cm"
  | (removed) cm x where "clCMs (V w) (capabilitiesKey m) = Some cm" "heldByModule cm"
      "stored_as (released cm) x"
      "V w' = (V w)\<lparr>clCMs := (clCMs (V w))(capabilitiesKey m := x)\<rparr>"
  using assms(1) assms(2) [unfolded releaseCapabilitiesConfigMap_def]
proof (cases rule: withCapabilities_cases)
  case failed
  with same show thesis by auto
next
  case absent
  with same show thesis by auto
next
  case (present cm w1)
  show thesis
  proof (cases "heldByModule cm")
    case False
    with present same show thesis by (auto simp: finalizer_ops [OF assms(1)] heldByModule_def)
  next
    case True
    with present(4) obtain r1 where up: "updateCM K (released cm) w1 = (r1, w')" "r = None \<longleftrightarrow> r1 = None"
      by (auto simp: finalizer_ops [OF assms(1)] heldByModule_def released_def wrapErr_def
          split: prod.splits option.splits if_splits)
    from assms(1) up(1) show thesis
    proof (cases rule: updateCM_effect)
      case failed
      with up(2) present(3) same show thesis by auto
    next
      case (written old x)
      then have "old = cm" using present(1-3) by simp
      with written(2) have "stored_as (released cm) x"
        by (simp add: same_deletion)
      with written(3) present show thesis by (intro removed [OF present(1) True]) simp_all
    qed
  qed
qed

section \<open>The steps keep the contract\<close>

lemma removeDataRegistryLabel_handover:
  assumes "kube_laws K V" "removeDataRegistryLabel K w = (r, w')"
  shows "handover m (V w) (V w')"
  using assms by (cases rule: removeDataRegistryLabel_effect) auto

lemma triggerCapabilityRolloutIfNeeded_handover:
  assumes "kube_laws K V" "triggerCapabilityRolloutIfNeeded K m w = (r, w')"
  shows "handover m (V w) (V w')"
  using assms by (cases rule: triggerCapabilityRolloutIfNeeded_effect) auto

lemma markCapabilitiesDisabled_handover:
  assumes "kube_laws K V" "markCapabilitiesDisabled K m now w = (r, w')"
  shows "handover m (V w) (V w')"
  using assms
proof (cases rule: markCapabilitiesDisabled_effect)
  case (marked cm x)
  have "custody (Some cm) x"
    using marked(3) by (rule custody_stored) (simp add: heldByFeast_def)
  with marked(1,4) show ?thesis by (intro handover_cm) simp_all
qed simp

lemma deleteCapabilitiesConfigMap_handover:
  assumes "kube_laws K V" "deleteCapabilitiesConfigMap K m w = (r, w')"
  shows "handover m (V w) (V w')"
  using assms
proof (cases rule: deleteCapabilitiesConfigMap_effect)
  case (terminates cm t)
  have "custody (Some cm) (terminated t cm)"
    using terminates(2) by (auto simp: custody_def terminated_def heldByFeast_def startedAt_def)
  with terminates(1,3) show ?thesis by (intro handover_cm) simp_all
qed simp

lemma releaseCapabilitiesConfigMap_handover:
  assumes "kube_laws K V" "releaseCapabilitiesConfigMap K m w = (r, w')"
  shows "handover m (V w) (V w')"
  using assms
proof (cases rule: releaseCapabilitiesConfigMap_effect)
  case (removed cm x)
  have "custody (Some cm) x"
    using removed(3) by (rule custody_stored) simp
  with removed(1,4) show ?thesis by (intro handover_cm) simp_all
qed simp

interpretation removing: finalizer_step "\<lambda>K m now. removeDataRegistryLabel K"
  by unfold_locales (rule removeDataRegistryLabel_handover)

interpretation marking: finalizer_step markCapabilitiesDisabled
  by unfold_locales (rule markCapabilitiesDisabled_handover)

interpretation rolling: finalizer_step "\<lambda>K m now. triggerCapabilityRolloutIfNeeded K m"
  by unfold_locales (rule triggerCapabilityRolloutIfNeeded_handover)

interpretation deleting: finalizer_step "\<lambda>K m now. deleteCapabilitiesConfigMap K m"
  by unfold_locales (rule deleteCapabilitiesConfigMap_handover)

interpretation waiting: finalizer_step waitForFeastOperatorRelease
  by unfold_locales (simp add: waitForFeastOperatorRelease_effect(1))

interpretation releasing: finalizer_step "\<lambda>K m now. releaseCapabilitiesConfigMap K m"
  by unfold_locales (rule releaseCapabilitiesConfigMap_handover)

end
