(* ===== verification/PlatformVersion.thy ===== *)
theory PlatformVersion
  imports ModuleCore
begin

text \<open>
  \<^verbatim>\<open>feastoperator_platform_version.go\<close> and \<^verbatim>\<open>feastoperator_upgrade.go\<close>: the platform version
  handshake through \<^verbatim>\<open>status.releases\<close> and the version-gated upgrade. The list of releases is used
  through two operations, whose laws are the locale \<open>release_store\<close>.
\<close>

definition platformConfigCMName :: string where
  "platformConfigCMName = ''odh-data-config''"

definition platformVersionKey :: string where
  "platformVersionKey = ''platformVersion''"

definition platformReleaseName :: string where
  "platformReleaseName = ''platform''"

section \<open>The interface of the store\<close>

locale release_store =
  fixes get_rel :: "'s \<Rightarrow> string" and set_rel :: "string \<Rightarrow> 's \<Rightarrow> 's"
  assumes get_set: "get_rel (set_rel v s) = v"
    and set_set: "set_rel u (set_rel v s) = set_rel u s"
    and set_get: "get_rel s \<noteq> [] \<Longrightarrow> set_rel (get_rel s) s = s"
begin

text \<open>The handshake as the protocol means it: record a version that is there and new.\<close>

definition handshake :: "string \<Rightarrow> 's \<Rightarrow> 's" where
  "handshake v s = (if v = [] \<or> get_rel s = v then s else set_rel v s)"

lemma handshake_records: "v \<noteq> [] \<Longrightarrow> get_rel (handshake v s) = v"
  by (simp add: handshake_def get_set)

lemma handshake_again: "handshake v (handshake v s) = handshake v s"
  by (simp add: handshake_def get_set)

lemma handshake_last: "u \<noteq> [] \<Longrightarrow> v \<noteq> [] \<Longrightarrow> handshake u (handshake v s) = handshake u s"
  by (auto simp: handshake_def get_set set_set set_get)

end

section \<open>The releases of the status\<close>

definition getPlatformRelease :: "feast_operator \<Rightarrow> string" where
  "getPlatformRelease obj =
     (case find (\<lambda>r. releaseName r = platformReleaseName) (statusReleases (status obj)) of
        Some r \<Rightarrow> releaseVersion r
      | None \<Rightarrow> [])"

text \<open>The loop writes the first entry of that name and returns; without one it appends.\<close>

fun setRelease :: "string \<Rightarrow> component_release list \<Rightarrow> component_release list" where
  "setRelease v [] = [\<lparr>releaseName = platformReleaseName, releaseVersion = v\<rparr>]"
| "setRelease v (r # rs) =
     (if releaseName r = platformReleaseName then r\<lparr>releaseVersion := v\<rparr> # rs else r # setRelease v rs)"

definition setPlatformRelease :: "string \<Rightarrow> feast_operator \<Rightarrow> feast_operator" where
  "setPlatformRelease v obj = setReleaseStatus (setRelease v (statusReleases (status obj))) obj"

lemma find_setRelease:
  "find (\<lambda>r. releaseName r = platformReleaseName) (setRelease v rs) =
     Some (case find (\<lambda>r. releaseName r = platformReleaseName) rs of
             Some r \<Rightarrow> r\<lparr>releaseVersion := v\<rparr>
           | None \<Rightarrow> \<lparr>releaseName = platformReleaseName, releaseVersion = v\<rparr>)"
  by (induction rs) simp_all

lemma setRelease_twice: "setRelease u (setRelease v rs) = setRelease u rs"
  by (induction rs) simp_all

lemma setRelease_same:
  "find (\<lambda>r. releaseName r = platformReleaseName) rs = Some r \<Longrightarrow> setRelease (releaseVersion r) rs = rs"
  by (induction rs) (auto split: if_splits)

lemma setRelease_others:
  "filter (\<lambda>r. releaseName r \<noteq> platformReleaseName) (setRelease v rs) =
     filter (\<lambda>r. releaseName r \<noteq> platformReleaseName) rs"
  by (induction rs) auto

lemma statusReleases_set [simp]:
  "statusReleases (status (setReleaseStatus rs obj)) = rs"
  using release_status_simps(1) [of rs obj] by (simp only: getReleaseStatus_def)

lemma setReleaseStatus_same [simp]: "setReleaseStatus (statusReleases (status obj)) obj = obj"
  by (simp add: setReleaseStatus_def)

interpretation platform: release_store getPlatformRelease setPlatformRelease
proof unfold_locales
  fix u v :: string and obj :: feast_operator
  show "getPlatformRelease (setPlatformRelease v obj) = v"
    by (simp add: getPlatformRelease_def setPlatformRelease_def find_setRelease split: option.splits)
  show "setPlatformRelease u (setPlatformRelease v obj) = setPlatformRelease u obj"
    by (simp add: setPlatformRelease_def setRelease_twice)
  assume "getPlatformRelease obj \<noteq> []"
  then obtain r where "find (\<lambda>r. releaseName r = platformReleaseName) (statusReleases (status obj)) = Some r"
    by (auto simp: getPlatformRelease_def split: option.splits)
  then show "setPlatformRelease (getPlatformRelease obj) obj = obj"
    by (simp add: setPlatformRelease_def getPlatformRelease_def setRelease_same)
qed

section \<open>The handshake\<close>

definition getPlatformVersion :: "'w kube \<Rightarrow> 'w module \<Rightarrow> ('w, string) call" where
  "getPlatformVersion K m w =
     (case getCM K \<lparr>keyName = platformConfigCMName, keyNamespace = cfgApplicationsNamespace (mCfg m)\<rparr> w of
        (Inl e, w') \<Rightarrow> (Inl e, w')
      | (Inr cm, w') \<Rightarrow> (Inr (gm_get (cmData cm) platformVersionKey), w'))"

text \<open>No version-specific migration exists: both hooks return nil without looking at their arguments.\<close>

definition handlePlatformUpgrade :: "'v request \<Rightarrow> string \<Rightarrow> string \<Rightarrow> goerr option" where
  "handlePlatformUpgrade rr oldVersion newVersion = None"

definition reconcilePlatformVersion :: "'w kube \<Rightarrow> 'w module \<Rightarrow> ('w, 'v) action" where
  "reconcilePlatformVersion K m s =
     (case s of (rr, w) \<Rightarrow>
      case rrInstance rr of
        OtherInst \<Rightarrow> (Some (Msg ''instance is not a FeastOperator''), (rr, w))
      | FeastInst obj \<Rightarrow>
          (case getPlatformVersion K m w of
             (Inl e, w') \<Rightarrow>
               if isNotFound e then (None, (rr, w'))
               else (Some (Wrapped ''failed to read platform version'' e), (rr, w'))
           | (Inr version, w') \<Rightarrow>
               if version = [] then (None, (rr, w'))
               else if getPlatformRelease obj = version then (None, (rr, w'))
               else
                 (case handlePlatformUpgrade rr (getPlatformRelease obj) version of
                    Some e \<Rightarrow> (Some e, (rr, w'))
                  | None \<Rightarrow> (None, (rr\<lparr>rrInstance := FeastInst (setPlatformRelease version obj)\<rparr>, w')))))"

text \<open>The action performs the abstract handshake with the version it reads.\<close>

lemma reconcilePlatformVersion_handshake:
  assumes "rrInstance rr = FeastInst obj" "getPlatformVersion K m w = (Inr v, w1)"
  shows "reconcilePlatformVersion K m (rr, w) =
    (None, (rr\<lparr>rrInstance := FeastInst (platform.handshake v obj)\<rparr>, w1))"
  using assms
  by (auto simp: reconcilePlatformVersion_def handlePlatformUpgrade_def platform.handshake_def)

lemma setPlatformRelease_others:
  "filter (\<lambda>r. releaseName r \<noteq> platformReleaseName) (statusReleases (status (setPlatformRelease v obj))) =
     filter (\<lambda>r. releaseName r \<noteq> platformReleaseName) (statusReleases (status obj))"
  by (simp add: setPlatformRelease_def setRelease_others)

section \<open>The upgrade\<close>

definition upgrade :: "string \<Rightarrow> 'v request \<Rightarrow> goerr option" where
  "upgrade prevVersion rr = None"

definition upgradeIfNeeded :: "'v semver \<Rightarrow> 'v request \<Rightarrow> goerr option" where
  "upgradeIfNeeded S rr =
     (case rrInstance rr of
        OtherInst \<Rightarrow> Some (Msg ''instance is not a FeastOperator'')
      | FeastInst obj \<Rightarrow>
          let prevVersion = getPlatformRelease obj in
          if prevVersion = [] \<or> prevVersion = ''0.0.0'' then None
          else
            (case semverParse S prevVersion of
               Inl e \<Rightarrow> Some (Wrapped (''failed to parse previous platform version '' @ goQuote prevVersion) e)
             | Inr prev \<Rightarrow> if \<not> semverGT S (relVersion (rrRelease rr)) prev then None else upgrade prevVersion rr))"

end
