(* ===== verification/Actions.thy ===== *)
theory Actions
  imports CapabilityData
begin

text \<open>
  \<^verbatim>\<open>feastoperator_actions.go\<close>: the OIDC parameter of the rendered manifests and the migration of
  a deployment whose immutable selector is stale. Go's \<^verbatim>\<open>net/url\<close>, whose host checks differ between
  Go releases, is a parameter: an abstract type \<open>'u\<close> of parsed URLs.
\<close>

definition paramsEnvKeyOIDCIssuerURL :: string where
  "paramsEnvKeyOIDCIssuerURL = ''OIDC_ISSUER_URL''"

definition selectorLabelKey :: string where
  "selectorLabelKey = ''app.kubernetes.io/name''"

definition selectorLabelValue :: string where
  "selectorLabelValue = ''feast-operator''"

section \<open>The OIDC issuer\<close>

record 'u url_lib =
  urlParseRequestURI :: "string \<Rightarrow> goerr + 'u"
  urlScheme :: "'u \<Rightarrow> string"
  urlHost :: "'u \<Rightarrow> string"
  urlString :: "'u \<Rightarrow> string"

definition parseAndValidateOIDCIssuerURL :: "'u url_lib \<Rightarrow> string \<Rightarrow> goerr + string" where
  "parseAndValidateOIDCIssuerURL U raw =
     (case urlParseRequestURI U raw of
        Inl e \<Rightarrow> Inl (Wrapped ''parse OIDC issuer URL'' e)
      | Inr parsed \<Rightarrow>
          if urlScheme U parsed \<noteq> ''https'' then Inl (Msg ''OIDC issuer URL must use https scheme'')
          else if urlHost U parsed = [] then Inl (Msg ''OIDC issuer URL must include a host'')
          else Inr (urlString U parsed))"

text \<open>The value of the parameter: empty without OIDC settings.\<close>

definition issuerParam :: "'u url_lib \<Rightarrow> feast_operator \<Rightarrow> goerr + string" where
  "issuerParam U feast =
     (case specOIDC (spec feast) of
        None \<Rightarrow> Inr []
      | Some raw \<Rightarrow>
          (case parseAndValidateOIDCIssuerURL U raw of
             Inl e \<Rightarrow> Inl (Wrapped (''invalid OIDC issuer URL '' @ goQuote raw @ '' in FeastOperator spec.oidc'') e)
           | Inr url \<Rightarrow> Inr url))"

definition setKustomizedParams :: "'w kube \<Rightarrow> 'u url_lib \<Rightarrow> 'v request \<Rightarrow> 'w act" where
  "setKustomizedParams K U rr w =
     (case rrInstance rr of
        OtherInst \<Rightarrow> (Some (Msg ''instance is not a FeastOperator''), w)
      | FeastInst feast \<Rightarrow>
          (case rrManifests rr of
             [] \<Rightarrow> (Some (Msg ''no manifests initialized before setKustomizedParams''), w)
           | mi # _ \<Rightarrow>
               (case issuerParam U feast of
                  Inl e \<Rightarrow> (Some e, w)
                | Inr issuerURL \<Rightarrow>
                    wrapErr ''failed to update params.env with kustomize parameters''
                      (applyParams K (manifestString K mi) ''params.env'' []
                         [[(paramsEnvKeyOIDCIssuerURL, issuerURL)]]) w)))"

section \<open>The selector migration\<close>

definition migrateDeploymentSelector :: "'w kube \<Rightarrow> 'w module \<Rightarrow> 'w act" where
  "migrateDeploymentSelector K m w =
     (let ns = cfgApplicationsNamespace (mCfg m) in
      case getDeploy K \<lparr>keyName = deploymentName, keyNamespace = ns\<rparr> w of
        (Inl e, w1) \<Rightarrow>
          if isNotFound e then (None, w1)
          else (Some (Wrapped (''failed to get Deployment '' @ ns @ ''/'' @ deploymentName) e), w1)
      | (Inr d, w1) \<Rightarrow>
          (case depSelector d of
             None \<Rightarrow> (None, w1)
           | Some matchLabels \<Rightarrow>
               if gm_get matchLabels selectorLabelKey = selectorLabelValue then (None, w1)
               else
                 (case deleteDeploy K d w1 of
                    (None, w2) \<Rightarrow> (None, w2)
                  | (Some e, w2) \<Rightarrow>
                      if isNotFound e then (None, w2)
                      else (Some (Wrapped (''failed to delete Deployment '' @ ns @ ''/'' @ deploymentName @
                                           '' with stale selector'') e), w2))))"

definition staleSelector :: "deployment \<Rightarrow> bool" where
  "staleSelector d =
     (case depSelector d of
        None \<Rightarrow> False
      | Some matchLabels \<Rightarrow> gm_get matchLabels selectorLabelKey \<noteq> selectorLabelValue)"

lemma migrateDeploymentSelector_effect:
  assumes "kube_laws K V" "migrateDeploymentSelector K m w = (r, w')"
    and key: "key = \<lparr>keyName = deploymentName, keyNamespace = cfgApplicationsNamespace (mCfg m)\<rparr>"
  obtains (same) "V w' = V w"
      "\<And>d. r = None \<Longrightarrow> clDeploys (V w) key = Some d \<Longrightarrow> \<not> staleSelector d"
  | (dropped) d where "clDeploys (V w) key = Some d" "staleSelector d"
      "V w' = (V w)\<lparr>clDeploys := (clDeploys (V w))(key := None)\<rparr>"
proof (cases "getDeploy K key w")
  case (Pair g w1)
  note read = getDeploy_reads [OF assms(1) Pair]
  show thesis
  proof (cases g)
    case (Inl e)
    with Pair assms(2) read same show thesis
      by (auto simp: migrateDeploymentSelector_def key Let_def split: if_splits)
  next
    case (Inr d)
    with read have d: "clDeploys (V w) key = Some d" "depKey d = key" by auto
    show thesis
    proof (cases "staleSelector d")
      case False
      with Pair Inr assms(2) read(1) d(1) same show thesis
        by (auto simp: migrateDeploymentSelector_def staleSelector_def key Let_def split: option.splits if_splits)
    next
      case True
      obtain r1 w2 where del: "deleteDeploy K d w1 = (r1, w2)" by fastforce
      with True Pair Inr assms(2) have res: "w' = w2" "r = None \<longleftrightarrow> ignoreNotFound r1 = None"
        by (auto simp: migrateDeploymentSelector_def staleSelector_def key Let_def ignoreNotFound_def
            split: option.splits if_splits)
      from assms(1) del show thesis
      proof (cases rule: deleteDeploy_effect)
        case (failed e)
        with res read(1) d same show thesis by (auto simp: ignoreNotFound_def split: if_splits)
      next
        case deleted
        with res read(1) d True dropped show thesis by auto
      qed
    qed
  qed
qed

end
