(* ===== verification/Controller.thy ===== *)
theory Controller
  imports CapabilitySteps PlatformVersion Actions
begin

text \<open>
  \<^verbatim>\<open>feastoperator_controller.go\<close>: the finalizer of the resource, the pipeline that
  \<^verbatim>\<open>NewReconciler\<close> registers, and the watch predicate of the capabilities ConfigMap. The actions of
  the framework (release status, kustomize, deploy, deployment status, garbage collection), its
  builder and its default predicate are arguments.
\<close>

section \<open>The finalizer\<close>

definition componentSelector :: "'w kube \<Rightarrow> (string \<times> string) list" where
  "componentSelector K = [(componentLabel K componentName, labelTrue K)]"

text \<open>One loop: list the labelled objects, delete each, tolerate those that are gone.\<close>

definition deleteListed ::
  "((string \<times> string) list \<Rightarrow> ('w, rbac_object list) call) \<Rightarrow> (rbac_object \<Rightarrow> 'w act) \<Rightarrow> string \<Rightarrow>
   (string \<times> string) list \<Rightarrow> 'w act"
  where
  "deleteListed lister deleter kind listOpts w =
     (case lister listOpts w of
        (Inl e, w') \<Rightarrow> (Some (Wrapped (''failed to list '' @ kind @ ''s'') e), w')
      | (Inr items, w') \<Rightarrow>
          forEach (\<lambda>x v.
            case deleter x v of (r, v') \<Rightarrow>
              (case ignoreNotFound r of
                 None \<Rightarrow> (None, v')
               | Some _ \<Rightarrow>
                   (map_option (Wrapped (''failed to delete '' @ kind @ '' '' @ rbacName x)) r, v'))) items w')"

text \<open>\<open>markedAt\<close> and \<open>checkedAt\<close> are the clock readings of the marking and the waiting step.\<close>

definition releaseHandover :: "'w kube \<Rightarrow> 'w module \<Rightarrow> time \<Rightarrow> time \<Rightarrow> 'w act" where
  "releaseHandover K m markedAt checkedAt =
     andThen (removeDataRegistryLabel K)
     (andThen (markCapabilitiesDisabled K m markedAt)
     (andThen (triggerCapabilityRolloutIfNeeded K m)
     (andThen (deleteCapabilitiesConfigMap K m)
     (andThen (waitForFeastOperatorRelease K m checkedAt)
       (releaseCapabilitiesConfigMap K m)))))"

definition cleanupClusterResources :: "'w kube \<Rightarrow> 'w module \<Rightarrow> time \<Rightarrow> time \<Rightarrow> 'v request \<Rightarrow> 'w act" where
  "cleanupClusterResources K m markedAt checkedAt rr w =
     (case rrInstance rr of
        OtherInst \<Rightarrow> (Some (Msg ''instance is not a FeastOperator''), w)
      | FeastInst _ \<Rightarrow>
          andThen (releaseHandover K m markedAt checkedAt)
          (andThen (deleteListed (listCRBs K) (deleteCRB K) ''ClusterRoleBinding'' (componentSelector K))
            (deleteListed (listCRs K) (deleteCR K) ''ClusterRole'' (componentSelector K))) w)"

section \<open>The watch predicate\<close>

text \<open>The objects of an update event are interface values that may be nil.\<close>

datatype watch_event =
    CreateEvent config_map
  | UpdateEvent "config_map option" "config_map option"
  | DeleteEvent config_map
  | GenericEvent config_map

definition isZeroTime :: "time \<Rightarrow> bool" where
  "isZeroTime t \<longleftrightarrow> t = zeroTime"

definition deletionStarted :: "config_map option \<Rightarrow> config_map option \<Rightarrow> bool" where
  "deletionStarted old_obj new_obj =
     (case (old_obj, new_obj) of
        (Some a, Some b) \<Rightarrow>
          (case cmDeletionTimestamp a of None \<Rightarrow> True | Some t \<Rightarrow> isZeroTime t) \<and>
          (case cmDeletionTimestamp b of None \<Rightarrow> False | Some t \<Rightarrow> \<not> isZeroTime t)
      | _ \<Rightarrow> False)"

text \<open>In \<open>predicate.Funcs\<close> a function that is not set accepts the event.\<close>

definition capabilitiesConfigMapWatchPredicate :: "(watch_event \<Rightarrow> bool) \<Rightarrow> watch_event \<Rightarrow> bool" where
  "capabilitiesConfigMapWatchPredicate defaultPredicate ev \<longleftrightarrow>
     defaultPredicate ev \<or>
     (case ev of
        CreateEvent _ \<Rightarrow> True
      | UpdateEvent old_obj new_obj \<Rightarrow> deletionStarted old_obj new_obj
      | DeleteEvent _ \<Rightarrow> True
      | GenericEvent _ \<Rightarrow> True)"

section \<open>The pipeline\<close>

record ('w, 'v) framework =
  releasesAction :: "('w, 'v) action"
  kustomizeAction :: "(string \<times> string) list \<Rightarrow> ('w, 'v) action"
  deployAction :: "('w, 'v) action"
  deploymentsAction :: "('w, 'v) action"
  gcAction :: "string \<Rightarrow> ('w, 'v) action"
  partOfLabel :: string

definition pureAction :: "('v request \<Rightarrow> goerr option) \<Rightarrow> ('w, 'v) action" where
  "pureAction h s = (h (fst s), s)"

text \<open>The actions in the order of registration.\<close>

definition pipeline ::
  "'w kube \<Rightarrow> 'u url_lib \<Rightarrow> 'v semver \<Rightarrow> ('w, 'v) framework \<Rightarrow> 'w module \<Rightarrow> ('w, 'v) action list" where
  "pipeline K U S F m =
     [initialize m,
      pureAction (upgradeIfNeeded S),
      readsRequest (setKustomizedParams K U),
      readsRequest (reconcileDataRegistryNamespace K m),
      readsRequest (reconcileCapabilitiesConfigMap K m),
      releasesAction F,
      reconcilePlatformVersion K m,
      kustomizeAction F [(componentLabel K componentName, labelTrue K), (partOfLabel F, componentName)],
      readsRequest (\<lambda>_. migrateDeploymentSelector K m),
      deployAction F,
      readsRequest (\<lambda>_. triggerCapabilityRolloutIfNeeded K m),
      deploymentsAction F,
      gcAction F (cfgApplicationsNamespace (mCfg m))]"

text \<open>
  What the framework does with the registered actions: it runs them in order and stops at the first
  error.
\<close>

definition runs_in_order :: "(('w, 'v) action list \<Rightarrow> ('w, 'v) action) \<Rightarrow> bool" where
  "runs_in_order run \<longleftrightarrow> (\<forall>as s. run as s = forEach (\<lambda>a. a) as s)"

text \<open>The kinds whose events reach the reconciler, with the predicate given to the builder.\<close>

datatype event_filter = DefaultFilter | CapabilitiesFilter | DeploymentFilter | LabelFilter string string | NamedFilter string

datatype watch = Owns string event_filter | Watches string string event_filter

definition watches :: "'w kube \<Rightarrow> watch list" where
  "watches K =
     [Owns ''ConfigMap'' CapabilitiesFilter,
      Owns ''RoleBinding'' DefaultFilter,
      Owns ''Role'' DefaultFilter,
      Owns ''ClusterRoleBinding'' DefaultFilter,
      Owns ''ClusterRole'' DefaultFilter,
      Owns ''ServiceAccount'' DefaultFilter,
      Owns ''Service'' DefaultFilter,
      Owns ''Deployment'' DeploymentFilter,
      Owns ''Job'' DefaultFilter,
      Owns ''ServiceMonitor'' DefaultFilter,
      Watches ''CustomResourceDefinition'' feastOperatorInstanceName
        (LabelFilter (componentLabel K componentName) (labelTrue K)),
      Watches ''ConfigMap'' feastOperatorInstanceName (NamedFilter platformConfigCMName)]"

record ('w, 'v) reconciler =
  rcWatches :: "watch list"
  rcActions :: "('w, 'v) action list"
  rcFinalizer :: "time \<Rightarrow> time \<Rightarrow> 'v request \<Rightarrow> 'w act"
  rcConditions :: "string list"
  rcRelease :: "'v release option"

definition newReconciler ::
  "'w kube \<Rightarrow> 'u url_lib \<Rightarrow> 'v semver \<Rightarrow> ('w, 'v) framework \<Rightarrow> platforms \<Rightarrow>
   (event \<Rightarrow> 'w \<Rightarrow> 'w) option \<Rightarrow> (('w, 'v) reconciler \<Rightarrow> goerr + ('w, 'v) reconciler) \<Rightarrow>
   config \<Rightarrow> 'v release \<Rightarrow> ('w, ('w, 'v) reconciler) call"
  where
  "newReconciler K U S F P recorder build cfg rel w =
     (case newModule K P cfg w of
        (Inl e, w') \<Rightarrow> (Inl e, w')
      | (Inr m0, w') \<Rightarrow>
          let m = m0\<lparr>mRecorder := recorder\<rparr> in
          (case build \<lparr>rcWatches = watches K, rcActions = pipeline K U S F m,
                       rcFinalizer = cleanupClusterResources K m,
                       rcConditions = [''DeploymentsAvailable''], rcRelease = None\<rparr> of
             Inl e \<Rightarrow> (Inl e, w')
           | Inr r \<Rightarrow> (Inr (r\<lparr>rcRelease := Some rel\<rparr>), w')))"

end
