(* ===== verification/CleanupProofs.thy ===== *)
theory CleanupProofs
  imports Controller
begin

text \<open>
  Lemmas about the finalizer: the deletion of a labelled collection of cluster RBAC objects (an
  interface with two instances), and the state in which the hand-over leaves the capabilities
  ConfigMap.
\<close>

section \<open>A collection of RBAC objects\<close>

definition carries :: "(string \<times> string) list \<Rightarrow> rbac_object \<Rightarrow> bool" where
  "carries ps x \<longleftrightarrow> (\<forall>(k, v) \<in> set ps. gm_lookup (rbacLabels x) k = Some v)"

locale rbac_collection =
  fixes lister :: "'w kube \<Rightarrow> (string \<times> string) list \<Rightarrow> ('w, rbac_object list) call"
    and deleter :: "'w kube \<Rightarrow> rbac_object \<Rightarrow> 'w act"
    and sel :: "cluster \<Rightarrow> rbac_object list"
    and put :: "rbac_object list \<Rightarrow> cluster \<Rightarrow> cluster"
  assumes sel_put [simp]: "sel (put xs c) = xs"
    and put_put [simp]: "put ys (put xs c) = put ys c"
    and put_sel [simp]: "put (sel c) c = c"
    and lister_law: "kube_laws K V \<Longrightarrow> lists (lister K) V sel"
    and deleter_law: "kube_laws K V \<Longrightarrow> deleter K x w = (r, w') \<Longrightarrow>
      (\<exists>e. r = Some e \<and> V w' = V w \<and> (isNotFound e \<longrightarrow> rbacName x \<notin> rbacName ` set (sel (V w)))) \<or>
      V w' = put (filter (\<lambda>y. rbacName y \<noteq> rbacName x) (sel (V w))) (V w)"
begin

text \<open>What a loop has removed: the objects named in \<open>N\<close>.\<close>

definition without :: "string set \<Rightarrow> cluster \<Rightarrow> cluster" where
  "without N c = put (filter (\<lambda>y. rbacName y \<notin> N) (sel c)) c"

lemma without_empty [simp]: "without {} c = c"
  by (simp add: without_def)

lemma sel_without [simp]: "sel (without N c) = filter (\<lambda>y. rbacName y \<notin> N) (sel c)"
  by (simp add: without_def)

lemma without_without: "without N (without M c) = without (M \<union> N) c"
  by (simp add: without_def filter_filter conj_commute)

lemma without_absent: "n \<notin> rbacName ` set (sel c) \<Longrightarrow> without {n} c = c"
proof -
  assume "n \<notin> rbacName ` set (sel c)"
  then have "filter (\<lambda>y. rbacName y \<notin> {n}) (sel c) = sel c" by (auto simp: filter_id_conv)
  then show "without {n} c = c" by (simp add: without_def)
qed

lemma deleter_cases:
  assumes "kube_laws K V" "deleter K x w = (r, w')"
  shows "V w' = V w \<and> ignoreNotFound r \<noteq> None \<or> V w' = without {rbacName x} (V w)"
  using deleter_law [OF assms] without_absent [of "rbacName x" "V w"]
  by (auto simp: ignoreNotFound_def without_def)

text \<open>The body of the loop in \<open>deleteListed\<close>.\<close>

definition tolerant :: "'w kube \<Rightarrow> string \<Rightarrow> rbac_object \<Rightarrow> 'w act" where
  "tolerant K kind x v =
     (case deleter K x v of (r, v') \<Rightarrow>
        (case ignoreNotFound r of
           None \<Rightarrow> (None, v')
         | Some _ \<Rightarrow> (map_option (Wrapped (''failed to delete '' @ kind @ '' '' @ rbacName x)) r, v')))"

lemma tolerant_cases:
  assumes "kube_laws K V" "tolerant K kind x w = (r, w')"
  shows "V w' = V w \<and> r \<noteq> None \<or> V w' = without {rbacName x} (V w)"
proof (cases "deleter K x w")
  case (Pair r1 w1)
  with assms(2) have "w' = w1" "ignoreNotFound r1 \<noteq> None \<longrightarrow> r \<noteq> None"
    by (auto simp: tolerant_def ignoreNotFound_def split: option.splits if_splits)
  with deleter_cases [OF assms(1) Pair] show ?thesis by blast
qed

lemma loop_removes:
  assumes "kube_laws K V" "forEach (tolerant K kind) xs w = (r, w')"
  shows "\<exists>N \<subseteq> rbacName ` set xs. V w' = without N (V w) \<and> (r = None \<longrightarrow> N = rbacName ` set xs)"
  using assms(2)
proof (induction xs arbitrary: w)
  case Nil
  then show ?case by (intro exI [of _ "{}"]) simp
next
  case (Cons x xs)
  obtain r1 w1 where step: "tolerant K kind x w = (r1, w1)" by fastforce
  note removed = tolerant_cases [OF assms(1) step]
  show ?case
  proof (cases r1)
    case (Some e)
    with Cons.prems step have "r = Some e" "w' = w1" by simp_all
    with removed show ?thesis by (metis without_empty empty_subsetI insert_subset list.set_intros(1) image_eqI option.distinct(1))
  next
    case None
    with Cons.prems step have "forEach (tolerant K kind) xs w1 = (r, w')" by simp
    from Cons.IH [OF this] obtain N where N: "N \<subseteq> rbacName ` set xs" "V w' = without N (V w1)"
      "r = None \<longrightarrow> N = rbacName ` set xs" by blast
    with removed None have "V w' = without ({rbacName x} \<union> N) (V w)" by (auto simp: without_without)
    with N show ?thesis by (intro exI [of _ "{rbacName x} \<union> N"]) auto
  qed
qed

lemma deleteListed_removes:
  assumes "kube_laws K V" "deleteListed (lister K) (deleter K) kind ps w = (r, w')"
  shows "\<exists>N \<subseteq> rbacName ` {x \<in> set (sel (V w)). carries ps x}.
    V w' = without N (V w) \<and> (r = None \<longrightarrow> N = rbacName ` {x \<in> set (sel (V w)). carries ps x})"
proof (cases "lister K ps w")
  case (Pair g w1)
  note listed = listsD [OF lister_law [OF assms(1)] Pair]
  show ?thesis
  proof (cases g)
    case (Inl e)
    with Pair assms(2) listed(1) show ?thesis
      by (intro exI [of _ "{}"]) (auto simp: deleteListed_def)
  next
    case (Inr items)
    with listed have "V w1 = V w" "set items = {x \<in> set (sel (V w)). carries ps x}"
      by (auto simp: carries_def)
    moreover have "forEach (tolerant K kind) items w1 = (r, w')"
      using assms(2) Pair Inr unfolding deleteListed_def tolerant_def [abs_def] by simp
    ultimately show ?thesis using loop_removes [OF assms(1)] by metis
  qed
qed

lemma deleteListed_complete:
  assumes "kube_laws K V" "deleteListed (lister K) (deleter K) kind ps w = (None, w')"
    "x \<in> set (sel (V w'))"
  shows "\<not> carries ps x"
  using deleteListed_removes [OF assms(1,2)] assms(3) by auto

end

interpretation crbs: rbac_collection listCRBs deleteCRB clCRBs "\<lambda>xs c. c\<lparr>clCRBs := xs\<rparr>"
proof unfold_locales
  fix K :: "'a kube" and V x w r w'
  assume "kube_laws K V" "deleteCRB K x w = (r, w')"
  then show "(\<exists>e. r = Some e \<and> V w' = V w \<and> (isNotFound e \<longrightarrow> rbacName x \<notin> rbacName ` set (clCRBs (V w)))) \<or>
      V w' = (V w)\<lparr>clCRBs := filter (\<lambda>y. rbacName y \<noteq> rbacName x) (clCRBs (V w))\<rparr>"
    by (cases rule: deleteCRB_effect) auto
qed (simp_all add: kube_lawsD(5))

interpretation crs: rbac_collection listCRs deleteCR clCRs "\<lambda>xs c. c\<lparr>clCRs := xs\<rparr>"
proof unfold_locales
  fix K :: "'a kube" and V x w r w'
  assume "kube_laws K V" "deleteCR K x w = (r, w')"
  then show "(\<exists>e. r = Some e \<and> V w' = V w \<and> (isNotFound e \<longrightarrow> rbacName x \<notin> rbacName ` set (clCRs (V w)))) \<or>
      V w' = (V w)\<lparr>clCRs := filter (\<lambda>y. rbacName y \<noteq> rbacName x) (clCRs (V w))\<rparr>"
    by (cases rule: deleteCR_effect) auto
qed (simp_all add: kube_lawsD(6))

section \<open>The hand-over as one step\<close>

interpretation unlabel_mark: finalizer_steps "\<lambda>K m now. removeDataRegistryLabel K" markCapabilitiesDisabled ..

interpretation wait_release: finalizer_steps waitForFeastOperatorRelease "\<lambda>K m now. releaseCapabilitiesConfigMap K m" ..

interpretation delete_wait: finalizer_steps "\<lambda>K m now. deleteCapabilitiesConfigMap K m"
  "\<lambda>K m now. andThen (waitForFeastOperatorRelease K m now) (releaseCapabilitiesConfigMap K m)" ..

interpretation roll_delete: finalizer_steps "\<lambda>K m now. triggerCapabilityRolloutIfNeeded K m"
  "\<lambda>K m now. andThen (deleteCapabilitiesConfigMap K m)
     (andThen (waitForFeastOperatorRelease K m now) (releaseCapabilitiesConfigMap K m))" ..

interpretation whole: finalizer_steps
  "\<lambda>K m now. andThen (removeDataRegistryLabel K) (markCapabilitiesDisabled K m now)"
  "\<lambda>K m now. andThen (triggerCapabilityRolloutIfNeeded K m) (andThen (deleteCapabilitiesConfigMap K m)
     (andThen (waitForFeastOperatorRelease K m now) (releaseCapabilitiesConfigMap K m)))" ..

lemma releaseHandover_handover:
  assumes "kube_laws K V" "recorder_laws m V" "releaseHandover K m t1 t2 w = (r, w')"
  shows "handover m (V w) (V w')"
  using assms(3) unfolding releaseHandover_def andThen_assoc [symmetric, of "removeDataRegistryLabel K"]
  by (rule whole.both_handover [OF assms(1,2)])

section \<open>The steps on success\<close>

text \<open>What the marking leaves, relative to the ConfigMap it found.\<close>

definition markedFrom :: "time \<Rightarrow> config_map \<Rightarrow> config_map \<Rightarrow> bool" where
  "markedFrom now cm0 cm \<longleftrightarrow>
     flagsDisabled cm \<and> startedAt cm = startedAt (teardownIntent now cm0) \<and>
     cmFinalizers cm = cmFinalizers cm0"

lemma same_cm_derived:
  assumes "same_cm a b"
  shows "startedAt b = startedAt a" "flagsDisabled b = flagsDisabled a" "heldByFeast b = heldByFeast a"
    "heldByModule b = heldByModule a" "timedOut now b = timedOut now a" "cmFinalizers b = cmFinalizers a"
    "cmDeletionTimestamp b = cmDeletionTimestamp a"
  using assms
  by (simp_all add: startedAt_def flagsDisabled_def heldByFeast_def heldByModule_def timedOut_def same_cm_fields)

lemma mark_post:
  assumes "kube_laws K V" "markCapabilitiesDisabled K m now w = (None, w')"
    "clCMs (V w') (capabilitiesKey m) = Some cm"
  obtains cm0 where "clCMs (V w) (capabilitiesKey m) = Some cm0" "markedFrom now cm0 cm"
  using assms(1,2)
proof (cases rule: markCapabilitiesDisabled_effect)
  case same
  with assms(3) that [of cm] show thesis by (simp add: markedFrom_def)
next
  case (marked cm0 x)
  with assms(3) have "same_cm (teardownIntent now cm0) cm" by (auto intro: stored_as_Some)
  from same_cm_derived [OF this] that [OF marked(1)] show thesis by (simp add: markedFrom_def)
qed

lemma mark_namespaces:
  assumes "kube_laws K V" "markCapabilitiesDisabled K m now w = (r, w')"
  shows "clNSs (V w') = clNSs (V w)"
  using assms by (cases rule: markCapabilitiesDisabled_effect) simp_all

lemma trigger_frame:
  assumes "kube_laws K V" "triggerCapabilityRolloutIfNeeded K m w = (r, w')"
  shows "clNSs (V w') = clNSs (V w)" "clCMs (V w') = clCMs (V w)"
  using assms by (cases rule: triggerCapabilityRolloutIfNeeded_effect; simp)+

lemma delete_post:
  assumes "kube_laws K V" "deleteCapabilitiesConfigMap K m w = (None, w')"
    "clCMs (V w') (capabilitiesKey m) = Some cm"
  obtains cm0 where "clCMs (V w) (capabilitiesKey m) = Some cm0" "cmDeletionTimestamp cm \<noteq> None"
    "flagsDisabled cm = flagsDisabled cm0" "startedAt cm = startedAt cm0" "cmFinalizers cm = cmFinalizers cm0"
  using assms(1,2)
proof (cases rule: deleteCapabilitiesConfigMap_effect)
  case same
  with assms(3) that [of cm] show thesis by simp
next
  case (terminates cm0 t)
  with assms(3) have "terminated t cm0 = Some cm" by simp
  from terminated_fields [OF this] that [OF terminates(1)] show thesis by (simp add: flagsDisabled_def)
qed

lemma delete_namespaces:
  assumes "kube_laws K V" "deleteCapabilitiesConfigMap K m w = (r, w')"
  shows "clNSs (V w') = clNSs (V w)"
  using assms by (cases rule: deleteCapabilitiesConfigMap_effect) simp_all

lemma release_post:
  assumes "kube_laws K V" "releaseCapabilitiesConfigMap K m w = (None, w')"
    "clCMs (V w') (capabilitiesKey m) = Some cm"
  obtains cm0 where "clCMs (V w) (capabilitiesKey m) = Some cm0" "\<not> heldByModule cm"
    "same_cm (released cm0) cm"
  using assms(1,2)
proof (cases rule: releaseCapabilitiesConfigMap_effect)
  case same
  with assms(3) have "\<not> heldByModule cm" by simp
  moreover from this have "released cm = cm"
    by (cases cm) (auto simp: released_def heldByModule_def filter_id_conv)
  ultimately show thesis using same assms(3) that [of cm] by simp
next
  case (removed cm0 x)
  with assms(3) have "same_cm (released cm0) cm" by (auto intro: stored_as_Some)
  with same_cm_derived(4) [OF this] that [OF removed(1)] show thesis by simp
qed

lemma release_namespaces:
  assumes "kube_laws K V" "releaseCapabilitiesConfigMap K m w = (r, w')"
  shows "clNSs (V w') = clNSs (V w)"
  using assms by (cases rule: releaseCapabilitiesConfigMap_effect) simp_all

lemma unlabel_post:
  assumes "kube_laws K V" "removeDataRegistryLabel K w = (None, w')"
  shows "\<not> registryAdvertised (V w')" "clCMs (V w') = clCMs (V w)"
proof -
  have "\<not> registryAdvertised (V w') \<and> clCMs (V w') = clCMs (V w)"
    using assms
  proof (cases rule: removeDataRegistryLabel_effect)
    case (removed ns ns')
    then show ?thesis by (simp add: registryAdvertised_def gm_get_lookup dataRegistryEnabledLabelValue_def)
  qed simp
  then show "\<not> registryAdvertised (V w')" "clCMs (V w') = clCMs (V w)" by simp_all
qed

section \<open>The hand-over on success\<close>

text \<open>A ConfigMap left behind: terminating, off, without the module, and not taken from a feast operator in time.\<close>

definition handedOver :: "time \<Rightarrow> config_map \<Rightarrow> bool" where
  "handedOver now cm \<longleftrightarrow>
     cmDeletionTimestamp cm \<noteq> None \<and> flagsDisabled cm \<and> \<not> heldByModule cm \<and>
     (heldByFeast cm \<longrightarrow> timedOut now cm)"

lemma releaseHandover_steps:
  assumes "releaseHandover K m t1 t2 w = (None, w')"
  obtains w1 w2 w3 w4 w5 where "removeDataRegistryLabel K w = (None, w1)"
    "markCapabilitiesDisabled K m t1 w1 = (None, w2)" "triggerCapabilityRolloutIfNeeded K m w2 = (None, w3)"
    "deleteCapabilitiesConfigMap K m w3 = (None, w4)" "waitForFeastOperatorRelease K m t2 w4 = (None, w5)"
    "releaseCapabilitiesConfigMap K m w5 = (None, w')"
  using assms unfolding releaseHandover_def by (elim andThen_okE) blast

text \<open>The ConfigMap the wait looks at, traced back to the one the hand-over found.\<close>

lemma intent_traced:
  assumes "kube_laws K V" "markCapabilitiesDisabled K m t1 w1 = (None, w2)"
    "triggerCapabilityRolloutIfNeeded K m w2 = (None, w3)" "deleteCapabilitiesConfigMap K m w3 = (None, w4)"
    "clCMs (V w4) (capabilitiesKey m) = Some cm"
  obtains cm0 where "clCMs (V w1) (capabilitiesKey m) = Some cm0" "startedAt cm = startedAt (teardownIntent t1 cm0)"
    "cmFinalizers cm = cmFinalizers cm0" "cmDeletionTimestamp cm \<noteq> None" "flagsDisabled cm"
proof -
  obtain cm3 where cm3: "clCMs (V w3) (capabilitiesKey m) = Some cm3" "cmDeletionTimestamp cm \<noteq> None"
    "flagsDisabled cm = flagsDisabled cm3" "startedAt cm = startedAt cm3" "cmFinalizers cm = cmFinalizers cm3"
    using assms(1,4,5) by (rule delete_post)
  then have "clCMs (V w2) (capabilitiesKey m) = Some cm3"
    by (simp add: trigger_frame(2) [OF assms(1,3)])
  with assms(1,2) obtain cm0 where "clCMs (V w1) (capabilitiesKey m) = Some cm0" "markedFrom t1 cm0 cm3"
    by (rule mark_post)
  with cm3 that [of cm0] show thesis by (simp add: markedFrom_def)
qed

lemma timedOut_cong: "startedAt a = startedAt b \<Longrightarrow> timedOut now a = timedOut now b"
  by (simp add: timedOut_def)

text \<open>A wait that lets a held ConfigMap pass has seen the timeout of the start its run records.\<close>

lemma wait_passed:
  assumes laws: "kube_laws K V" "recorder_laws m V"
    and steps: "removeDataRegistryLabel K w = (None, w1)" "markCapabilitiesDisabled K m t1 w1 = (None, w2)"
      "triggerCapabilityRolloutIfNeeded K m w2 = (None, w3)" "deleteCapabilitiesConfigMap K m w3 = (None, w4)"
      "waitForFeastOperatorRelease K m t2 w4 = (None, w5)"
    and cm0: "clCMs (V w) (capabilitiesKey m) = Some cm0" "heldByFeast cm0"
  shows "timedOut t2 (teardownIntent t1 cm0)"
proof -
  have "handover m (V w) (V w4)"
    using removing.step_handover [OF laws steps(1)] marking.step_handover [OF laws steps(2)]
      rolling.step_handover [OF laws steps(3)] deleting.step_handover [OF laws steps(4)]
    by (blast intro: handover_trans)
  with cm0 obtain cm4 where cm4: "clCMs (V w4) (capabilitiesKey m) = Some cm4" "heldByFeast cm4"
    by (auto simp: handover_def custody_def)
  with waitForFeastOperatorRelease_effect(2) [OF laws steps(5)] have "timedOut t2 cm4" by simp
  moreover have "startedAt cm4 = startedAt (teardownIntent t1 cm0)"
    using intent_traced [OF laws(1) steps(2-4) cm4(1)] cm0(1) unlabel_post(2) [OF laws(1) steps(1)]
    by (metis option.inject)
  ultimately show ?thesis by (metis timedOut_cong)
qed

lemma releaseHandover_success:
  assumes laws: "kube_laws K V" "recorder_laws m V" and run: "releaseHandover K m t1 t2 w = (None, w')"
  shows "\<not> registryAdvertised (V w')"
    and "clCMs (V w') (capabilitiesKey m) = Some cm \<Longrightarrow> handedOver t2 cm"
    and "clCMs (V w) (capabilitiesKey m) = Some cm0 \<Longrightarrow> heldByFeast cm0 \<Longrightarrow> timedOut t2 (teardownIntent t1 cm0)"
proof -
  obtain w1 w2 w3 w4 w5 where steps: "removeDataRegistryLabel K w = (None, w1)"
    "markCapabilitiesDisabled K m t1 w1 = (None, w2)" "triggerCapabilityRolloutIfNeeded K m w2 = (None, w3)"
    "deleteCapabilitiesConfigMap K m w3 = (None, w4)" "waitForFeastOperatorRelease K m t2 w4 = (None, w5)"
    "releaseCapabilitiesConfigMap K m w5 = (None, w')"
    using run by (rule releaseHandover_steps)
  note unlabel = unlabel_post [OF laws(1) steps(1)] and roll = trigger_frame [OF laws(1) steps(3)]
    and wait = waitForFeastOperatorRelease_effect [OF laws steps(5)]
    and traced = intent_traced [OF laws(1) steps(2-4)]
  show "\<not> registryAdvertised (V w')"
    using unlabel(1) mark_namespaces [OF laws(1) steps(2)] roll(1) delete_namespaces [OF laws(1) steps(4)]
      wait(1) release_namespaces [OF laws(1) steps(6)] by (simp add: registryAdvertised_def)
  show "handedOver t2 cm" if "clCMs (V w') (capabilitiesKey m) = Some cm"
  proof -
    from laws(1) steps(6) that
    obtain cm4 where cm4: "clCMs (V w5) (capabilitiesKey m) = Some cm4" "\<not> heldByModule cm" "same_cm (released cm4) cm"
      by (rule release_post)
    then have "clCMs (V w4) (capabilitiesKey m) = Some cm4" using wait(1) by simp
    then obtain "cmDeletionTimestamp cm4 \<noteq> None" "flagsDisabled cm4" "heldByFeast cm4 \<longrightarrow> timedOut t2 cm4"
      using traced [of cm4] wait(2) by blast
    with cm4(2) same_cm_derived [OF cm4(3)] timedOut_cong [of "released cm4" cm4] show ?thesis
      by (simp add: handedOver_def)
  qed
  show "timedOut t2 (teardownIntent t1 cm0)"
    if "clCMs (V w) (capabilitiesKey m) = Some cm0" "heldByFeast cm0"
    using laws steps(1-5) that by (rule wait_passed)
qed

section \<open>The finalizer\<close>

lemma cleanup_steps:
  assumes "cleanupClusterResources K m t1 t2 rr w = (None, w')"
  obtains w1 w2 where "releaseHandover K m t1 t2 w = (None, w1)"
    "deleteListed (listCRBs K) (deleteCRB K) ''ClusterRoleBinding'' (componentSelector K) w1 = (None, w2)"
    "deleteListed (listCRs K) (deleteCR K) ''ClusterRole'' (componentSelector K) w2 = (None, w')"
  using assms by (auto simp: cleanupClusterResources_def split: instance_obj.splits elim!: andThen_okE)

lemma carries_component: "carries (componentSelector K) x \<longleftrightarrow> gm_lookup (rbacLabels x) (componentLabel K componentName) = Some (labelTrue K)"
  by (simp add: carries_def componentSelector_def)

lemma cleanup_success:
  assumes laws: "kube_laws K V" "recorder_laws m V" and run: "cleanupClusterResources K m t1 t2 rr w = (None, w')"
  shows "\<not> registryAdvertised (V w')"
    and "clCMs (V w') (capabilitiesKey m) = Some cm \<Longrightarrow> handedOver t2 cm"
    and "x \<in> set (clCRBs (V w')) \<union> set (clCRs (V w')) \<Longrightarrow> \<not> carries (componentSelector K) x"
    and "clCMs (V w) (capabilitiesKey m) = Some cm0 \<Longrightarrow> heldByFeast cm0 \<Longrightarrow> timedOut t2 (teardownIntent t1 cm0)"
proof -
  obtain w1 w2 where steps: "releaseHandover K m t1 t2 w = (None, w1)"
    "deleteListed (listCRBs K) (deleteCRB K) ''ClusterRoleBinding'' (componentSelector K) w1 = (None, w2)"
    "deleteListed (listCRs K) (deleteCR K) ''ClusterRole'' (componentSelector K) w2 = (None, w')"
    using run by (rule cleanup_steps)
  obtain M N where frame: "V w2 = crbs.without M (V w1)" "V w' = crs.without N (V w2)"
    using crbs.deleteListed_removes [OF laws(1) steps(2)] crs.deleteListed_removes [OF laws(1) steps(3)] by blast
  then have same: "clNSs (V w') = clNSs (V w1)" "clCMs (V w') = clCMs (V w1)" "clCRBs (V w') = clCRBs (V w2)"
    by (simp_all add: crbs.without_def crs.without_def)
  note handed = releaseHandover_success [OF laws steps(1)]
  show "\<not> registryAdvertised (V w')" using handed(1) same by (simp add: registryAdvertised_def)
  show "handedOver t2 cm" if "clCMs (V w') (capabilitiesKey m) = Some cm" using handed(2) that same by simp
  show "\<not> carries (componentSelector K) x" if "x \<in> set (clCRBs (V w')) \<union> set (clCRs (V w'))"
    using that same(3) crbs.deleteListed_complete [OF laws(1) steps(2)] crs.deleteListed_complete [OF laws(1) steps(3)]
    by auto
  show "timedOut t2 (teardownIntent t1 cm0)"
    if "clCMs (V w) (capabilitiesKey m) = Some cm0" "heldByFeast cm0"
    using handed(3) that .
qed

text \<open>The finalizer fails inside the hand-over, or it deletes labelled RBAC objects after it.\<close>

lemma cleanup_cases:
  assumes laws: "kube_laws K V" "recorder_laws m V" and run: "cleanupClusterResources K m t1 t2 rr w = (r, w')"
  obtains (refused) "r \<noteq> None" "handover m (V w) (V w')"
  | (reached) w1 M N where "releaseHandover K m t1 t2 w = (None, w1)" "handover m (V w) (V w1)"
      "M \<subseteq> rbacName ` {x \<in> set (clCRBs (V w)). carries (componentSelector K) x}"
      "N \<subseteq> rbacName ` {x \<in> set (clCRs (V w)). carries (componentSelector K) x}"
      "V w' = crs.without N (crbs.without M (V w1))"
proof (cases "rrInstance rr")
  case OtherInst
  with run refused show thesis by (auto simp: cleanupClusterResources_def)
next
  case (FeastInst feast)
  obtain r1 w1 where hand: "releaseHandover K m t1 t2 w = (r1, w1)" by fastforce
  note ho = releaseHandover_handover [OF laws hand]
  have rbac: "clCRBs (V w1) = clCRBs (V w)" "clCRs (V w1) = clCRs (V w)"
    using ho by (simp_all add: handover_def scope_def)
  show thesis
  proof (cases r1)
    case (Some e)
    with run FeastInst hand ho refused show thesis by (auto simp: cleanupClusterResources_def)
  next
    case None
    let ?crbs = "deleteListed (listCRBs K) (deleteCRB K) ''ClusterRoleBinding'' (componentSelector K)"
    let ?crs = "deleteListed (listCRs K) (deleteCR K) ''ClusterRole'' (componentSelector K)"
    obtain r2 w2 where del: "?crbs w1 = (r2, w2)" by fastforce
    obtain M where M: "M \<subseteq> rbacName ` {x \<in> set (clCRBs (V w)). carries (componentSelector K) x}" "V w2 = crbs.without M (V w1)"
      using crbs.deleteListed_removes [OF laws(1) del] rbac by auto
    have "andThen ?crbs ?crs w1 = (r, w')"
      using run FeastInst hand None by (simp add: cleanupClusterResources_def)
    then have "r2 \<noteq> None \<and> w' = w2 \<or> r2 = None \<and> ?crs w2 = (r, w')"
      using del by (cases r2) auto
    then show thesis
    proof
      assume "r2 \<noteq> None \<and> w' = w2"
      with M hand None ho show thesis by (intro reached [of w1 M "{}"]) simp_all
    next
      assume "r2 = None \<and> ?crs w2 = (r, w')"
      moreover have "clCRs (V w2) = clCRs (V w)" using M(2) rbac by (simp add: crbs.without_def)
      ultimately obtain N where "N \<subseteq> rbacName ` {x \<in> set (clCRs (V w)). carries (componentSelector K) x}"
        "V w' = crs.without N (V w2)"
        using crs.deleteListed_removes [OF laws(1), of "''ClusterRole''" "componentSelector K" w2 r w'] by auto
      with M hand None ho show thesis by (intro reached [of w1 M N]) simp_all
    qed
  qed
qed

end
