(* ===== verification/CleanupProgress.thy ===== *)
theory CleanupProgress
  imports CleanupProofs
begin

text \<open>
  Progress of the finalizer: on an API server that answers, no step fails, the wait excepted; and
  the wait ends when the feast operator lets go or the timeout has passed.
\<close>

section \<open>Single requests\<close>

lemma availableD:
  assumes "kube_available K V"
  shows "answers (getCM K) V clCMs" "answers (getNS K) V clNSs" "answers (getDeploy K) V clDeploys"
    "clCMs (V w) (cmKey cm) \<noteq> None \<Longrightarrow> fst (updateCM K cm w) = None"
    "clCMs (V w) (cmKey cm) \<noteq> None \<Longrightarrow> fst (deleteCM K cm w) = None"
    "clNSs (V w) (nsName b) \<noteq> None \<Longrightarrow> fst (patchNS K a b w) = None"
    "clDeploys (V w) (depKey d') \<noteq> None \<Longrightarrow> fst (patchDeploy K d d' w) = None"
    "\<exists>xs. fst (listCRBs K ps w) = Inr xs" "\<exists>xs. fst (listCRs K ps w) = Inr xs"
    "ignoreNotFound (fst (deleteCRB K x w)) = None" "ignoreNotFound (fst (deleteCR K x w)) = None"
  using assms unfolding kube_available_def by blast+

lemma answersD:
  assumes "answers get V sel"
  obtains (found) ob where "fst (get k w) = Inr ob" "sel (V w) k = Some ob"
  | (missing) e where "fst (get k w) = Inl e" "isNotFound e" "sel (V w) k = None"
  using assms unfolding answers_def by (metis option.exhaust)

lemma andThen_progress: "fst (a w) = None \<Longrightarrow> fst (b (snd (a w))) = None \<Longrightarrow> fst (andThen a b w) = None"
  by (cases "a w") simp

lemma wrapErr_progress: "fst (a w) = None \<Longrightarrow> fst (wrapErr msg a w) = None"
  by (cases "a w") (simp add: wrapErr_def)

lemma withCapabilities_progress:
  assumes "kube_laws K V" "kube_available K V"
    and "\<And>cm w1. clCMs (V w) (capabilitiesKey m) = Some cm \<Longrightarrow> cmKey cm = capabilitiesKey m \<Longrightarrow>
           V w1 = V w \<Longrightarrow> fst (h cm w1) = None"
  shows "fst (withCapabilities K m h w) = None"
proof (cases "getCM K (capabilitiesKey m) w")
  case (Pair g w1)
  note read = getCM_reads [OF assms(1) Pair]
  from availableD(1) [OF assms(2)] show ?thesis
  proof (cases rule: answersD [where k = "capabilitiesKey m" and w = w])
    case (found ob)
    then have "g = Inr ob" using Pair by simp
    with found read(1) read(2) [of ob] have "fst (h ob w1) = None" by (intro assms(3)) simp_all
    with Pair \<open>g = Inr ob\<close> show ?thesis
      by (simp add: withCapabilities_def getCapabilitiesConfigMap_def)
  next
    case (missing e)
    with Pair show ?thesis by (simp add: withCapabilities_def getCapabilitiesConfigMap_def)
  qed
qed

section \<open>The steps\<close>

lemma removeDataRegistryLabel_progress:
  assumes "kube_laws K V" "kube_available K V"
  shows "fst (removeDataRegistryLabel K w) = None"
proof (cases "getNS K dataRegistryNamespaceName w")
  case (Pair g w1)
  note read = getNS_reads [OF assms(1) Pair]
  from availableD(2) [OF assms(2)] show ?thesis
  proof (cases rule: answersD [where k = dataRegistryNamespaceName and w = w])
    case (found ns)
    let ?ns = "ns\<lparr>nsLabels := gm_delete dataRegistryEnabledLabelKey (nsLabels ns)\<rparr>"
    from found Pair read(1) read(2) [of ns] have "clNSs (V w1) (nsName ?ns) \<noteq> None" by simp
    then have "fst (patchNS K ns ?ns w1) = None" by (rule availableD(6) [OF assms(2)])
    with found Pair show ?thesis by (simp add: removeDataRegistryLabel_def wrapErr_progress)
  next
    case (missing e)
    with Pair show ?thesis by (simp add: removeDataRegistryLabel_def)
  qed
qed

lemma markCapabilitiesDisabled_progress:
  assumes "kube_laws K V" "kube_available K V"
  shows "fst (markCapabilitiesDisabled K m now w) = None"
  unfolding markCapabilitiesDisabled_def using assms
  by (rule withCapabilities_progress) (simp add: wrapErr_progress availableD(4) [OF assms(2)])

lemma deleteCapabilitiesConfigMap_progress:
  assumes "kube_laws K V" "kube_available K V"
  shows "fst (deleteCapabilitiesConfigMap K m w) = None"
  unfolding deleteCapabilitiesConfigMap_def using assms
proof (rule withCapabilities_progress)
  fix cm w1
  assume "clCMs (V w) (capabilitiesKey m) = Some cm" "cmKey cm = capabilitiesKey m" "V w1 = V w"
  then have "fst (deleteCM K cm w1) = None" by (intro availableD(5) [OF assms(2)]) simp
  then show "fst (if cmDeletionTimestamp cm \<noteq> None then (None, w1)
      else (case deleteCM K cm w1 of (r, w') \<Rightarrow> case ignoreNotFound r of None \<Rightarrow> (None, w')
        | Some _ \<Rightarrow> (map_option (Wrapped (''failed to delete capabilities ConfigMap '' @ capabilitiesConfigMapName)) r, w'))) = None"
    by (cases "deleteCM K cm w1") simp
qed

lemma releaseCapabilitiesConfigMap_progress:
  assumes "kube_laws K V" "kube_available K V"
  shows "fst (releaseCapabilitiesConfigMap K m w) = None"
  unfolding releaseCapabilitiesConfigMap_def using assms
  by (rule withCapabilities_progress)
    (simp add: wrapErr_progress availableD(4) [OF assms(2)] finalizer_ops [OF assms(1)])

lemma waitForFeastOperatorRelease_progress:
  assumes "kube_laws K V" "kube_available K V"
    and "\<And>cm. clCMs (V w) (capabilitiesKey m) = Some cm \<Longrightarrow> heldByFeast cm \<Longrightarrow>
           cmDeletionTimestamp cm \<noteq> None \<and> timedOut now cm"
  shows "fst (waitForFeastOperatorRelease K m now w) = None"
  unfolding waitForFeastOperatorRelease_def using assms(1,2)
  by (rule withCapabilities_progress)
    (use assms(3) in \<open>auto simp: finalizer_ops [OF assms(1)] heldByFeast_def timedOut_def Let_def split: option.splits\<close>)

lemma triggerCapabilityRolloutIfNeeded_progress:
  assumes "kube_laws K V" "kube_available K V"
  shows "fst (triggerCapabilityRolloutIfNeeded K m w) = None"
proof (cases "getCM K (capabilitiesKey m) w")
  case (Pair g w1)
  note read = getCM_reads [OF assms(1) Pair]
  from availableD(1) [OF assms(2)] show ?thesis
  proof (cases rule: answersD [where k = "capabilitiesKey m" and w = w])
    case (missing e)
    with Pair show ?thesis by (simp add: triggerCapabilityRolloutIfNeeded_def)
  next
    case cm: (found cm)
    obtain gd w2 where gd: "getDeploy K (deploymentKey m) w1 = (gd, w2)" by fastforce
    note readd = getDeploy_reads [OF assms(1) gd]
    from availableD(3) [OF assms(2)] show ?thesis
    proof (cases rule: answersD [where k = "deploymentKey m" and w = w1])
      case (missing e)
      with Pair cm gd show ?thesis by (simp add: triggerCapabilityRolloutIfNeeded_def Let_def)
    next
      case (found d)
      have "fst (patchDeploy K d (d\<lparr>depTemplateAnnotations := a\<rparr>) w2) = None" for a
        using found gd readd(1) readd(2) [of d]
        by (intro availableD(7) [OF assms(2)]) (simp add: depKey_def)
      with Pair cm gd found show ?thesis
        by (simp add: triggerCapabilityRolloutIfNeeded_def Let_def wrapErr_progress)
    qed
  qed
qed

lemma forEach_progress: "(\<And>x w. fst (f x w) = None) \<Longrightarrow> fst (forEach f xs w) = None"
  by (induction xs arbitrary: w) (simp_all add: andThen_progress)

lemma deleteListed_progress:
  assumes "\<exists>xs. fst (lister ps w) = Inr xs" "\<And>x w. ignoreNotFound (fst (deleter x w)) = None"
  shows "fst (deleteListed lister deleter kind ps w) = None"
proof -
  obtain xs w1 where ls: "lister ps w = (Inr xs, w1)" using assms(1) by (cases "lister ps w") auto
  have "fst (case deleter x v of (r, v') \<Rightarrow> case ignoreNotFound r of None \<Rightarrow> (None, v')
      | Some _ \<Rightarrow> (map_option (Wrapped (''failed to delete '' @ kind @ '' '' @ rbacName x)) r, v')) = None" for x v
    using assms(2) [of x v] by (cases "deleter x v") simp
  with ls show ?thesis by (simp add: deleteListed_def forEach_progress)
qed

section \<open>The finalizer\<close>

lemma releaseHandover_progress:
  assumes laws: "kube_laws K V" "kube_available K V" "recorder_laws m V"
    and over: "\<And>cm. clCMs (V w) (capabilitiesKey m) = Some cm \<Longrightarrow> heldByFeast cm \<Longrightarrow> timedOut t2 (teardownIntent t1 cm)"
  shows "fst (releaseHandover K m t1 t2 w) = None"
proof -
  obtain w1 where s1: "removeDataRegistryLabel K w = (None, w1)"
    using removeDataRegistryLabel_progress [OF laws(1,2)] by (metis prod.collapse)
  obtain w2 where s2: "markCapabilitiesDisabled K m t1 w1 = (None, w2)"
    using markCapabilitiesDisabled_progress [OF laws(1,2)] by (metis prod.collapse)
  obtain w3 where s3: "triggerCapabilityRolloutIfNeeded K m w2 = (None, w3)"
    using triggerCapabilityRolloutIfNeeded_progress [OF laws(1,2)] by (metis prod.collapse)
  obtain w4 where s4: "deleteCapabilitiesConfigMap K m w3 = (None, w4)"
    using deleteCapabilitiesConfigMap_progress [OF laws(1,2)] by (metis prod.collapse)
  have "cmDeletionTimestamp cm \<noteq> None \<and> timedOut t2 cm"
    if cm: "clCMs (V w4) (capabilitiesKey m) = Some cm" "heldByFeast cm" for cm
  proof -
    obtain cm0 where cm0: "clCMs (V w1) (capabilitiesKey m) = Some cm0" "cmFinalizers cm = cmFinalizers cm0"
      "startedAt cm = startedAt (teardownIntent t1 cm0)" "cmDeletionTimestamp cm \<noteq> None"
      using laws(1) s2 s3 s4 cm(1) by (rule intent_traced)
    then have "timedOut t2 (teardownIntent t1 cm0)"
      using over [of cm0] cm(2) unlabel_post(2) [OF laws(1) s1] by (simp add: heldByFeast_def)
    with cm0 show ?thesis by (metis timedOut_cong)
  qed
  then obtain w5 where s5: "waitForFeastOperatorRelease K m t2 w4 = (None, w5)"
    using waitForFeastOperatorRelease_progress [OF laws(1,2)] by (metis prod.collapse)
  show ?thesis
    unfolding releaseHandover_def using s1 s2 s3 s4 s5 releaseCapabilitiesConfigMap_progress [OF laws(1,2)]
    by simp
qed

lemma cleanup_progress:
  assumes laws: "kube_laws K V" "kube_available K V" "recorder_laws m V"
    and "rrInstance rr = FeastInst feast"
    and over: "\<And>cm. clCMs (V w) (capabilitiesKey m) = Some cm \<Longrightarrow> heldByFeast cm \<Longrightarrow> timedOut t2 (teardownIntent t1 cm)"
  shows "fst (cleanupClusterResources K m t1 t2 rr w) = None"
  using assms(4) releaseHandover_progress [OF laws, of w t2 t1] over
    deleteListed_progress [OF availableD(8) [OF laws(2)] availableD(10) [OF laws(2)]]
    deleteListed_progress [OF availableD(9) [OF laws(2)] availableD(11) [OF laws(2)]]
  by (auto simp: cleanupClusterResources_def intro!: andThen_progress)

section \<open>When the timeout has passed\<close>

text \<open>The start of the wait is the marking time, cut to the second by the format of the annotation.\<close>

lemma timedOut_fresh:
  assumes "startedAt cm = []" "0 \<le> yearOf t1" "yearOf t1 < 10000"
  shows "timedOut t2 (teardownIntent t1 cm) \<longleftrightarrow> t1 - t1 mod second + 5 * minute \<le> t2"
proof -
  have "timedOut t2 (teardownIntent t1 cm) \<longleftrightarrow> \<not> since t2 (t1 - t1 mod second) < 5 * minute"
    using assms by (simp add: timedOut_def parse_format feastOperatorReleaseTimeout_def not_less)
  also have "\<dots> \<longleftrightarrow> \<not> t2 - (t1 - t1 mod second) < 5 * minute"
    by (subst since_less) (simp_all add: minute_def second_def minDuration_def maxDuration_def)
  finally show ?thesis by (simp only: not_less le_diff_eq add.commute)
qed

lemma timedOut_marked:
  assumes "startedAt cm \<noteq> []" "parseRFC3339 (startedAt cm) = Some t0"
  shows "timedOut t2 (teardownIntent t1 cm) \<longleftrightarrow> feastOperatorReleaseTimeout \<le> since t2 t0"
  using assms by (simp add: timedOut_def)

end
