(* ===== verification/HandoverTrace.thy ===== *)
theory HandoverTrace
  imports CleanupProgress
begin

text \<open>
  What a run of the finalizer, successful or not, does to the capabilities ConfigMap: where the
  recorded start of the cleanup comes from, and when the module lets go of the object. The steps
  before the release keep every finalizer; they are instances of an extended step contract. The
  record of the first run survives the later ones.
\<close>

section \<open>Keeping the finalizers\<close>

text \<open>A ConfigMap held by the feast operator keeps its finalizers.\<close>

definition pinned :: "config_map option \<Rightarrow> config_map option \<Rightarrow> bool" where
  "pinned a b \<longleftrightarrow>
     (\<forall>cm. a = Some cm \<and> heldByFeast cm \<longrightarrow> (\<exists>cm'. b = Some cm' \<and> cmFinalizers cm' = cmFinalizers cm))"

lemma pinned_refl [simp, intro]: "pinned a a"
  by (simp add: pinned_def)

lemma pinned_trans: "pinned a b \<Longrightarrow> pinned b c \<Longrightarrow> pinned a c"
  unfolding pinned_def heldByFeast_def by metis

lemma pinned_stored:
  "stored_as cm' x \<Longrightarrow> cmFinalizers cm' = cmFinalizers cm \<Longrightarrow> pinned (Some cm) x"
  by (auto simp: pinned_def stored_as_def heldByFeast_def same_cm_fields split: if_splits)

locale holding_step = finalizer_step +
  assumes step_pins:
    "kube_laws K V \<Longrightarrow> recorder_laws m V \<Longrightarrow> step K m now w = (r, w') \<Longrightarrow>
       pinned (clCMs (V w) (capabilitiesKey m)) (clCMs (V w') (capabilitiesKey m))"
begin

lemma module_keeps_hold:
  assumes "kube_laws K V" "recorder_laws m V" "step K m now w = (r, w')"
    "clCMs (V w) (capabilitiesKey m) = Some cm" "heldByFeast cm"
  obtains cm' where "clCMs (V w') (capabilitiesKey m) = Some cm'" "heldByFeast cm'"
    "heldByModule cm' = heldByModule cm"
  using step_pins [OF assms(1-3)] assms(4,5) that by (auto simp: pinned_def heldByFeast_def heldByModule_def)

end

locale holding_steps = first: holding_step first_step + second: holding_step second_step
  for first_step second_step :: "'w kube \<Rightarrow> 'w module \<Rightarrow> time \<Rightarrow> 'w act"
begin

lemma both_pin:
  assumes "kube_laws K V" "recorder_laws m V" "andThen (first_step K m now) (second_step K m now') w = (r, w')"
  shows "pinned (clCMs (V w) (capabilitiesKey m)) (clCMs (V w') (capabilitiesKey m))"
proof (cases "first_step K m now w")
  case (Pair r1 w1)
  note pin = first.step_pins [OF assms(1,2) Pair]
  show ?thesis
  proof (cases r1)
    case None
    with Pair assms(3) have "second_step K m now' w1 = (r, w')" by simp
    with pin second.step_pins [OF assms(1,2)] show ?thesis by (blast intro: pinned_trans)
  next
    case (Some e)
    with Pair assms(3) pin show ?thesis by simp
  qed
qed

end

sublocale holding_steps \<subseteq> pair: finalizer_steps first_step second_step ..

sublocale holding_steps \<subseteq> held: holding_step "\<lambda>K m now. andThen (first_step K m now) (second_step K m now)"
  by unfold_locales (rule both_pin)

interpretation removing: holding_step "\<lambda>K m now. removeDataRegistryLabel K"
proof unfold_locales
  fix K :: "'a kube" and V m w r w'
  assume "kube_laws K V" "removeDataRegistryLabel K w = (r, w')"
  then show "pinned (clCMs (V w) (capabilitiesKey m)) (clCMs (V w') (capabilitiesKey m))"
    by (cases rule: removeDataRegistryLabel_effect) simp_all
qed

interpretation marking: holding_step markCapabilitiesDisabled
proof unfold_locales
  fix K :: "'a kube" and V m now w r w'
  assume "kube_laws K V" "markCapabilitiesDisabled K m now w = (r, w')"
  then show "pinned (clCMs (V w) (capabilitiesKey m)) (clCMs (V w') (capabilitiesKey m))"
  proof (cases rule: markCapabilitiesDisabled_effect)
    case (marked cm x)
    with pinned_stored [OF marked(3), of cm] show ?thesis by simp
  qed simp
qed

interpretation rolling: holding_step "\<lambda>K m now. triggerCapabilityRolloutIfNeeded K m"
  by unfold_locales (simp add: trigger_frame(2))

interpretation deleting: holding_step "\<lambda>K m now. deleteCapabilitiesConfigMap K m"
proof unfold_locales
  fix K :: "'a kube" and V m w r w'
  assume "kube_laws K V" "deleteCapabilitiesConfigMap K m w = (r, w')"
  then show "pinned (clCMs (V w) (capabilitiesKey m)) (clCMs (V w') (capabilitiesKey m))"
  proof (cases rule: deleteCapabilitiesConfigMap_effect)
    case (terminates cm t)
    then show ?thesis by (auto simp: pinned_def heldByFeast_def terminated_def)
  qed simp
qed

interpretation waiting: holding_step waitForFeastOperatorRelease
  by unfold_locales (simp add: waitForFeastOperatorRelease_effect(1))

interpretation intent: holding_steps "\<lambda>K m now. removeDataRegistryLabel K" markCapabilitiesDisabled ..

interpretation withdrawal: holding_steps "\<lambda>K m now. triggerCapabilityRolloutIfNeeded K m"
  "\<lambda>K m now. deleteCapabilitiesConfigMap K m" ..

interpretation gate: holding_steps
  "\<lambda>K m now. andThen (triggerCapabilityRolloutIfNeeded K m) (deleteCapabilitiesConfigMap K m)" waitForFeastOperatorRelease ..

interpretation before_release: holding_steps
  "\<lambda>K m now. andThen (removeDataRegistryLabel K) (markCapabilitiesDisabled K m now)"
  "\<lambda>K m now. andThen (andThen (triggerCapabilityRolloutIfNeeded K m) (deleteCapabilitiesConfigMap K m))
     (waitForFeastOperatorRelease K m now)" ..

section \<open>Dating the start of the cleanup\<close>

text \<open>Every ConfigMap afterwards was there before, and its start is the old one or the marking's.\<close>

definition dated :: "time \<Rightarrow> config_map option \<Rightarrow> config_map option \<Rightarrow> bool" where
  "dated t a b \<longleftrightarrow>
     (\<forall>cm'. b = Some cm' \<longrightarrow>
        (\<exists>cm. a = Some cm \<and> (startedAt cm' = startedAt cm \<or> startedAt cm' = startedAt (teardownIntent t cm))))"

lemma dated_refl [simp, intro]: "dated t a a"
  by (simp add: dated_def)

lemma dated_trans: "dated t a b \<Longrightarrow> dated t b c \<Longrightarrow> dated t a c"
  unfolding dated_def teardownIntent_fields by metis

lemma dated_stored:
  "stored_as cm' x \<Longrightarrow> startedAt cm' = startedAt cm \<or> startedAt cm' = startedAt (teardownIntent t cm) \<Longrightarrow> dated t (Some cm) x"
  by (auto simp: dated_def stored_as_def startedAt_def [of "_ :: config_map"] same_cm_fields split: if_splits)

definition datedIn :: "'w module \<Rightarrow> time \<Rightarrow> cluster \<Rightarrow> cluster \<Rightarrow> bool" where
  "datedIn m t a b \<longleftrightarrow> dated t (clCMs a (capabilitiesKey m)) (clCMs b (capabilitiesKey m))"

lemma datedIn_andThen:
  assumes "andThen f g w = (r, w')"
    and "\<And>w r w'. f w = (r, w') \<Longrightarrow> datedIn m t (V w) (V w')"
    and "\<And>w r w'. g w = (r, w') \<Longrightarrow> datedIn m t (V w) (V w')"
  shows "datedIn m t (V w) (V w')"
proof (cases "f w")
  case (Pair r1 w1)
  with assms show ?thesis by (cases r1) (fastforce simp: datedIn_def intro: dated_trans)+
qed

lemma steps_dated:
  assumes "kube_laws K V"
  shows "removeDataRegistryLabel K w = (r, w') \<Longrightarrow> datedIn m t (V w) (V w')"
    and "markCapabilitiesDisabled K m t w = (r, w') \<Longrightarrow> datedIn m t (V w) (V w')"
    and "triggerCapabilityRolloutIfNeeded K m w = (r, w') \<Longrightarrow> datedIn m t (V w) (V w')"
    and "deleteCapabilitiesConfigMap K m w = (r, w') \<Longrightarrow> datedIn m t (V w) (V w')"
    and "recorder_laws m V \<Longrightarrow> waitForFeastOperatorRelease K m t2 w = (r, w') \<Longrightarrow> datedIn m t (V w) (V w')"
    and "releaseCapabilitiesConfigMap K m w = (r, w') \<Longrightarrow> datedIn m t (V w) (V w')"
proof -
  show "datedIn m t (V w) (V w')" if "removeDataRegistryLabel K w = (r, w')"
    using assms that by (cases rule: removeDataRegistryLabel_effect) (simp_all add: datedIn_def)
  show "datedIn m t (V w) (V w')" if "markCapabilitiesDisabled K m t w = (r, w')"
    using assms that
  proof (cases rule: markCapabilitiesDisabled_effect)
    case (marked cm x)
    with dated_stored [OF marked(3), of cm t] show ?thesis by (simp add: datedIn_def)
  qed (simp add: datedIn_def)
  show "datedIn m t (V w) (V w')" if "triggerCapabilityRolloutIfNeeded K m w = (r, w')"
    using trigger_frame(2) [OF assms that] by (simp add: datedIn_def)
  show "datedIn m t (V w) (V w')" if "deleteCapabilitiesConfigMap K m w = (r, w')"
    using assms that
  proof (cases rule: deleteCapabilitiesConfigMap_effect)
    case (terminates cm u)
    then show ?thesis by (auto simp: datedIn_def dated_def dest: terminated_fields(3))
  qed (simp add: datedIn_def)
  show "datedIn m t (V w) (V w')" if "recorder_laws m V" "waitForFeastOperatorRelease K m t2 w = (r, w')"
    using waitForFeastOperatorRelease_effect(1) [OF assms that] by (simp add: datedIn_def)
  show "datedIn m t (V w) (V w')" if "releaseCapabilitiesConfigMap K m w = (r, w')"
    using assms that
  proof (cases rule: releaseCapabilitiesConfigMap_effect)
    case (removed cm x)
    with dated_stored [OF removed(3), of cm t] show ?thesis by (simp add: datedIn_def)
  qed (simp add: datedIn_def)
qed

lemma releaseHandover_dated:
  assumes "kube_laws K V" "recorder_laws m V" "releaseHandover K m t1 t2 w = (r, w')"
  shows "datedIn m t1 (V w) (V w')"
  using assms(3) unfolding releaseHandover_def
  by (elim datedIn_andThen steps_dated [OF assms(1)] steps_dated(5) [OF assms(1,2)])

section \<open>One run of the finalizer\<close>

lemma releaseHandover_custody:
  assumes laws: "kube_laws K V" "recorder_laws m V" and run: "releaseHandover K m t1 t2 w = (r, w')"
    and cm: "clCMs (V w) (capabilitiesKey m) = Some cm" "heldByFeast cm" "heldByModule cm"
  obtains cm' where "clCMs (V w') (capabilitiesKey m) = Some cm'" "heldByFeast cm'"
    "r = None \<or> \<not> heldByModule cm' \<longrightarrow> timedOut t2 cm'"
proof -
  let ?gate = "andThen (andThen (removeDataRegistryLabel K) (markCapabilitiesDisabled K m t1))
    (andThen (andThen (triggerCapabilityRolloutIfNeeded K m) (deleteCapabilitiesConfigMap K m)) (waitForFeastOperatorRelease K m t2))"
  have run': "andThen ?gate (releaseCapabilitiesConfigMap K m) w = (r, w')"
    using run by (simp only: releaseHandover_def andThen_assoc)
  obtain r5 w5 where gate: "?gate w = (r5, w5)" by fastforce
  obtain cm5 where cm5: "clCMs (V w5) (capabilitiesKey m) = Some cm5" "cmFinalizers cm5 = cmFinalizers cm"
    using before_release.both_pin [OF laws gate] cm(1,2) by (auto simp: pinned_def)
  with cm have held5: "heldByFeast cm5" "heldByModule cm5" by (simp_all add: heldByFeast_def heldByModule_def)
  show thesis
  proof (cases r5)
    case (Some e)
    with run' gate have "w' = w5" "r = Some e" by auto
    with cm5(1) held5 that [of cm5] show thesis by simp
  next
    case None
    with gate obtain w4 where wait: "waitForFeastOperatorRelease K m t2 w4 = (None, w5)"
      by (auto elim!: andThen_okE)
    have "timedOut t2 cm5"
      using waitForFeastOperatorRelease_effect [OF laws wait] cm5(1) held5(1) by simp
    then have "startedAt cm5 \<noteq> []" by (auto simp: timedOut_def parseRFC3339_def getYear_def)
    moreover have rel: "releaseCapabilitiesConfigMap K m w5 = (r, w')" using run' gate None by simp
    ultimately obtain cm' where "clCMs (V w') (capabilitiesKey m) = Some cm'" "heldByFeast cm'" "startedAt cm' = startedAt cm5"
      using releasing.still_held [OF laws rel cm5(1) held5(1)] by metis
    with \<open>timedOut t2 cm5\<close> that [of cm'] timedOut_cong show thesis by metis
  qed
qed

text \<open>A hand-over whose wait is not over fails before the release, so nobody loses a finalizer.\<close>

lemma releaseHandover_waiting:
  assumes laws: "kube_laws K V" "recorder_laws m V" and run: "releaseHandover K m t1 t2 w = (r, w')"
    and cm: "clCMs (V w) (capabilitiesKey m) = Some cm" "heldByFeast cm" "\<not> timedOut t2 (teardownIntent t1 cm)"
  shows "r \<noteq> None" "pinned (clCMs (V w) (capabilitiesKey m)) (clCMs (V w') (capabilitiesKey m))"
proof -
  let ?gate = "andThen (andThen (removeDataRegistryLabel K) (markCapabilitiesDisabled K m t1))
    (andThen (andThen (triggerCapabilityRolloutIfNeeded K m) (deleteCapabilitiesConfigMap K m)) (waitForFeastOperatorRelease K m t2))"
  have run': "andThen ?gate (releaseCapabilitiesConfigMap K m) w = (r, w')"
    using run by (simp only: releaseHandover_def andThen_assoc)
  obtain r5 w5 where gate: "?gate w = (r5, w5)" by fastforce
  have "r5 \<noteq> None"
  proof
    assume "r5 = None"
    with gate obtain w1 w2 w3 w4 where "removeDataRegistryLabel K w = (None, w1)"
      "markCapabilitiesDisabled K m t1 w1 = (None, w2)" "triggerCapabilityRolloutIfNeeded K m w2 = (None, w3)"
      "deleteCapabilitiesConfigMap K m w3 = (None, w4)" "waitForFeastOperatorRelease K m t2 w4 = (None, w5)"
      by (auto elim!: andThen_okE)
    from wait_passed [OF laws this cm(1,2)] cm(3) show False by contradiction
  qed
  with run' gate have "r = r5" "w' = w5" by auto
  with \<open>r5 \<noteq> None\<close> before_release.both_pin [OF laws gate]
  show "r \<noteq> None" "pinned (clCMs (V w) (capabilitiesKey m)) (clCMs (V w') (capabilitiesKey m))"
    by simp_all
qed

text \<open>The finalizer, seen from the ConfigMap and the cluster RBAC objects.\<close>

lemma cleanup_from_handover:
  assumes laws: "kube_laws K V" "recorder_laws m V" and ended: "cleanupClusterResources K m t1 t2 rr w = (r, w')"
  obtains (unknown) "rrInstance rr = OtherInst" "r \<noteq> None" "V w' = V w"
  | (reached) r1 w1 where "releaseHandover K m t1 t2 w = (r1, w1)" "clCMs (V w') = clCMs (V w1)"
      "r1 \<noteq> None \<Longrightarrow> clCRBs (V w') = clCRBs (V w) \<and> clCRs (V w') = clCRs (V w)"
proof (cases "rrInstance rr")
  case OtherInst
  with ended have "r \<noteq> None" "w' = w" by (auto simp: cleanupClusterResources_def)
  with unknown OtherInst show thesis by simp
next
  case (FeastInst feast)
  obtain r1 w1 where hand: "releaseHandover K m t1 t2 w = (r1, w1)" by fastforce
  show thesis
  proof (cases r1)
    case (Some e)
    with FeastInst hand ended have "w' = w1" by (simp add: cleanupClusterResources_def)
    with hand releaseHandover_handover [OF laws hand] that(2) show thesis by (simp add: handover_def scope_def)
  next
    case None
    from laws ended show thesis
    proof (cases rule: cleanup_cases)
      case refused
      have "clCMs (V w') = clCMs (V w1)"
        using FeastInst hand None ended
        by (auto simp: cleanupClusterResources_def andThen_def split: prod.splits option.splits
            dest!: crbs.deleteListed_removes [OF laws(1)] crs.deleteListed_removes [OF laws(1)]
            simp: crbs.without_def crs.without_def)
      with hand None that(2) show thesis by simp
    next
      case (reached w2 M N)
      with hand None that(2) [of r1 w1] show thesis by (simp add: crbs.without_def crs.without_def)
    qed
  qed
qed

section \<open>The record survives\<close>

lemma cleanup_custody:
  assumes "kube_laws K V" "recorder_laws m V" "cleanupClusterResources K m t1 t2 rr w = (r, w')"
  shows "custody (clCMs (V w) (capabilitiesKey m)) (clCMs (V w') (capabilitiesKey m))"
  using assms
proof (cases rule: cleanup_cases)
  case (reached w1 M N)
  then show ?thesis by (simp add: handover_def crbs.without_def crs.without_def)
qed (simp add: handover_def)

lemma recorded_nonempty: "startedAt (teardownIntent t cm) \<noteq> []"
  by simp

text \<open>On a server that answers, the first run leaves its record, however it ends.\<close>

lemma cleanup_records:
  assumes laws: "kube_laws K V" "recorder_laws m V" and available: "kube_available K V"
    and rr: "rrInstance rr = FeastInst feast" and run: "cleanupClusterResources K m t1 t2 rr w = (r, w')"
    and cm: "clCMs (V w) (capabilitiesKey m) = Some cm" "heldByFeast cm"
  obtains cm' where "clCMs (V w') (capabilitiesKey m) = Some cm'" "heldByFeast cm'"
    "startedAt cm' = startedAt (teardownIntent t1 cm)"
proof -
  let ?rest = "andThen (triggerCapabilityRolloutIfNeeded K m) (andThen (deleteCapabilitiesConfigMap K m)
    (andThen (waitForFeastOperatorRelease K m t2) (releaseCapabilitiesConfigMap K m)))"
  obtain w1 where s1: "removeDataRegistryLabel K w = (None, w1)"
    using removeDataRegistryLabel_progress [OF laws(1) available] by (metis prod.collapse)
  obtain w2 where s2: "markCapabilitiesDisabled K m t1 w1 = (None, w2)"
    using markCapabilitiesDisabled_progress [OF laws(1) available] by (metis prod.collapse)
  have cm1: "clCMs (V w1) (capabilitiesKey m) = Some cm" using cm(1) unlabel_post(2) [OF laws(1) s1] by simp
  obtain cm2 where cm2: "clCMs (V w2) (capabilitiesKey m) = Some cm2" "heldByFeast cm2"
    using marking.still_held [OF laws s2 cm1 cm(2)] by metis
  have start: "startedAt cm2 = startedAt (teardownIntent t1 cm)"
    using mark_post [OF laws(1) s2 cm2(1)] cm1 by (metis markedFrom_def option.inject)
  obtain r3 w3 where hand: "releaseHandover K m t1 t2 w = (r3, w3)" by fastforce
  then have "?rest w2 = (r3, w3)" using s1 s2 by (simp add: releaseHandover_def)
  then have "handover m (V w2) (V w3)" by (rule roll_delete.both_handover [OF laws])
  moreover have "startedAt cm2 \<noteq> []" by (simp only: start recorded_nonempty not_False_eq_True)
  ultimately obtain cm3 where cm3: "clCMs (V w3) (capabilitiesKey m) = Some cm3" "heldByFeast cm3"
    "startedAt cm3 = startedAt (teardownIntent t1 cm)" using cm2 start by (auto simp: handover_def custody_def)
  from laws run show thesis
  proof (cases rule: cleanup_from_handover)
    case (reached r4 w4)
    with hand cm3 that [of cm3] show thesis by simp
  qed (use rr in simp)
qed

text \<open>Later runs keep it, as long as the feast operator holds the ConfigMap.\<close>

lemma reruns_custody:
  assumes "kube_laws K V" "recorder_laws m V"
    and "(\<lambda>a b. \<exists>rr t t' r. cleanupClusterResources K m t t' rr a = (r, b))\<^sup>*\<^sup>* w w'"
  shows "custody (clCMs (V w) (capabilitiesKey m)) (clCMs (V w') (capabilitiesKey m))"
  using assms(3)
proof (induction rule: rtranclp_induct)
  case (step a b)
  then show ?case using cleanup_custody [OF assms(1,2)] by (blast intro: custody_trans)
qed simp

end
