(* ===== verification/DemoServer.thy ===== *)
theory DemoServer
  imports Kube
begin

text \<open>
  A concrete API server: lists of stored objects with functions on them. It satisfies \<open>kube_laws\<close>
  and \<open>kube_available\<close>, which shows that the two can hold together, and the witnesses run the
  handlers on it.
\<close>

record demo =
  dCMs :: "config_map list"
  dNSs :: "knamespace list"
  dDeploys :: "deployment list"
  dCRBs :: "rbac_object list"
  dCRs :: "rbac_object list"
  dEvents :: "event list"

section \<open>Keyed lists\<close>

definition putBy :: "('o \<Rightarrow> 'k) \<Rightarrow> 'o \<Rightarrow> 'o list \<Rightarrow> 'o list" where
  "putBy key x xs = x # filter (\<lambda>y. key y \<noteq> key x) xs"

definition dropBy :: "('o \<Rightarrow> 'k) \<Rightarrow> 'k \<Rightarrow> 'o list \<Rightarrow> 'o list" where
  "dropBy key k xs = filter (\<lambda>y. key y \<noteq> k) xs"

definition storedBy :: "('o \<Rightarrow> 'k) \<Rightarrow> 'o list \<Rightarrow> 'k \<Rightarrow> 'o option" where
  "storedBy key xs k = find (\<lambda>y. key y = k) xs"

lemma find_dropBy: "find (\<lambda>y. key y = k) (filter (\<lambda>y. key y \<noteq> k') xs) = (if k = k' then None else find (\<lambda>y. key y = k) xs)"
  by (induction xs) auto

lemma storedBy_put [simp]: "storedBy key (putBy key x xs) = (storedBy key xs)(key x \<mapsto> x)"
  by (rule ext) (simp add: storedBy_def putBy_def find_dropBy)

lemma storedBy_drop [simp]: "storedBy key (dropBy key k xs) = (storedBy key xs)(k := None)"
  by (rule ext) (simp add: storedBy_def dropBy_def find_dropBy)

lemma storedBy_key: "storedBy key xs k = Some x \<Longrightarrow> key x = k"
  by (auto simp: storedBy_def find_Some_iff)

section \<open>The server\<close>

definition demoView :: "demo \<Rightarrow> cluster" where
  "demoView w =
     \<lparr>clCMs = storedBy cmKey (dCMs w), clNSs = storedBy nsName (dNSs w),
      clDeploys = storedBy depKey (dDeploys w), clCRBs = dCRBs w, clCRs = dCRs w\<rparr>"

definition demoGet :: "('o \<Rightarrow> 'k) \<Rightarrow> (demo \<Rightarrow> 'o list) \<Rightarrow> 'k \<Rightarrow> (demo, 'o) call" where
  "demoGet key field k w =
     (case storedBy key (field w) k of
        None \<Rightarrow> (Inl (Api NotFound), w)
      | Some x \<Rightarrow> (Inr x, w))"

definition demoStore :: "config_map \<Rightarrow> demo \<Rightarrow> demo" where
  "demoStore cm w =
     (if cmDeletionTimestamp cm \<noteq> None \<and> cmFinalizers cm = []
      then w\<lparr>dCMs := dropBy cmKey (cmKey cm) (dCMs w)\<rparr>
      else w\<lparr>dCMs := putBy cmKey cm (dCMs w)\<rparr>)"

definition demoUpdate :: "config_map \<Rightarrow> demo act" where
  "demoUpdate cm w =
     (case storedBy cmKey (dCMs w) (cmKey cm) of
        None \<Rightarrow> (Some (Api NotFound), w)
      | Some old \<Rightarrow> (None, demoStore (cm\<lparr>cmDeletionTimestamp := cmDeletionTimestamp old\<rparr>) w))"

definition demoDelete :: "config_map \<Rightarrow> demo act" where
  "demoDelete cm w =
     (case storedBy cmKey (dCMs w) (cmKey cm) of
        None \<Rightarrow> (Some (Api NotFound), w)
      | Some old \<Rightarrow>
          (None, case terminated 0 old of
             None \<Rightarrow> w\<lparr>dCMs := dropBy cmKey (cmKey cm) (dCMs w)\<rparr>
           | Some old' \<Rightarrow> w\<lparr>dCMs := putBy cmKey old' (dCMs w)\<rparr>))"

definition demoCreateOrUpdate :: "config_map \<Rightarrow> (config_map \<Rightarrow> goerr + config_map) \<Rightarrow> (demo, config_map) call" where
  "demoCreateOrUpdate cm f w =
     (let base = (case storedBy cmKey (dCMs w) (cmKey cm) of None \<Rightarrow> cm | Some old \<Rightarrow> old) in
      case f base of
        Inl e \<Rightarrow> (Inl e, w)
      | Inr cm1 \<Rightarrow>
          if cmKey cm1 \<noteq> cmKey cm then (Inl (Msg ''MutateFn cannot mutate object name and/or object namespace''), w)
          else
            let cm2 = cm1\<lparr>cmDeletionTimestamp := cmDeletionTimestamp base\<rparr> in (Inr cm2, demoStore cm2 w))"

definition demoCreateOrUpdateNS :: "knamespace \<Rightarrow> (knamespace \<Rightarrow> goerr + knamespace) \<Rightarrow> (demo, knamespace) call" where
  "demoCreateOrUpdateNS ns f w =
     (case f (case storedBy nsName (dNSs w) (nsName ns) of None \<Rightarrow> ns | Some old \<Rightarrow> old) of
        Inl e \<Rightarrow> (Inl e, w)
      | Inr ns1 \<Rightarrow>
          if nsName ns1 \<noteq> nsName ns then (Inl (Msg ''MutateFn cannot mutate object name and/or object namespace''), w)
          else (Inr ns1, w\<lparr>dNSs := putBy nsName ns1 (dNSs w)\<rparr>))"

definition demoPatchNS :: "knamespace \<Rightarrow> knamespace \<Rightarrow> demo act" where
  "demoPatchNS old ns w =
     (if storedBy nsName (dNSs w) (nsName ns) = None then (Some (Api NotFound), w)
      else (None, w\<lparr>dNSs := putBy nsName ns (dNSs w)\<rparr>))"

definition demoPatchDeploy :: "deployment \<Rightarrow> deployment \<Rightarrow> demo act" where
  "demoPatchDeploy old d w =
     (if storedBy depKey (dDeploys w) (depKey d) = None then (Some (Api NotFound), w)
      else (None, w\<lparr>dDeploys := putBy depKey d (dDeploys w)\<rparr>))"

definition demoMatching :: "(string \<times> string) list \<Rightarrow> rbac_object list \<Rightarrow> rbac_object list" where
  "demoMatching ps = filter (\<lambda>x. list_all (\<lambda>(k, v). gm_lookup (rbacLabels x) k = Some v) ps)"

definition demoKube :: "demo kube" where
  "demoKube =
     \<lparr>getCM = demoGet cmKey dCMs,
      updateCM = demoUpdate,
      deleteCM = demoDelete,
      createOrUpdateCM = demoCreateOrUpdate,
      getNS = demoGet nsName dNSs,
      patchNS = demoPatchNS,
      createOrUpdateNS = demoCreateOrUpdateNS,
      getDeploy = demoGet depKey dDeploys,
      patchDeploy = demoPatchDeploy,
      deleteDeploy = (\<lambda>d w. (None, w\<lparr>dDeploys := dropBy depKey (depKey d) (dDeploys w)\<rparr>)),
      listCRBs = (\<lambda>ps w. (Inr (demoMatching ps (dCRBs w)), w)),
      deleteCRB = (\<lambda>x w. (None, w\<lparr>dCRBs := dropBy rbacName (rbacName x) (dCRBs w)\<rparr>)),
      listCRs = (\<lambda>ps w. (Inr (demoMatching ps (dCRs w)), w)),
      deleteCR = (\<lambda>x w. (None, w\<lparr>dCRs := dropBy rbacName (rbacName x) (dCRs w)\<rparr>)),
      addFinalizer = (\<lambda>f cm. cm\<lparr>cmFinalizers :=
        (if f \<in> set (cmFinalizers cm) then cmFinalizers cm else cmFinalizers cm @ [f])\<rparr>),
      removeFinalizer = (\<lambda>f cm. cm\<lparr>cmFinalizers := filter (\<lambda>x. x \<noteq> f) (cmFinalizers cm)\<rparr>),
      containsFinalizer = (\<lambda>f cm. f \<in> set (cmFinalizers cm)),
      setControllerReference = (\<lambda>f cm. Inr (cm\<lparr>cmOwners := [metaName f]\<rparr>)),
      componentLabel = (\<lambda>c. ''app.opendatahub.io/'' @ c),
      labelTrue = ''true'',
      manifestString = (\<lambda>mi. manifestPath mi @ ''/'' @ manifestContextDir mi @ ''/'' @ manifestSourcePath mi),
      applyParams = (\<lambda>dir file im ps w. (None, w))\<rparr>"

definition demoRecord :: "event \<Rightarrow> demo \<Rightarrow> demo" where
  "demoRecord e w = w\<lparr>dEvents := dEvents w @ [e]\<rparr>"

section \<open>It keeps the laws\<close>

lemma demoView_fields [simp]:
  "clCMs (demoView w) = storedBy cmKey (dCMs w)" "clNSs (demoView w) = storedBy nsName (dNSs w)"
  "clDeploys (demoView w) = storedBy depKey (dDeploys w)" "clCRBs (demoView w) = dCRBs w" "clCRs (demoView w) = dCRs w"
  by (simp_all add: demoView_def)

lemma demoView_updates [simp]:
  "demoView (w\<lparr>dNSs := ns\<rparr>) = (demoView w)\<lparr>clNSs := storedBy nsName ns\<rparr>"
  "demoView (w\<lparr>dDeploys := ds\<rparr>) = (demoView w)\<lparr>clDeploys := storedBy depKey ds\<rparr>"
  "demoView (w\<lparr>dCMs := cms\<rparr>) = (demoView w)\<lparr>clCMs := storedBy cmKey cms\<rparr>"
  "demoView (w\<lparr>dCRBs := xs\<rparr>) = (demoView w)\<lparr>clCRBs := xs\<rparr>"
  "demoView (w\<lparr>dCRs := ys\<rparr>) = (demoView w)\<lparr>clCRs := ys\<rparr>"
  "demoView (w\<lparr>dEvents := es\<rparr>) = demoView w"
  by (simp_all add: demoView_def)

lemma demoStore_view:
  "\<exists>x. stored_as cm x \<and> demoView (demoStore cm w) = (demoView w)\<lparr>clCMs := (clCMs (demoView w))(cmKey cm := x)\<rparr>"
  by (cases "cmDeletionTimestamp cm \<noteq> None \<and> cmFinalizers cm = []") (auto simp: demoStore_def stored_as_def)

lemma demo_reads:
  assumes "\<And>w. sel (demoView w) = storedBy key (field w)"
  shows "reads (demoGet key field) demoView sel key" "answers (demoGet key field) demoView sel"
  using assms by (auto simp: reads_def answers_def demoGet_def split: option.splits dest: storedBy_key)

lemma demo_updates: "updates demoKube demoView"
proof -
  have key: "cmKey (cm\<lparr>cmDeletionTimestamp := t\<rparr>) = cmKey cm" for cm t by (simp add: cmKey_def)
  show ?thesis
    using demoStore_view [of "_\<lparr>cmDeletionTimestamp := _\<rparr>", unfolded key]
    by (auto simp: updates_def demoKube_def demoUpdate_def split: option.splits)
qed

lemma terminated_key: "terminated t s = Some s' \<Longrightarrow> cmKey s' = cmKey s"
  by (auto simp: terminated_def cmKey_def split: if_splits)

lemma demoDelete_view:
  assumes "demoDelete cm w = (r, w')" "storedBy cmKey (dCMs w) (cmKey cm) = Some old"
  shows "demoView w' = (demoView w)\<lparr>clCMs := (clCMs (demoView w))(cmKey cm := terminated 0 old)\<rparr>"
proof (cases "terminated 0 old")
  case None
  with assms show ?thesis by (auto simp: demoDelete_def)
next
  case (Some old')
  have "cmKey old' = cmKey cm" using terminated_key [OF Some] storedBy_key [OF assms(2)] by simp
  moreover have "w' = w\<lparr>dCMs := putBy cmKey old' (dCMs w)\<rparr>" using assms Some by (simp add: demoDelete_def)
  ultimately show ?thesis using Some by simp
qed

lemma demo_deletes: "deletes demoKube demoView"
  unfolding deletes_def
proof (intro allI impI)
  fix cm w r w'
  assume run: "deleteCM demoKube cm w = (r, w')"
  then have del: "demoDelete cm w = (r, w')" by (simp add: demoKube_def)
  show "(\<exists>e. r = Some e \<and> demoView w' = demoView w \<and> (isNotFound e \<longrightarrow> clCMs (demoView w) (cmKey cm) = None)) \<or>
      (\<exists>t s. clCMs (demoView w) (cmKey cm) = Some s \<and>
         demoView w' = (demoView w)\<lparr>clCMs := (clCMs (demoView w))(cmKey cm := terminated t s)\<rparr>)"
  proof (cases "storedBy cmKey (dCMs w) (cmKey cm)")
    case None
    with del show ?thesis by (auto simp: demoDelete_def)
  next
    case (Some old)
    from Some demoDelete_view [OF del Some] show ?thesis
      by (intro disjI2 exI [of _ 0] exI [of _ old]) simp
  qed
qed

lemma demo_createsOrUpdates: "createsOrUpdates demoKube demoView"
  unfolding createsOrUpdates_def
proof (intro conjI allI impI)
  fix cm f w res w'
  assume run: "createOrUpdateCM demoKube cm f w = (res, w')"
  let ?base = "case clCMs (demoView w) (cmKey cm) of None \<Rightarrow> cm | Some old \<Rightarrow> old"
  have key: "cmKey (c\<lparr>cmDeletionTimestamp := t\<rparr>) = cmKey c" for c t by (simp add: cmKey_def)
  show "(\<exists>e. res = Inl e \<and> demoView w' = demoView w) \<or>
    (let base = ?base in \<exists>cm1 x. f base = Inr cm1 \<and> cmKey cm1 = cmKey cm \<and>
       stored_as (cm1\<lparr>cmDeletionTimestamp := cmDeletionTimestamp base\<rparr>) x \<and>
       demoView w' = (demoView w)\<lparr>clCMs := (clCMs (demoView w))(cmKey cm := x)\<rparr>)"
  proof (cases "f ?base")
    case (Inl e)
    with run have "res = Inl e" "w' = w" by (simp_all add: demoKube_def demoCreateOrUpdate_def Let_def)
    then show ?thesis by simp
  next
    case (Inr cm1)
    let ?cm = "cm1\<lparr>cmDeletionTimestamp := cmDeletionTimestamp ?base\<rparr>"
    obtain x where "stored_as ?cm x"
      "demoView (demoStore ?cm w) = (demoView w)\<lparr>clCMs := (clCMs (demoView w))(cmKey cm1 := x)\<rparr>"
      using demoStore_view [of ?cm w] key by metis
    with run Inr show ?thesis
      by (cases "cmKey cm1 = cmKey cm") (auto simp: demoKube_def demoCreateOrUpdate_def Let_def)
  qed
next
  fix ns f w res w'
  assume run: "createOrUpdateNS demoKube ns f w = (res, w')"
  show "(\<exists>e. res = Inl e \<and> demoView w' = demoView w) \<or>
    (\<exists>ns1 ns'. f (case clNSs (demoView w) (nsName ns) of None \<Rightarrow> ns | Some old \<Rightarrow> old) = Inr ns1 \<and>
       same_ns ns1 ns' \<and> demoView w' = (demoView w)\<lparr>clNSs := (clNSs (demoView w))(nsName ns \<mapsto> ns')\<rparr>)"
  proof (cases "f (case clNSs (demoView w) (nsName ns) of None \<Rightarrow> ns | Some old \<Rightarrow> old)")
    case (Inl e)
    with run have "res = Inl e" "w' = w" by (simp_all add: demoKube_def demoCreateOrUpdateNS_def)
    then show ?thesis by simp
  next
    case (Inr ns1)
    show ?thesis
    proof (cases "nsName ns1 = nsName ns")
      case True
      with run Inr have "w' = w\<lparr>dNSs := putBy nsName ns1 (dNSs w)\<rparr>"
        by (simp add: demoKube_def demoCreateOrUpdateNS_def)
      with Inr True show ?thesis
        by (intro disjI2 exI [of _ ns1]) (simp add: same_ns_def)
    next
      case False
      with run Inr have "isl res" "w' = w" by (auto simp: demoKube_def demoCreateOrUpdateNS_def)
      then show ?thesis by (auto simp: isl_def)
    qed
  qed
qed

lemma demo_laws: "kube_laws demoKube demoView"
  unfolding kube_laws_def
proof (intro conjI)
  show "finalizer_laws demoKube" by (simp add: finalizer_laws_def demoKube_def)
  show "reads (getCM demoKube) demoView clCMs cmKey" "reads (getNS demoKube) demoView clNSs nsName"
    "reads (getDeploy demoKube) demoView clDeploys depKey"
    by (simp_all add: demoKube_def demo_reads)
  show "lists (listCRBs demoKube) demoView clCRBs" "lists (listCRs demoKube) demoView clCRs"
    by (auto simp: lists_def demoKube_def demoMatching_def list_all_iff)
  show "updates demoKube demoView" by (rule demo_updates)
  show "deletes demoKube demoView" by (rule demo_deletes)
  show "createsOrUpdates demoKube demoView" by (rule demo_createsOrUpdates)
  show "patches demoKube demoView"
    by (auto simp: patches_def demoKube_def demoPatchNS_def demoPatchDeploy_def same_ns_def same_dep_def
        rel_option_reflI)
  show "removes demoKube demoView" by (auto simp: removes_def demoKube_def dropBy_def [of rbacName])
  show "owner_laws demoKube" by (auto simp: owner_laws_def demoKube_def)
qed

lemma demo_available: "kube_available demoKube demoView"
  unfolding kube_available_def
  by (auto simp: demoKube_def demo_reads demoUpdate_def demoDelete_def demoPatchNS_def demoPatchDeploy_def
      split: option.splits)

end
