(* ===== verification/CleanupProps.thy ===== *)
theory CleanupProps
  imports HandoverTrace DemoServer
begin

text \<open>
  The properties of the finalizer, each with a run on the concrete server of \<open>DemoServer\<close> that
  meets its hypotheses.
\<close>

section \<open>A concrete run\<close>

definition demoConfig :: config where
  "demoConfig = zeroConfig\<lparr>cfgApplicationsNamespace := ''opendatahub'', cfgFeatureStoreEnabled := True,
     cfgDataRegistryEnabled := True\<rparr>"

definition demoModule :: "demo module" where
  "demoModule =
     \<lparr>mCfg = demoConfig,
      mManifestInfo = \<lparr>manifestPath = ''/opt/manifests'', manifestContextDir = componentName, manifestSourcePath = overlayODH\<rparr>,
      mRecorder = Some demoRecord\<rparr>"

definition demoFeast :: "feast_operator" where
  "demoFeast =
     \<lparr>metaName = feastOperatorInstanceName, spec = \<lparr>specOIDC = None, specCapabilities = None\<rparr>,
      status = \<lparr>statusReleases = [\<lparr>releaseName = ''feast'', releaseVersion = ''0.62.0''\<rparr>]\<rparr>\<rparr>"

definition demoRequest :: "unit request" where
  "demoRequest = \<lparr>rrInstance = FeastInst demoFeast, rrManifests = [], rrRelease = \<lparr>relName = ''Open Data Hub'', relVersion = ()\<rparr>\<rparr>"

text \<open>A ConfigMap that both operators hold, with an enabled registry and labelled RBAC objects.\<close>

definition heldConfigMap :: config_map where
  "heldConfigMap = (newConfigMap capabilitiesConfigMapName ''opendatahub'')
     \<lparr>cmFinalizers := [capabilitiesConfigMapFinalizer, feastOperatorCapabilitiesFinalizer],
      cmData := Some (capabilitiesData True True)\<rparr>"

definition heldWorld :: demo where
  "heldWorld =
     \<lparr>dCMs = [heldConfigMap],
      dNSs = [\<lparr>nsName = dataRegistryNamespaceName,
               nsLabels = Some (fmupd dataRegistryEnabledLabelKey dataRegistryEnabledLabelValue fmempty)\<rparr>],
      dDeploys = [],
      dCRBs = [\<lparr>rbacName = ''feast-binding'', rbacLabels = Some (fmupd ''app.opendatahub.io/feastoperator'' ''true'' fmempty)\<rparr>,
               \<lparr>rbacName = ''other-binding'', rbacLabels = None\<rparr>],
      dCRs = [\<lparr>rbacName = ''feast-role'', rbacLabels = Some (fmupd ''app.opendatahub.io/feastoperator'' ''true'' fmempty)\<rparr>],
      dEvents = []\<rparr>"

text \<open>2026-01-01T00:00:00Z, and an instant a quarter of a second later.\<close>

definition demoStart :: time where
  "demoStart = 1767225600 * second + 250000000"

lemma demo_recorder: "recorder_laws demoModule demoView"
  by (simp add: recorder_laws_def demoModule_def demoRecord_def)

lemma demo_feast: "rrInstance demoRequest = FeastInst demoFeast"
  by (simp add: demoRequest_def)

lemma demo_key: "capabilitiesKey demoModule = \<lparr>keyName = capabilitiesConfigMapName, keyNamespace = ''opendatahub''\<rparr>"
  by (simp add: capabilitiesKey_def demoModule_def demoConfig_def)

lemma held_stored: "clCMs (demoView heldWorld) (capabilitiesKey demoModule) = Some heldConfigMap"
  by (simp add: heldWorld_def storedBy_def demo_key cmKey_def heldConfigMap_def newConfigMap_def)

lemma held_facts: "heldByFeast heldConfigMap" "startedAt heldConfigMap = []"
  by (simp_all add: heldByFeast_def startedAt_def heldConfigMap_def newConfigMap_def)

lemma demo_year: "0 \<le> yearOf demoStart" "yearOf demoStart < 10000"
  by code_simp+

lemma demo_second: "demoStart mod second = 250000000"
  by code_simp

section \<open>The properties\<close>

text \<open>
  C8. When the finalizer succeeds, the uninstall is complete: the Data Registry is no longer
  advertised, no labelled ClusterRoleBinding or ClusterRole is left, and a ConfigMap that is still
  there is terminating, has both capabilities off, is free of the module's finalizer, and is held by
  the feast operator only after the timeout.
\<close>

theorem cleanup_complete:
  assumes "kube_laws K V" "recorder_laws m V"
    and "cleanupClusterResources K m t1 t2 rr w = (None, w')"
  shows "\<not> registryAdvertised (V w') \<and>
    (\<forall>x \<in> set (clCRBs (V w')) \<union> set (clCRs (V w')).
       gm_lookup (rbacLabels x) (componentLabel K componentName) \<noteq> Some (labelTrue K)) \<and>
    (\<forall>cm. clCMs (V w') (capabilitiesKey m) = Some cm \<longrightarrow>
       cmDeletionTimestamp cm \<noteq> None \<and> flagsDisabled cm \<and>
       capabilitiesConfigMapFinalizer \<notin> set (cmFinalizers cm) \<and>
       (feastOperatorCapabilitiesFinalizer \<in> set (cmFinalizers cm) \<longrightarrow> timedOut t2 cm))"
  using cleanup_success [OF assms]
  by (auto simp: carries_component handedOver_def heldByModule_def heldByFeast_def)

lemma demo_finishes:
  obtains w' where "cleanupClusterResources demoKube demoModule demoStart (demoStart + 5 * minute) demoRequest heldWorld = (None, w')"
proof -
  have "timedOut (demoStart + 5 * minute) (teardownIntent demoStart heldConfigMap)"
    by (simp add: timedOut_fresh [OF held_facts(2) demo_year] demo_second)
  then have "fst (cleanupClusterResources demoKube demoModule demoStart (demoStart + 5 * minute) demoRequest heldWorld) = None"
    using held_stored by (intro cleanup_progress [OF demo_laws demo_available demo_recorder demo_feast]) simp
  then show thesis using that by (metis prod.collapse)
qed

lemma cleanup_complete_witness:
  "\<exists>w'. cleanupClusterResources demoKube demoModule demoStart (demoStart + 5 * minute) demoRequest heldWorld = (None, w') \<and>
     \<not> registryAdvertised (demoView w') \<and> registryAdvertised (demoView heldWorld)"
proof -
  obtain w' where run: "cleanupClusterResources demoKube demoModule demoStart (demoStart + 5 * minute) demoRequest heldWorld = (None, w')"
    by (rule demo_finishes)
  have "registryAdvertised (demoView heldWorld)"
    by (simp add: registryAdvertised_def heldWorld_def storedBy_def)
  with run cleanup_complete [OF demo_laws demo_recorder run] show ?thesis by blast
qed

text \<open>
  C9. While the feast operator holds the ConfigMap and the time has not run out, the finalizer does
  not succeed, and it fails before it touches any ClusterRole or ClusterRoleBinding and before it
  releases the ConfigMap: the object stays with all its finalizers, the module's own among them when
  it was there.
\<close>

theorem cleanup_waits:
  assumes "kube_laws K V" "recorder_laws m V"
    and "clCMs (V w) (capabilitiesKey m) = Some cm" "feastOperatorCapabilitiesFinalizer \<in> set (cmFinalizers cm)"
    and "\<not> timedOut t2 (teardownIntent t1 cm)"
    and "cleanupClusterResources K m t1 t2 rr w = (r, w')"
  shows "r \<noteq> None \<and> clCRBs (V w') = clCRBs (V w) \<and> clCRs (V w') = clCRs (V w) \<and>
    (\<exists>cm'. clCMs (V w') (capabilitiesKey m) = Some cm' \<and> cmFinalizers cm' = cmFinalizers cm)"
proof -
  have held: "heldByFeast cm" using assms(4) by (simp add: heldByFeast_def)
  have failed: "r \<noteq> None"
    using cleanup_success(4) [OF assms(1,2) _ assms(3) held] assms(5,6) by (cases r) auto
  from assms(1,2,6) show ?thesis
  proof (cases rule: cleanup_from_handover)
    case unknown
    with assms(3) show ?thesis by simp
  next
    case (reached r1 w1)
    from releaseHandover_waiting [OF assms(1,2) reached(1) assms(3) held assms(5)] reached(2,3) failed assms(3) held
    show ?thesis by (simp add: pinned_def)
  qed
qed

lemma cleanup_waits_witness:
  "\<exists>r w' cm'. cleanupClusterResources demoKube demoModule demoStart (demoStart + 4 * minute) demoRequest heldWorld = (r, w') \<and>
     r \<noteq> None \<and> clCMs (demoView w') (capabilitiesKey demoModule) = Some cm' \<and>
     cmFinalizers cm' = [capabilitiesConfigMapFinalizer, feastOperatorCapabilitiesFinalizer]"
proof -
  obtain r w' where run: "cleanupClusterResources demoKube demoModule demoStart (demoStart + 4 * minute) demoRequest heldWorld = (r, w')"
    by fastforce
  have "\<not> timedOut (demoStart + 4 * minute) (teardownIntent demoStart heldConfigMap)"
    by (simp add: timedOut_fresh [OF held_facts(2) demo_year] demo_second minute_def second_def)
  from cleanup_waits [OF demo_laws demo_recorder held_stored held_facts(1) [unfolded heldByFeast_def] this run] run
  show ?thesis by (auto simp: heldConfigMap_def)
qed

text \<open>
  C10. Whatever its outcome, the finalizer stays within the module's own objects (other ConfigMaps,
  namespaces and deployments keep their state, every RBAC object that goes was labelled, by name),
  and a ConfigMap that the feast operator holds is neither removed nor taken from it, nor is its
  deletion timestamp or the recorded start of its cleanup changed.
\<close>

theorem cleanup_confined:
  assumes "kube_laws K V" "recorder_laws m V"
    and "cleanupClusterResources K m t1 t2 rr w = (r, w')"
  shows "(\<forall>k. k \<noteq> capabilitiesKey m \<longrightarrow> clCMs (V w') k = clCMs (V w) k) \<and>
    (\<forall>n. n \<noteq> dataRegistryNamespaceName \<longrightarrow> clNSs (V w') n = clNSs (V w) n) \<and>
    (\<forall>k. k \<noteq> deploymentKey m \<longrightarrow> clDeploys (V w') k = clDeploys (V w) k) \<and>
    (\<forall>x \<in> set (clCRBs (V w)) - set (clCRBs (V w')). rbacName x \<in> rbacName ` {y \<in> set (clCRBs (V w)). carries (componentSelector K) y}) \<and>
    (\<forall>x \<in> set (clCRs (V w)) - set (clCRs (V w')). rbacName x \<in> rbacName ` {y \<in> set (clCRs (V w)). carries (componentSelector K) y}) \<and>
    custody (clCMs (V w) (capabilitiesKey m)) (clCMs (V w') (capabilitiesKey m))"
  using assms
proof (cases rule: cleanup_cases)
  case refused
  then show ?thesis by (simp add: handover_def scope_def)
next
  case (reached w1 M N)
  then have rbac: "clCRBs (V w') = filter (\<lambda>y. rbacName y \<notin> M) (clCRBs (V w))"
    "clCRs (V w') = filter (\<lambda>y. rbacName y \<notin> N) (clCRs (V w))"
    by (simp_all add: crbs.without_def crs.without_def handover_def scope_def)
  have same: "clCMs (V w') = clCMs (V w1)" "clNSs (V w') = clNSs (V w1)" "clDeploys (V w') = clDeploys (V w1)"
    using reached by (simp_all add: crbs.without_def crs.without_def)
  have gone: "\<forall>x \<in> set (clCRBs (V w)) - set (clCRBs (V w')). rbacName x \<in> M"
    "\<forall>x \<in> set (clCRs (V w)) - set (clCRs (V w')). rbacName x \<in> N"
    by (simp_all add: rbac)
  have "\<forall>x \<in> set (clCRBs (V w)) - set (clCRBs (V w')). rbacName x \<in> rbacName ` {y \<in> set (clCRBs (V w)). carries (componentSelector K) y}"
    "\<forall>x \<in> set (clCRs (V w)) - set (clCRs (V w')). rbacName x \<in> rbacName ` {y \<in> set (clCRs (V w)). carries (componentSelector K) y}"
    using gone reached(3,4) by (meson subsetD)+
  with reached(2) show ?thesis unfolding handover_def scope_def same by simp
qed

lemma cleanup_confined_witness:
  "\<exists>w'. cleanupClusterResources demoKube demoModule demoStart (demoStart + 5 * minute) demoRequest heldWorld = (None, w') \<and>
     (\<exists>cm. clCMs (demoView w') (capabilitiesKey demoModule) = Some cm \<and> heldByFeast cm)"
proof -
  obtain w' where run: "cleanupClusterResources demoKube demoModule demoStart (demoStart + 5 * minute) demoRequest heldWorld = (None, w')"
    by (rule demo_finishes)
  from cleanup_confined [OF demo_laws demo_recorder run] held_stored held_facts(1)
  have "\<exists>cm. clCMs (demoView w') (capabilitiesKey demoModule) = Some cm \<and> heldByFeast cm"
    by (auto simp: custody_def)
  with run show ?thesis by blast
qed

lemma cleanup_ends_iff:
  assumes "kube_laws K V" "kube_available K V" "recorder_laws m V" "rrInstance rr = FeastInst feast"
    and "clCMs (V w) (capabilitiesKey m) = Some cm" "heldByFeast cm"
  shows "fst (cleanupClusterResources K m t1 t2 rr w) = None \<longleftrightarrow> timedOut t2 (teardownIntent t1 cm)"
proof
  assume "fst (cleanupClusterResources K m t1 t2 rr w) = None"
  then obtain w' where run: "cleanupClusterResources K m t1 t2 rr w = (None, w')" by (metis prod.collapse)
  from cleanup_success(4) [OF assms(1,3) run assms(5,6)] show "timedOut t2 (teardownIntent t1 cm)" .
next
  assume "timedOut t2 (teardownIntent t1 cm)"
  with assms(5) show "fst (cleanupClusterResources K m t1 t2 rr w) = None"
    by (intro cleanup_progress [OF assms(1-4)]) simp
qed

text \<open>
  C11. On an API server that answers, the finalizer of a FeastOperator succeeds exactly when no feast
  operator holds the ConfigMap any more or the time has run out: it never deadlocks.
\<close>

theorem cleanup_progresses:
  assumes "kube_laws K V" "kube_available K V" "recorder_laws m V"
    and "rrInstance rr = FeastInst feast"
  shows "fst (cleanupClusterResources K m t1 t2 rr w) = None \<longleftrightarrow>
    (\<forall>cm. clCMs (V w) (capabilitiesKey m) = Some cm \<and> feastOperatorCapabilitiesFinalizer \<in> set (cmFinalizers cm) \<longrightarrow>
       timedOut t2 (teardownIntent t1 cm))"
proof
  assume "fst (cleanupClusterResources K m t1 t2 rr w) = None"
  then obtain w' where run: "cleanupClusterResources K m t1 t2 rr w = (None, w')" by (metis prod.collapse)
  from cleanup_success(4) [OF assms(1,3) run]
  show "\<forall>cm. clCMs (V w) (capabilitiesKey m) = Some cm \<and> feastOperatorCapabilitiesFinalizer \<in> set (cmFinalizers cm) \<longrightarrow>
       timedOut t2 (teardownIntent t1 cm)" by (simp add: heldByFeast_def)
next
  assume "\<forall>cm. clCMs (V w) (capabilitiesKey m) = Some cm \<and> feastOperatorCapabilitiesFinalizer \<in> set (cmFinalizers cm) \<longrightarrow>
       timedOut t2 (teardownIntent t1 cm)"
  then show "fst (cleanupClusterResources K m t1 t2 rr w) = None"
    by (intro cleanup_progress [OF assms]) (simp add: heldByFeast_def)
qed

lemma cleanup_progresses_witness:
  "fst (cleanupClusterResources demoKube demoModule demoStart demoStart demoRequest (heldWorld\<lparr>dCMs := []\<rparr>)) = None"
  using cleanup_progresses [OF demo_laws demo_available demo_recorder demo_feast, of demoStart demoStart "heldWorld\<lparr>dCMs := []\<rparr>"]
  by (simp add: storedBy_def)

text \<open>
  C12. The wait starts at the first marking, as the annotation records it to the second, and later
  runs count from there: on a server that answers, with a feast operator that never lets go, the
  first run proceeds once five minutes have passed since that second, and not before; and however the
  first run and any number of further runs have ended, the next run proceeds under exactly the same
  condition, whenever it marks.
\<close>

theorem cleanup_five_minutes:
  assumes "kube_laws K V" "kube_available K V" "recorder_laws m V"
    and "rrInstance rr = FeastInst feast"
    and "clCMs (V w) (capabilitiesKey m) = Some cm" "feastOperatorCapabilitiesFinalizer \<in> set (cmFinalizers cm)"
    and "gm_get (cmAnnotations cm) capabilitiesCleanupStartedAnnotation = []"
    and "0 \<le> yearOf t1" "yearOf t1 < 10000"
    and "cleanupClusterResources K m t1 t2 rr w = (r, w1)"
    and "(\<lambda>a b. \<exists>rr t t' r. cleanupClusterResources K m t t' rr a = (r, b))\<^sup>*\<^sup>* w1 w2"
  shows "(r = None \<longleftrightarrow> t1 - t1 mod second + 5 * minute \<le> t2) \<and>
    (fst (cleanupClusterResources K m t3 t4 rr w2) = None \<longleftrightarrow> t1 - t1 mod second + 5 * minute \<le> t4)"
proof -
  have held: "heldByFeast cm" using assms(6) by (simp add: heldByFeast_def)
  have fresh: "timedOut t (teardownIntent t1 cm) \<longleftrightarrow> t1 - t1 mod second + 5 * minute \<le> t" for t
    using assms(7-9) by (intro timedOut_fresh) (simp_all add: startedAt_def)
  obtain cm1 where cm1: "clCMs (V w1) (capabilitiesKey m) = Some cm1" "heldByFeast cm1"
    "startedAt cm1 = startedAt (teardownIntent t1 cm)"
    using assms(1,3,2,4,10,5) held by (rule cleanup_records)
  have "startedAt cm1 \<noteq> []" by (simp only: cm1(3) recorded_nonempty not_False_eq_True)
  with reruns_custody [OF assms(1,3,11)] cm1 obtain cm2 where cm2: "clCMs (V w2) (capabilitiesKey m) = Some cm2"
    "heldByFeast cm2" "startedAt cm2 = startedAt (teardownIntent t1 cm)" by (auto simp: custody_def)
  have "startedAt (teardownIntent t3 cm2) = startedAt (teardownIntent t1 cm)"
    using cm2(3) by simp
  then have again: "timedOut t4 (teardownIntent t3 cm2) = timedOut t4 (teardownIntent t1 cm)" by (rule timedOut_cong)
  show ?thesis
    using cleanup_ends_iff [OF assms(1-5) held, of t1 t2] cleanup_ends_iff [OF assms(1-4) cm2(1,2), of t3 t4]
      fresh again assms(10) by simp
qed

lemma cleanup_five_minutes_witness:
  "\<exists>r w1. cleanupClusterResources demoKube demoModule demoStart (demoStart + minute) demoRequest heldWorld = (r, w1) \<and>
     r \<noteq> None \<and>
     fst (cleanupClusterResources demoKube demoModule (demoStart + minute) (demoStart + 5 * minute - 250000000) demoRequest w1) = None \<and>
     fst (cleanupClusterResources demoKube demoModule (demoStart + minute) (demoStart + 5 * minute - 250000001) demoRequest w1) \<noteq> None"
proof -
  obtain r w1 where run: "cleanupClusterResources demoKube demoModule demoStart (demoStart + minute) demoRequest heldWorld = (r, w1)"
    by fastforce
  note ends = cleanup_five_minutes [OF demo_laws demo_available demo_recorder demo_feast held_stored
      held_facts(1) [unfolded heldByFeast_def] held_facts(2) [unfolded startedAt_def] demo_year run rtranclp.rtrancl_refl]
  show ?thesis
    using run ends [of "demoStart + minute" "demoStart + 5 * minute - 250000000"]
      ends [of "demoStart + minute" "demoStart + 5 * minute - 250000001"]
    by (simp add: demo_second [unfolded second_def] minute_def second_def)
qed

text \<open>
  The teardown intent is written once. After a successful marking a second marking, at any later
  time, leaves the cluster as it is; in particular a re-run of the finalizer does not restart the
  wait.
\<close>

lemma mark_once:
  assumes "kube_laws K V"
    and "markCapabilitiesDisabled K m t1 w = (None, w1)" "markCapabilitiesDisabled K m t2 w1 = (r, w2)"
  shows "V w2 = V w1"
  using assms(1,3)
proof (cases rule: markCapabilitiesDisabled_effect)
  case (marked cm x)
  from assms(1,2) marked(1) obtain cm0 where "markedFrom t1 cm0 cm" by (rule mark_post)
  with marked(2) show ?thesis by (simp add: markedFrom_def split: if_splits)
qed

end
