(* ===== verification/UninstallProtocol.thy ===== *)
theory UninstallProtocol
  imports HandoverTrace CleanupProps
begin

text \<open>
  The uninstall as a protocol between this module and the feast operator. The finalizer is run again
  and again, a stage at a time: between two stages of a run, as between two runs, the feast operator
  may claim the ConfigMap, finish its teardown and let go of it, a user may delete the ConfigMap, the
  rest of the cluster may change in any way, and the process may be restarted. The properties hold of
  every interleaving. A stage reads and then writes; what comes in between makes its write fail, by
  the optimistic concurrency of the API server.
\<close>

section \<open>The stages of a run\<close>

datatype stage = Unlabel | Mark | Rollout | Withdraw | Await | Release | DropBindings | DropRoles

fun stageAct :: "'w kube \<Rightarrow> 'w module \<Rightarrow> stage \<Rightarrow> time \<Rightarrow> 'w act" where
  "stageAct K m Unlabel now = removeDataRegistryLabel K"
| "stageAct K m Mark now = markCapabilitiesDisabled K m now"
| "stageAct K m Rollout now = triggerCapabilityRolloutIfNeeded K m"
| "stageAct K m Withdraw now = deleteCapabilitiesConfigMap K m"
| "stageAct K m Await now = waitForFeastOperatorRelease K m now"
| "stageAct K m Release now = releaseCapabilitiesConfigMap K m"
| "stageAct K m DropBindings now =
     deleteListed (listCRBs K) (deleteCRB K) ''ClusterRoleBinding'' (componentSelector K)"
| "stageAct K m DropRoles now = deleteListed (listCRs K) (deleteCR K) ''ClusterRole'' (componentSelector K)"

definition finalizerStages :: "stage list" where
  "finalizerStages = [Unlabel, Mark, Rollout, Withdraw, Await, Release, DropBindings, DropRoles]"

text \<open>The finalizer is these stages in a row.\<close>

lemma forEach_steps: "forEach f [] = nop" "forEach f (x # xs) = andThen (f x) (forEach f xs)"
  by (rule ext, simp add: nop_def)+

lemma cleanup_stages:
  assumes "rrInstance rr = FeastInst feast"
  shows "cleanupClusterResources K m t1 t2 rr =
    andThen (forEach (\<lambda>st. stageAct K m st t1) [Unlabel, Mark])
      (forEach (\<lambda>st. stageAct K m st t2) [Rollout, Withdraw, Await, Release, DropBindings, DropRoles])"
  using assms
  by (intro ext) (simp add: cleanupClusterResources_def releaseHandover_def andThen_assoc forEach_steps del: forEach.simps)

section \<open>The system\<close>

text \<open>What is left of the current run: no stage, when none is under way.\<close>

record 'w uninstall =
  usWorld :: 'w
  usNow :: time
  usTorn :: bool
  usTodo :: "stage list"

text \<open>What the feast operator and a user do to the stored ConfigMap.\<close>

definition claimed :: "config_map \<Rightarrow> config_map" where
  "claimed cm = cm\<lparr>cmFinalizers := cmFinalizers cm @ [feastOperatorCapabilitiesFinalizer]\<rparr>"

definition letGo :: "config_map \<Rightarrow> config_map" where
  "letGo cm = cm\<lparr>cmFinalizers := filter (\<lambda>f. f \<noteq> feastOperatorCapabilitiesFinalizer) (cmFinalizers cm)\<rparr>"

definition storesCM :: "'w module \<Rightarrow> config_map option \<Rightarrow> cluster \<Rightarrow> cluster \<Rightarrow> bool" where
  "storesCM m x a b \<longleftrightarrow> b = a\<lparr>clCMs := (clCMs a)(capabilitiesKey m := x)\<rparr>"

text \<open>A stage runs at a time of the clock in the range of RFC 3339.\<close>

definition ticksTo :: "'w uninstall \<Rightarrow> time \<Rightarrow> bool" where
  "ticksTo s t \<longleftrightarrow> usNow s \<le> t \<and> 0 \<le> yearOf t \<and> yearOf t < 10000"

text \<open>
  The feast operator tears down its workload, and only then takes its finalizer away, when the
  ConfigMap is terminating with the registry off: the intent that the module writes. It claims a
  ConfigMap only before that, since the API server takes no new finalizer on a terminating object.
\<close>

inductive uninstall_step ::
  "'w kube \<Rightarrow> ('w \<Rightarrow> cluster) \<Rightarrow> 'w module \<Rightarrow> 'w uninstall \<Rightarrow> 'w uninstall \<Rightarrow> bool"
  for K V m
  where
  Begin: "usTodo s = [] \<Longrightarrow> uninstall_step K V m s (s\<lparr>usTodo := finalizerStages\<rparr>)"
| Advance: "usTodo s = st # rest \<Longrightarrow> stageAct K m st t (usWorld s) = (None, w') \<Longrightarrow> ticksTo s t \<Longrightarrow>
     uninstall_step K V m s (s\<lparr>usWorld := w', usNow := t, usTodo := rest\<rparr>)"
| Fail: "usTodo s = st # rest \<Longrightarrow> stageAct K m st t (usWorld s) = (Some e, w') \<Longrightarrow> ticksTo s t \<Longrightarrow>
     uninstall_step K V m s (s\<lparr>usWorld := w', usNow := t, usTodo := []\<rparr>)"
| Restart: "uninstall_step K V m s (s\<lparr>usTodo := []\<rparr>)"
| TearDown: "clCMs (V (usWorld s)) (capabilitiesKey m) = Some cm \<Longrightarrow> heldByFeast cm \<Longrightarrow>
     cmDeletionTimestamp cm \<noteq> None \<Longrightarrow> gm_get (cmData cm) capabilitiesKeyDataRegistryEnabled = boolString False \<Longrightarrow>
     stored_as (letGo cm) x \<Longrightarrow> storesCM m x (V (usWorld s)) (V w') \<Longrightarrow>
     uninstall_step K V m s (s\<lparr>usWorld := w', usTorn := True\<rparr>)"
| Claim: "clCMs (V (usWorld s)) (capabilitiesKey m) = Some cm \<Longrightarrow> \<not> heldByFeast cm \<Longrightarrow>
     cmDeletionTimestamp cm = None \<Longrightarrow> stored_as (claimed cm) x \<Longrightarrow> storesCM m x (V (usWorld s)) (V w') \<Longrightarrow>
     uninstall_step K V m s (s\<lparr>usWorld := w'\<rparr>)"
| UserDelete: "clCMs (V (usWorld s)) (capabilitiesKey m) = Some cm \<Longrightarrow>
     storesCM m (terminated t cm) (V (usWorld s)) (V w') \<Longrightarrow>
     uninstall_step K V m s (s\<lparr>usWorld := w'\<rparr>)"
| Elsewhere: "clCMs (V w') (capabilitiesKey m) = clCMs (V (usWorld s)) (capabilitiesKey m) \<Longrightarrow>
     clCRBs (V w') = clCRBs (V (usWorld s)) \<Longrightarrow> clCRs (V w') = clCRs (V (usWorld s)) \<Longrightarrow>
     uninstall_step K V m s (s\<lparr>usWorld := w'\<rparr>)"
| Tick: "usNow s \<le> t \<Longrightarrow> uninstall_step K V m s (s\<lparr>usNow := t\<rparr>)"

section \<open>A run that nothing interrupts\<close>

lemma stages_run:
  assumes "forEach (\<lambda>st. stageAct K m st t) sts (usWorld s) = (r, w')" "usTodo s = sts @ rest" "ticksTo s t"
  shows "(uninstall_step K V m)\<^sup>*\<^sup>* s
    (s\<lparr>usWorld := w', usNow := t, usTodo := (if r = None then rest else [])\<rparr>)"
  using assms
proof (induction sts arbitrary: s)
  case Nil
  then have "uninstall_step K V m s (s\<lparr>usNow := t\<rparr>)" by (intro Tick) (simp add: ticksTo_def)
  moreover have "s\<lparr>usNow := t\<rparr> = s\<lparr>usWorld := w', usNow := t, usTodo := rest\<rparr>" using Nil by simp
  ultimately show ?case using Nil.prems(1) by auto
next
  case (Cons st sts)
  obtain r1 w1 where first: "stageAct K m st t (usWorld s) = (r1, w1)" by fastforce
  show ?case
  proof (cases r1)
    case None
    let ?s = "s\<lparr>usWorld := w1, usNow := t, usTodo := sts @ rest\<rparr>"
    have "uninstall_step K V m s ?s" using Cons.prems(2,3) first None by (intro Advance) simp_all
    moreover have "(uninstall_step K V m)\<^sup>*\<^sup>* ?s
        (?s\<lparr>usWorld := w', usNow := t, usTodo := (if r = None then rest else [])\<rparr>)"
      using Cons.prems first None by (intro Cons.IH) (simp_all add: ticksTo_def)
    ultimately show ?thesis by (simp add: converse_rtranclp_into_rtranclp)
  next
    case (Some e)
    with Cons.prems first have "r = Some e" "w' = w1" by simp_all
    moreover have "uninstall_step K V m s (s\<lparr>usWorld := w1, usNow := t, usTodo := []\<rparr>)"
      using Cons.prems(2,3) first Some by (intro Fail) simp_all
    ultimately show ?thesis by auto
  qed
qed

text \<open>So a run of the code's finalizer, successful or not, is a path of the system.\<close>

lemma cleanup_is_path:
  assumes run: "cleanupClusterResources K m t1 t2 rr (usWorld s) = (r, w')" and "rrInstance rr = FeastInst feast"
    and "usTodo s = []" "ticksTo s t1" "t1 \<le> t2" "0 \<le> yearOf t2" "yearOf t2 < 10000"
  shows "(uninstall_step K V m)\<^sup>*\<^sup>* s (s\<lparr>usWorld := w', usNow := t2, usTodo := []\<rparr>)"
proof -
  let ?later = "[Rollout, Withdraw, Await, Release, DropBindings, DropRoles]"
  let ?begun = "s\<lparr>usTodo := finalizerStages\<rparr>"
  obtain r1 w1 where first: "forEach (\<lambda>st. stageAct K m st t1) [Unlabel, Mark] (usWorld s) = (r1, w1)" by fastforce
  let ?marked = "s\<lparr>usWorld := w1, usNow := t1, usTodo := (if r1 = None then ?later else [])\<rparr>"
  have "uninstall_step K V m s ?begun" using assms(3) by (rule Begin)
  also have "(uninstall_step K V m)\<^sup>*\<^sup>* ?begun ?marked"
    using stages_run [of K m t1 "[Unlabel, Mark]" ?begun r1 w1 ?later] first assms(4)
    by (simp add: finalizerStages_def ticksTo_def)
  also have "(uninstall_step K V m)\<^sup>*\<^sup>* ?marked (s\<lparr>usWorld := w', usNow := t2, usTodo := []\<rparr>)"
  proof (cases r1)
    case None
    then have "forEach (\<lambda>st. stageAct K m st t2) ?later w1 = (r, w')"
      using run first by (simp only: cleanup_stages [OF assms(2)] andThen_ok)
    with stages_run [of K m t2 ?later ?marked r w' "[]"] None assms(3,5-7) show ?thesis
      by (simp add: ticksTo_def)
  next
    case (Some e)
    then have "w' = w1" using run first by (simp only: cleanup_stages [OF assms(2)] andThen_err prod.inject)
    moreover have "?marked\<lparr>usNow := t2\<rparr> = s\<lparr>usWorld := w1, usNow := t2, usTodo := []\<rparr>" using Some by (cases s) simp
    moreover have "uninstall_step K V m ?marked (?marked\<lparr>usNow := t2\<rparr>)" using assms(5) by (intro Tick) simp
    ultimately show ?thesis by (simp only: r_into_rtranclp)
  qed
  finally show ?thesis .
qed

text \<open>An uninstall that nothing has begun yet, on a ConfigMap that both operators hold.\<close>

definition beginning :: "('w \<Rightarrow> cluster) \<Rightarrow> 'w module \<Rightarrow> 'w uninstall \<Rightarrow> bool" where
  "beginning V m s \<longleftrightarrow>
     \<not> usTorn s \<and> usTodo s = [] \<and>
     (\<exists>cm. clCMs (V (usWorld s)) (capabilitiesKey m) = Some cm \<and> heldByFeast cm \<and> heldByModule cm \<and> startedAt cm = [])"

section \<open>The recorded start\<close>

text \<open>The start of the cleanup is not recorded, or it is a time of marking between two instants.\<close>

definition recordedIn :: "time \<Rightarrow> time \<Rightarrow> config_map \<Rightarrow> bool" where
  "recordedIn t0 t1 cm \<longleftrightarrow>
     startedAt cm = [] \<or>
     (\<exists>t. t0 \<le> t \<and> t \<le> t1 \<and> 0 \<le> yearOf t \<and> yearOf t < 10000 \<and> startedAt cm = formatRFC3339 t)"

lemma recordedIn_mono: "recordedIn t0 t1 cm \<Longrightarrow> t1 \<le> t2 \<Longrightarrow> recordedIn t0 t2 cm"
  unfolding recordedIn_def by (meson order_trans)

lemma recordedIn_cong: "startedAt a = startedAt b \<Longrightarrow> recordedIn t0 t1 a = recordedIn t0 t1 b"
  by (simp add: recordedIn_def)

text \<open>The timeout of a recorded start lies five minutes after the second of the marking.\<close>

lemma timedOut_recorded:
  assumes "startedAt cm = formatRFC3339 t" "0 \<le> yearOf t" "yearOf t < 10000"
  shows "timedOut now cm \<longleftrightarrow> t - t mod second + 5 * minute \<le> now"
proof -
  have "timedOut now cm \<longleftrightarrow> \<not> since now (t - t mod second) < 5 * minute"
    using assms by (simp add: timedOut_def parse_format feastOperatorReleaseTimeout_def not_less)
  also have "\<dots> \<longleftrightarrow> \<not> now - (t - t mod second) < 5 * minute"
    by (subst since_less) (simp_all add: minute_def second_def minDuration_def maxDuration_def)
  finally show ?thesis by (simp only: not_less le_diff_eq add.commute)
qed

lemma timedOut_mono:
  assumes "timedOut now cm" "now \<le> later"
  shows "timedOut later cm"
  using assms by (auto simp: timedOut_def since_def split: option.splits)

lemma cut_mono: "t0 \<le> t \<Longrightarrow> t0 - t0 mod second \<le> t - (t :: int) mod second"
  by (simp add: minus_mod_eq_mult_div zdiv_mono1 second_def)

lemma timedOut_since:
  assumes "recordedIn t0 t1 cm" "timedOut now cm"
  shows "t0 - t0 mod second + 5 * minute \<le> now"
proof -
  have "startedAt cm \<noteq> []" using assms(2) by (auto simp: timedOut_def parseRFC3339_def getYear_def)
  with assms(1) obtain t where t: "t0 \<le> t" "0 \<le> yearOf t" "yearOf t < 10000" "startedAt cm = formatRFC3339 t"
    by (auto simp: recordedIn_def)
  with timedOut_recorded [OF t(4,2,3)] assms(2) cut_mono [OF t(1)] show ?thesis by simp
qed

lemma timedOut_by:
  assumes "recordedIn t0 t1 cm" "startedAt cm \<noteq> []" "t1 + 5 * minute \<le> now"
  shows "timedOut now cm"
proof -
  obtain t where t: "t \<le> t1" "0 \<le> yearOf t" "yearOf t < 10000" "startedAt cm = formatRFC3339 t"
    using assms(1,2) by (auto simp: recordedIn_def)
  have "0 \<le> t mod second" by (simp add: second_def)
  with timedOut_recorded [OF t(4,2,3)] assms(3) t(1) show ?thesis by simp
qed

section \<open>Steps and the recorded start\<close>

lemma drop_stages:
  assumes "kube_laws K V" "stageAct K m st t w = (r, w')" "st = DropBindings \<or> st = DropRoles"
  shows "clCMs (V w') = clCMs (V w)"
  using assms(2,3) crbs.deleteListed_removes [OF assms(1)] crs.deleteListed_removes [OF assms(1)]
  by (fastforce simp: crbs.without_def crs.without_def)

lemma stage_dated:
  assumes laws: "kube_laws K V" "recorder_laws m V" and run: "stageAct K m st t w = (r, w')"
  shows "datedIn m t (V w) (V w')"
  using run steps_dated [OF laws(1)] laws(2) drop_stages [OF laws(1) run]
  by (cases st) (auto simp: datedIn_def)

lemma stored_start:
  "stored_as cm x \<Longrightarrow> x = Some cm' \<Longrightarrow> startedAt cm' = startedAt cm"
  by (auto simp: startedAt_def dest: stored_as_Some intro: same_cm_fields(5))

lemma moved_start [simp]: "startedAt (letGo cm) = startedAt cm" "startedAt (claimed cm) = startedAt cm"
  by (simp_all add: letGo_def claimed_def startedAt_def)

lemma moved_stored:
  assumes "stored_as (letGo cm) (Some cm')"
  shows "startedAt cm' = startedAt cm" "cmDeletionTimestamp cm' = cmDeletionTimestamp cm"
  using same_cm_derived(1,7) [OF stored_as_Some [OF assms]] by (simp_all add: letGo_def startedAt_def)

text \<open>A step of a run, and what it is.\<close>

lemma step_cases:
  assumes "uninstall_step K V m s s'"
  obtains (stage) st rest r t where "usTodo s = st # rest" "stageAct K m st t (usWorld s) = (r, usWorld s')" "ticksTo s t"
      "usNow s' = t" "usTodo s' = (if r = None then rest else [])" "usTorn s' = usTorn s"
  | (begun) "usTodo s = []" "s' = s\<lparr>usTodo := finalizerStages\<rparr>"
  | (restarted) "s' = s\<lparr>usTodo := []\<rparr>"
  | (around) "usTodo s' = usTodo s" "usNow s \<le> usNow s'"
      "clCRBs (V (usWorld s')) = clCRBs (V (usWorld s))" "clCRs (V (usWorld s')) = clCRs (V (usWorld s))"
      "\<And>cm'. clCMs (V (usWorld s')) (capabilitiesKey m) = Some cm' \<Longrightarrow>
         \<exists>cm. clCMs (V (usWorld s)) (capabilitiesKey m) = Some cm \<and> startedAt cm' = startedAt cm \<and>
           (cmDeletionTimestamp cm \<noteq> None \<longrightarrow> cmDeletionTimestamp cm' \<noteq> None)"
      "\<And>cm. clCMs (V (usWorld s)) (capabilitiesKey m) = Some cm \<Longrightarrow> heldByFeast cm \<Longrightarrow> \<not> usTorn s' \<Longrightarrow>
         \<not> usTorn s \<and> (\<exists>cm'. clCMs (V (usWorld s')) (capabilitiesKey m) = Some cm' \<and> cmFinalizers cm' = cmFinalizers cm)"
  using assms
proof cases
  case (Advance st rest t w')
  then show thesis by (intro stage [of st rest t None]) simp_all
next
  case (Fail st rest t e w')
  then show thesis by (intro stage [of st rest t "Some e"]) simp_all
next
  case (TearDown cm x w')
  then show thesis
    by (intro around) (auto simp: storesCM_def moved_stored)
next
  case (Claim cm x w')
  then show thesis
    by (intro around) (auto simp: storesCM_def dest: stored_start)
next
  case (UserDelete cm t w')
  have "cmFinalizers cm \<noteq> []" if "heldByFeast cm" using that by (auto simp: heldByFeast_def)
  with UserDelete show thesis
    by (intro around) (auto simp: storesCM_def terminated_def startedAt_def split: if_splits option.splits)
next
  case (Elsewhere w')
  then show thesis by (intro around) auto
next
  case Begin
  then show thesis by (intro begun)
next
  case Restart
  then show thesis by (intro restarted)
next
  case (Tick t)
  then show thesis by (intro around) auto
qed

text \<open>A stage moves the clock on and leaves a dated ConfigMap; the rest leaves the start alone.\<close>

lemma step_start:
  assumes laws: "kube_laws K V" "recorder_laws m V" and step: "uninstall_step K V m s s'"
    and cm': "clCMs (V (usWorld s')) (capabilitiesKey m) = Some cm'"
  obtains cm where "clCMs (V (usWorld s)) (capabilitiesKey m) = Some cm"
    "startedAt cm' = startedAt cm \<or> startedAt cm = [] \<and> ticksTo s (usNow s') \<and> startedAt cm' = formatRFC3339 (usNow s')"
  using step
proof (cases rule: step_cases)
  case (stage st rest r t)
  from stage_dated [OF laws stage(2)] cm' obtain cm where
    "clCMs (V (usWorld s)) (capabilitiesKey m) = Some cm"
    "startedAt cm' = startedAt cm \<or> startedAt cm' = startedAt (teardownIntent t cm)"
    by (auto simp: datedIn_def dated_def)
  with stage(3,4) that [of cm] show thesis by (cases "startedAt cm = []") auto
next
  case around
  with cm' that show thesis by blast
qed (use cm' that in auto)

lemma step_time:
  assumes "uninstall_step K V m s s'"
  shows "usNow s \<le> usNow s'"
  using assms by (cases rule: step_cases) (auto simp: ticksTo_def)

definition startsIn :: "('w \<Rightarrow> cluster) \<Rightarrow> 'w module \<Rightarrow> time \<Rightarrow> 'w uninstall \<Rightarrow> bool" where
  "startsIn V m t0 s \<longleftrightarrow>
     t0 \<le> usNow s \<and> (\<forall>cm. clCMs (V (usWorld s)) (capabilitiesKey m) = Some cm \<longrightarrow> recordedIn t0 (usNow s) cm)"

lemma step_startsIn:
  assumes "kube_laws K V" "recorder_laws m V" "uninstall_step K V m s s'" "startsIn V m t0 s"
  shows "startsIn V m t0 s'"
proof -
  note time = step_time [OF assms(3)]
  have "recordedIn t0 (usNow s') cm'" if "clCMs (V (usWorld s')) (capabilitiesKey m) = Some cm'" for cm'
    using assms(1-3) that
  proof (cases rule: step_start)
    case (1 cm)
    have now: "recordedIn t0 (usNow s) cm" "t0 \<le> usNow s" using assms(4) 1(1) by (auto simp: startsIn_def)
    then have later: "recordedIn t0 (usNow s') cm" using recordedIn_mono [OF _ time] by blast
    from 1(2) show ?thesis
    proof
      assume "startedAt cm' = startedAt cm"
      with later recordedIn_cong [of cm' cm] show ?thesis by simp
    qed (use now(2) in \<open>auto simp: recordedIn_def ticksTo_def intro: order_trans\<close>)
  qed
  with assms(4) time show ?thesis by (auto simp: startsIn_def)
qed

text \<open>A start that is recorded stays as it is.\<close>

definition markedBy :: "('w \<Rightarrow> cluster) \<Rightarrow> 'w module \<Rightarrow> time \<Rightarrow> time \<Rightarrow> 'w uninstall \<Rightarrow> bool" where
  "markedBy V m t0 t1 s \<longleftrightarrow>
     (\<forall>cm. clCMs (V (usWorld s)) (capabilitiesKey m) = Some cm \<longrightarrow> startedAt cm \<noteq> [] \<and> recordedIn t0 t1 cm)"

lemma step_markedBy:
  assumes "kube_laws K V" "recorder_laws m V" "uninstall_step K V m s s'" "markedBy V m t0 t1 s"
  shows "markedBy V m t0 t1 s'"
proof -
  have "startedAt cm' \<noteq> [] \<and> recordedIn t0 t1 cm'"
    if "clCMs (V (usWorld s')) (capabilitiesKey m) = Some cm'" for cm'
    using assms(1-3) that
  proof (cases rule: step_start)
    case (1 cm)
    with assms(4) have "startedAt cm \<noteq> []" "recordedIn t0 t1 cm" by (auto simp: markedBy_def)
    with 1(2) recordedIn_cong [of cm' cm] show ?thesis by simp
  qed
  then show ?thesis by (simp add: markedBy_def)
qed

lemma beginning_startsIn: "beginning V m s \<Longrightarrow> startsIn V m (usNow s) s"
  by (auto simp: beginning_def startsIn_def recordedIn_def)

section \<open>Where a run is\<close>

text \<open>The stages left of a run are the last ones; after the withdrawal the ConfigMap is terminating.\<close>

definition onTrack :: "('w \<Rightarrow> cluster) \<Rightarrow> 'w module \<Rightarrow> 'w uninstall \<Rightarrow> bool" where
  "onTrack V m s \<longleftrightarrow>
     suffix (usTodo s) finalizerStages \<and>
     (usTodo s \<noteq> [] \<and> Withdraw \<notin> set (usTodo s) \<longrightarrow>
        (\<forall>cm. clCMs (V (usWorld s)) (capabilitiesKey m) = Some cm \<longrightarrow> cmDeletionTimestamp cm \<noteq> None))"

lemma todo_order:
  assumes "suffix (st # rest) finalizerStages"
  shows "suffix rest finalizerStages" "Await \<in> set rest \<Longrightarrow> st \<in> {Unlabel, Mark, Rollout, Withdraw}"
    "st = Await \<Longrightarrow> Withdraw \<notin> set (st # rest)" "Withdraw \<in> set rest \<Longrightarrow> st \<in> {Unlabel, Mark, Rollout}"
    "rest \<noteq> [] \<and> Withdraw \<notin> set rest \<Longrightarrow> st = Withdraw \<or> Withdraw \<notin> set (st # rest)"
  using assms suffix_ConsD by (fastforce simp: finalizerStages_def suffix_Cons)+

lemma stage_terminating:
  assumes laws: "kube_laws K V" "recorder_laws m V" and run: "stageAct K m st t w = (r, w')"
    and cm': "clCMs (V w') (capabilitiesKey m) = Some cm'"
  obtains cm where "clCMs (V w) (capabilitiesKey m) = Some cm"
    "cmDeletionTimestamp cm \<noteq> None \<longrightarrow> cmDeletionTimestamp cm' \<noteq> None"
proof (cases st)
  case Mark
  with run have "markCapabilitiesDisabled K m t w = (r, w')" by simp
  with laws(1) show thesis
  proof (cases rule: markCapabilitiesDisabled_effect)
    case (marked cm x)
    with cm' that [of cm] same_cm_derived(7) [of "teardownIntent t cm" cm'] show thesis by (auto dest: stored_as_Some)
  qed (use cm' that in auto)
next
  case Withdraw
  with run have "deleteCapabilitiesConfigMap K m w = (r, w')" by simp
  with laws(1) show thesis
  proof (cases rule: deleteCapabilitiesConfigMap_effect)
    case (terminates cm u)
    with cm' that [of cm] show thesis by simp
  qed (use cm' that in auto)
next
  case Release
  with run have "releaseCapabilitiesConfigMap K m w = (r, w')" by simp
  with laws(1) show thesis
  proof (cases rule: releaseCapabilitiesConfigMap_effect)
    case (removed cm x)
    with cm' that [of cm] same_cm_derived(7) [of "released cm" cm'] show thesis by (auto dest: stored_as_Some)
  qed (use cm' that in auto)
next
  case Unlabel
  with run have "removeDataRegistryLabel K w = (r, w')" by simp
  with laws(1) have "clCMs (V w') = clCMs (V w)" by (cases rule: removeDataRegistryLabel_effect) simp_all
  with cm' that show thesis by simp
next
  case Rollout
  with run cm' trigger_frame(2) [OF laws(1)] that show thesis by simp
next
  case Await
  with run cm' waitForFeastOperatorRelease_effect(1) [OF laws] that show thesis by simp
qed (use cm' run drop_stages [OF laws(1) run] that in simp_all)

lemma step_onTrack:
  assumes laws: "kube_laws K V" "recorder_laws m V" and step: "uninstall_step K V m s s'" and before: "onTrack V m s"
  shows "onTrack V m s'"
  using step
proof (cases rule: step_cases)
  case (stage st rest r t)
  note order = todo_order [of st rest]
  have suffix: "suffix (st # rest) finalizerStages" using before stage(1) by (simp add: onTrack_def)
  have "cmDeletionTimestamp cm' \<noteq> None"
    if "r = None" "rest \<noteq> []" "Withdraw \<notin> set rest" "clCMs (V (usWorld s')) (capabilitiesKey m) = Some cm'" for cm'
  proof -
    have "st = Withdraw \<or> Withdraw \<notin> set (st # rest)" using order(5) [OF suffix] that(2,3) by blast
    then show ?thesis
  proof
    assume "st = Withdraw"
    with stage(2) that(1) have "deleteCapabilitiesConfigMap K m (usWorld s) = (None, usWorld s')" by simp
    with laws(1) show ?thesis using that(4) by (rule delete_post)
  next
    assume "Withdraw \<notin> set (st # rest)"
    with before stage(1) have "\<forall>cm. clCMs (V (usWorld s)) (capabilitiesKey m) = Some cm \<longrightarrow> cmDeletionTimestamp cm \<noteq> None"
      by (simp add: onTrack_def)
    with stage_terminating [OF laws stage(2) that(4)] show ?thesis by metis
  qed
  qed
  with stage(5) order(1) [OF suffix] show ?thesis by (simp add: onTrack_def)
next
  case around
  with before show ?thesis unfolding onTrack_def by metis
qed (use before in \<open>auto simp: onTrack_def finalizerStages_def\<close>)

section \<open>Nothing is taken away before its time\<close>

definition deadline :: "time \<Rightarrow> time" where
  "deadline t0 = t0 - t0 mod second + 5 * minute"

definition guarded :: "('w \<Rightarrow> cluster) \<Rightarrow> 'w module \<Rightarrow> cluster \<Rightarrow> cluster \<Rightarrow> bool" where
  "guarded V m c0 c \<longleftrightarrow>
     (\<exists>cm. clCMs c (capabilitiesKey m) = Some cm \<and> heldByFeast cm \<and> heldByModule cm) \<and>
     clCRBs c = clCRBs c0 \<and> clCRs c = clCRs c0"

text \<open>A run that has not passed the wait, or none.\<close>

definition beforeWait :: "'w uninstall \<Rightarrow> bool" where
  "beforeWait s \<longleftrightarrow> usTodo s = [] \<or> Await \<in> set (usTodo s)"

lemma guarded_kept:
  assumes "guarded V m c0 c" "pinned (clCMs c (capabilitiesKey m)) (clCMs c' (capabilitiesKey m))"
    and "clCRBs c' = clCRBs c" "clCRs c' = clCRs c"
  shows "guarded V m c0 c'"
  using assms by (auto simp: guarded_def pinned_def heldByFeast_def heldByModule_def)

lemma early_stage:
  assumes laws: "kube_laws K V" "recorder_laws m V" and run: "stageAct K m st t w = (r, w')"
    and early: "st \<in> {Unlabel, Mark, Rollout, Withdraw, Await}" and before: "guarded V m c0 (V w)"
  shows "guarded V m c0 (V w')"
proof -
  note contract = removing.rbac_kept [OF laws] removing.step_pins [OF laws]
    marking.rbac_kept [OF laws] marking.step_pins [OF laws]
    rolling.rbac_kept [OF laws] rolling.step_pins [OF laws]
    deleting.rbac_kept [OF laws] deleting.step_pins [OF laws]
    waiting.rbac_kept [OF laws] waiting.step_pins [OF laws]
  have "clCRBs (V w') = clCRBs (V w) \<and> clCRs (V w') = clCRs (V w) \<and>
      pinned (clCMs (V w) (capabilitiesKey m)) (clCMs (V w') (capabilitiesKey m))"
    using early run by (elim insertE emptyE) (simp_all add: contract)
  with before show ?thesis by (blast intro: guarded_kept)
qed

lemma step_guarded:
  assumes laws: "kube_laws K V" "recorder_laws m V" and step: "uninstall_step K V m s s'"
    and track: "startsIn V m t0 s" "onTrack V m s"
    and before: "usTorn s \<or> deadline t0 \<le> usNow s \<or> guarded V m c0 (V (usWorld s)) \<and> beforeWait s"
  shows "usTorn s' \<or> deadline t0 \<le> usNow s' \<or> guarded V m c0 (V (usWorld s')) \<and> beforeWait s'"
proof (cases "usTorn s \<or> deadline t0 \<le> usNow s")
  case True
  have "usTorn s \<Longrightarrow> usTorn s'" using step by cases auto
  with True step_time [OF step] show ?thesis by auto
next
  case False
  with before have g: "guarded V m c0 (V (usWorld s))" "beforeWait s" by simp_all
  from step show ?thesis
  proof (cases rule: step_cases)
    case (stage st rest r t)
    note order = todo_order [of st rest]
    have suffix: "suffix (st # rest) finalizerStages" using track(2) stage(1) by (simp add: onTrack_def)
    have "st = Await \<or> Await \<in> set rest" using g(2) stage(1) by (auto simp: beforeWait_def)
    then have "st \<in> {Unlabel, Mark, Rollout, Withdraw, Await}" using order(2) [OF suffix] by auto
    then have after: "guarded V m c0 (V (usWorld s'))" by (rule early_stage [OF laws stage(2) _ g(1)])
    show ?thesis
    proof (cases "st = Await \<and> r = None")
      case True
      then have wait: "waitForFeastOperatorRelease K m t (usWorld s) = (None, usWorld s')" using stage(2) by simp
      obtain cm where cm: "clCMs (V (usWorld s)) (capabilitiesKey m) = Some cm" "heldByFeast cm"
        using g(1) by (auto simp: guarded_def)
      have "timedOut t cm" using waitForFeastOperatorRelease_effect(2) [OF laws wait refl cm] by simp
      moreover have "recordedIn t0 (usNow s) cm" using track(1) cm(1) by (simp add: startsIn_def)
      ultimately have "deadline t0 \<le> t" unfolding deadline_def by (rule timedOut_since [rotated])
      with stage(4) show ?thesis by simp
    next
      case False
      with \<open>st = Await \<or> Await \<in> set rest\<close> stage(5) have "beforeWait s'" by (auto simp: beforeWait_def)
      with after show ?thesis by simp
    qed
  next
    case begun
    with g show ?thesis by (simp add: beforeWait_def finalizerStages_def)
  next
    case restarted
    with g show ?thesis by (simp add: beforeWait_def)
  next
    case around
    obtain cm where cm: "clCMs (V (usWorld s)) (capabilitiesKey m) = Some cm" "heldByFeast cm" "heldByModule cm"
      using g(1) by (auto simp: guarded_def)
    show ?thesis
    proof (cases "usTorn s'")
      case False
      with around(6) [OF cm(1,2)] cm around(3,4) g show ?thesis
        by (auto simp: guarded_def beforeWait_def around(1) heldByFeast_def heldByModule_def)
    qed simp
  qed
qed

text \<open>What holds in every state of an uninstall that began in \<open>s0\<close>.\<close>

definition uninstalling :: "('w \<Rightarrow> cluster) \<Rightarrow> 'w module \<Rightarrow> 'w uninstall \<Rightarrow> 'w uninstall \<Rightarrow> bool" where
  "uninstalling V m s0 s \<longleftrightarrow>
     startsIn V m (usNow s0) s \<and> onTrack V m s \<and>
     (usTorn s \<or> deadline (usNow s0) \<le> usNow s \<or> guarded V m (V (usWorld s0)) (V (usWorld s)) \<and> beforeWait s)"

lemma beginning_uninstalling: "beginning V m s0 \<Longrightarrow> uninstalling V m s0 s0"
  using beginning_startsIn [of V m s0]
  by (auto simp: uninstalling_def beginning_def onTrack_def guarded_def beforeWait_def finalizerStages_def)

lemma steps_uninstalling:
  assumes "kube_laws K V" "recorder_laws m V" "(uninstall_step K V m)\<^sup>*\<^sup>* s1 s2" "uninstalling V m s0 s1"
  shows "uninstalling V m s0 s2"
  using assms(3,4)
proof (induction rule: rtranclp_induct)
  case (step s s')
  then show ?case
    using step_startsIn [OF assms(1,2)] step_onTrack [OF assms(1,2)] step_guarded [OF assms(1,2)]
    unfolding uninstalling_def by blast
qed

lemma steps_markedBy:
  assumes "kube_laws K V" "recorder_laws m V" "(uninstall_step K V m)\<^sup>*\<^sup>* s s'" "markedBy V m t0 t1 s"
  shows "markedBy V m t0 t1 s'"
  using assms(3,4) by (induction rule: rtranclp_induct) (auto intro: step_markedBy [OF assms(1,2)])

section \<open>Marking, and the end of the wait\<close>

lemma mark_marks:
  assumes laws: "kube_laws K V" "recorder_laws m V"
    and run: "stageAct K m Mark t (usWorld s) = (None, w')" and at: "usTodo s = Mark # rest" "ticksTo s t"
    and before: "uninstalling V m s0 s"
  shows "markedBy V m (usNow s0) t (s\<lparr>usWorld := w', usNow := t, usTodo := rest\<rparr>)"
proof -
  have step: "uninstall_step K V m s (s\<lparr>usWorld := w', usNow := t, usTodo := rest\<rparr>)"
    using at(1) run at(2) by (rule Advance)
  have later: "startsIn V m (usNow s0) (s\<lparr>usWorld := w', usNow := t, usTodo := rest\<rparr>)"
    using step_startsIn [OF laws step] before by (simp add: uninstalling_def)
  have "startedAt cm \<noteq> []" if found: "clCMs (V w') (capabilitiesKey m) = Some cm" for cm
  proof -
    have "markCapabilitiesDisabled K m t (usWorld s) = (None, w')" using run by simp
    with laws(1) obtain cm0 where "clCMs (V (usWorld s)) (capabilitiesKey m) = Some cm0" "markedFrom t cm0 cm"
      using found by (rule mark_post)
    then show ?thesis by (simp add: markedFrom_def)
  qed
  with later show ?thesis by (simp add: markedBy_def startsIn_def)
qed

text \<open>On a server that answers, only the wait can fail, and not after its time.\<close>

lemma stage_succeeds:
  assumes laws: "kube_laws K V" "kube_available K V" "recorder_laws m V"
    and track: "onTrack V m s" "usTodo s = st # rest" and marked: "markedBy V m t0 t1 s" "t1 + 5 * minute \<le> t"
  shows "fst (stageAct K m st t (usWorld s)) = None"
proof (cases st)
  case Await
  have "suffix (st # rest) finalizerStages" using track by (simp add: onTrack_def)
  from todo_order(3) [OF this Await] have gone: "Withdraw \<notin> set (usTodo s)" using track(2) by simp
  have "cmDeletionTimestamp cm \<noteq> None \<and> timedOut t cm" if "clCMs (V (usWorld s)) (capabilitiesKey m) = Some cm" for cm
    using that gone track marked by (auto simp: onTrack_def markedBy_def intro: timedOut_by)
  then show ?thesis using waitForFeastOperatorRelease_progress [OF laws(1,2)] by (simp add: Await)
next
  case DropBindings
  then show ?thesis using deleteListed_progress [OF availableD(8) [OF laws(2)] availableD(10) [OF laws(2)]] by simp
next
  case DropRoles
  then show ?thesis using deleteListed_progress [OF availableD(9) [OF laws(2)] availableD(11) [OF laws(2)]] by simp
qed (use removeDataRegistryLabel_progress [OF laws(1,2)] markCapabilitiesDisabled_progress [OF laws(1,2)]
    triggerCapabilityRolloutIfNeeded_progress [OF laws(1,2)] deleteCapabilitiesConfigMap_progress [OF laws(1,2)]
    releaseCapabilitiesConfigMap_progress [OF laws(1,2)] in simp_all)

lemma stages_succeed:
  assumes laws: "kube_laws K V" "kube_available K V" "recorder_laws m V" and late: "t1 + 5 * minute \<le> t"
  shows "onTrack V m s \<Longrightarrow> markedBy V m t0 t1 s \<Longrightarrow> usTodo s = sts \<Longrightarrow> ticksTo s t \<Longrightarrow>
    fst (forEach (\<lambda>st. stageAct K m st t) sts (usWorld s)) = None"
proof (induction sts arbitrary: s)
  case (Cons st rest)
  obtain w' where run: "stageAct K m st t (usWorld s) = (None, w')"
    using stage_succeeds [OF laws Cons.prems(1,3,2) late] by (metis prod.collapse)
  let ?s = "s\<lparr>usWorld := w', usNow := t, usTodo := rest\<rparr>"
  have step: "uninstall_step K V m s ?s" using Cons.prems(3) run Cons.prems(4) by (rule Advance)
  have "fst (forEach (\<lambda>st. stageAct K m st t) rest (usWorld ?s)) = None"
    using step_onTrack [OF laws(1,3) step Cons.prems(1)] step_markedBy [OF laws(1,3) step Cons.prems(2)] Cons.prems(4)
    by (intro Cons.IH) (simp_all add: ticksTo_def)
  with run show ?case by simp
qed simp

end
