(* ===== verification/ReconcileProofs.thy ===== *)
theory ReconcileProofs
  imports CapabilitySteps
begin

text \<open>
  The effect of the reconciliation of the capabilities ConfigMap: on a live ConfigMap (or none) the
  desired object, on a terminating one only the release of the module's finalizer.
\<close>

definition foundConfigMap :: "'w module \<Rightarrow> cluster \<Rightarrow> config_map" where
  "foundConfigMap m c =
     (case clCMs c (capabilitiesKey m) of
        None \<Rightarrow> newConfigMap capabilitiesConfigMapName (cfgApplicationsNamespace (mCfg m))
      | Some old \<Rightarrow> old)"

lemma newConfigMap_key: "cmKey (newConfigMap capabilitiesConfigMapName (cfgApplicationsNamespace (mCfg m))) = capabilitiesKey m"
  by (simp add: newConfigMap_def cmKey_def capabilitiesKey_def)

lemma mutate_terminating:
  assumes "kube_laws K V" "cmDeletionTimestamp cm \<noteq> None"
  shows "mutateCapabilities K feast fs dr cm = Inr (released cm)"
  using assms by (auto simp: mutateCapabilities_def released_def finalizer_ops [OF assms(1)])

text \<open>The desired object, up to its owner references, which \<open>adopted\<close> fixes.\<close>

definition desired :: "'w kube \<Rightarrow> bool \<Rightarrow> bool \<Rightarrow> config_map \<Rightarrow> config_map \<Rightarrow> bool" where
  "desired K fs dr cm cm' \<longleftrightarrow>
     cmKey cm' = cmKey cm \<and> cmDeletionTimestamp cm' = cmDeletionTimestamp cm \<and>
     gm_eq (cmAnnotations cm') (cmAnnotations cm) \<and>
     gm_make (cmData cm') = capabilitiesData fs dr \<and>
     cmFinalizers cm' =
       (if heldByModule cm then cmFinalizers cm else cmFinalizers cm @ [capabilitiesConfigMapFinalizer]) \<and>
     gm_make (cmLabels cm') = fmupd (componentLabel K componentName) (labelTrue K) (gm_make (cmLabels cm))"

text \<open>
  The owner references are those that \<open>SetControllerReference\<close> makes of the found object's, and
  setting the owner again changes nothing.
\<close>

definition adopted :: "'w kube \<Rightarrow> feast_operator \<Rightarrow> config_map \<Rightarrow> config_map \<Rightarrow> bool" where
  "adopted K f cm cm' \<longleftrightarrow>
     setControllerReference K f cm = Inr (cm\<lparr>cmOwners := cmOwners cm'\<rparr>) \<and> ownedBy K f cm'"

lemma mutate_live:
  assumes "kube_laws K V" "cmDeletionTimestamp cm = None" "mutateCapabilities K feast fs dr cm = Inr cm'"
  shows "desired K fs dr cm cm'" "adopted K feast cm cm'"
proof -
  let ?cm = "(cm\<lparr>cmLabels := Some (fmupd (componentLabel K componentName) (labelTrue K) (gm_make (cmLabels cm)))\<rparr>)
    \<lparr>cmFinalizers := (if heldByModule cm then cmFinalizers cm else cmFinalizers cm @ [capabilitiesConfigMapFinalizer]),
     cmData := Some (capabilitiesData fs dr)\<rparr>"
  have set: "setControllerReference K feast ?cm = Inr cm'"
    using assms(2,3) by (simp add: mutateCapabilities_def Let_def finalizer_ops [OF assms(1)] heldByModule_def split: if_splits)
  with assms(1) obtain os where "cm' = ?cm\<lparr>cmOwners := os\<rparr>" by (rule setControllerReference_owners)
  then show "desired K fs dr cm cm'" by (simp add: desired_def cmKey_def)
  show "adopted K feast cm cm'"
    using setControllerReference_cong [OF assms(1) set, of cm] setControllerReference_owned [OF assms(1) set, of cm']
    by (simp add: adopted_def)
qed

lemma adopted_stored:
  assumes "kube_laws K V" "adopted K f cm cm'" "same_cm cm' cm''"
  shows "adopted K f cm cm''"
proof -
  have same: "cmKey cm'' = cmKey cm'" "cmOwners cm'' = cmOwners cm'"
    using assms(3) by (simp_all add: same_cm_def)
  have "setControllerReference K f cm' = Inr cm'" using assms(2) by (simp add: adopted_def ownedBy_def)
  from setControllerReference_owned [OF assms(1) this same] assms(2) same show ?thesis
    by (simp add: adopted_def)
qed

lemma desired_stored:
  assumes "desired K fs dr cm cm'" "same_cm cm' cm''"
  shows "desired K fs dr cm cm''"
  using assms by (auto simp: desired_def same_cm_def gm_eq_def)

lemma desired_held: "desired K fs dr cm cm' \<Longrightarrow> heldByModule cm'"
  by (auto simp: desired_def heldByModule_def split: if_splits)

lemma reconcileCapabilities_run:
  assumes "rrInstance rr = FeastInst feast" "resolveCapabilities m feast = (fs, dr)"
    "reconcileCapabilitiesConfigMap K m rr w = (r, w')"
  obtains res where "createOrUpdateCM K (newConfigMap capabilitiesConfigMapName (cfgApplicationsNamespace (mCfg m)))
      (mutateCapabilities K feast fs dr) w = (res, w')" "r = None \<longleftrightarrow> \<not> isl res"
  using assms by (auto simp: reconcileCapabilitiesConfigMap_def Let_def split: prod.splits sum.splits)

lemma reconcileCapabilities_effect:
  assumes "kube_laws K V" "rrInstance rr = FeastInst feast" "resolveCapabilities m feast = (fs, dr)"
    "reconcileCapabilitiesConfigMap K m rr w = (r, w')"
  obtains (failed) "r \<noteq> None" "V w' = V w"
  | (live) cm' where "cmDeletionTimestamp (foundConfigMap m (V w)) = None"
      "desired K fs dr (foundConfigMap m (V w)) cm'"
      "V w' = (V w)\<lparr>clCMs := (clCMs (V w))(capabilitiesKey m \<mapsto> cm')\<rparr>"
      "adopted K feast (foundConfigMap m (V w)) cm'"
  | (terminating) cm x where "clCMs (V w) (capabilitiesKey m) = Some cm" "cmDeletionTimestamp cm \<noteq> None"
      "stored_as (released cm) x" "V w' = (V w)\<lparr>clCMs := (clCMs (V w))(capabilitiesKey m := x)\<rparr>"
proof -
  let ?new = "newConfigMap capabilitiesConfigMapName (cfgApplicationsNamespace (mCfg m))"
  obtain res where res: "createOrUpdateCM K ?new (mutateCapabilities K feast fs dr) w = (res, w')" "r = None \<longleftrightarrow> \<not> isl res"
    using assms(2-4) by (rule reconcileCapabilities_run)
  have base: "foundConfigMap m (V w) = (case clCMs (V w) (cmKey ?new) of None \<Rightarrow> ?new | Some old \<Rightarrow> old)"
    by (simp add: foundConfigMap_def newConfigMap_key)
  from assms(1) res(1) base show thesis
  proof (cases rule: createOrUpdateCM_effect)
    case (failed e)
    with res(2) that(1) show thesis by simp
  next
    case (written cm1 x)
    show thesis
    proof (cases "cmDeletionTimestamp (foundConfigMap m (V w))")
      case None
      with written(1) have d: "desired K fs dr (foundConfigMap m (V w)) cm1" "adopted K feast (foundConfigMap m (V w)) cm1"
        by (intro mutate_live [OF assms(1)]; simp)+
      from d(1) have "cmDeletionTimestamp cm1 = None" using None by (simp add: desired_def)
      with written(3) None obtain cm' where "x = Some cm'" "same_cm cm1 cm'"
        by (auto simp: stored_as_def same_deletion)
      with d written(4) None show thesis
        by (intro that(2) [of cm']) (simp_all add: desired_stored adopted_stored [OF assms(1)] newConfigMap_key)
    next
      case (Some t)
      then obtain cm where cm: "clCMs (V w) (capabilitiesKey m) = Some cm" "foundConfigMap m (V w) = cm"
        by (cases "clCMs (V w) (capabilitiesKey m)") (auto simp: foundConfigMap_def newConfigMap_def)
      with Some written(1) have "cm1 = released cm" by (simp add: mutate_terminating [OF assms(1)])
      with cm Some written(3,4) show thesis
        by (intro that(3) [of cm x]) (simp_all add: same_deletion newConfigMap_key)
    qed
  qed
qed

lemma capabilitiesData_get [simp]:
  "gm_get (Some (capabilitiesData fs dr)) capabilitiesKeyFeatureStoreEnabled = boolString fs"
  "gm_get (Some (capabilitiesData fs dr)) capabilitiesKeyDataRegistryEnabled = boolString dr"
  "gm_get (Some (capabilitiesData fs dr)) capabilitiesKeyDataRegistryNS = (if dr then dataRegistryNamespaceName else [])"
  by (simp_all add: capabilitiesData_def Let_def)

lemma desired_again:
  assumes "desired K fs dr a b" "desired K fs dr b c"
  shows "cmFinalizers c = cmFinalizers b" "gm_eq (cmData c) (cmData b)" "gm_eq (cmLabels c) (cmLabels b)"
    "gm_eq (cmAnnotations c) (cmAnnotations b)"
  using assms desired_held [OF assms(1)] by (simp_all add: desired_def gm_eq_def)

lemma adopted_again:
  assumes "adopted K f a b" "adopted K f b c"
  shows "cmOwners c = cmOwners b"
  using assms by (simp add: adopted_def ownedBy_def) (metis config_map.ext_inject config_map.surjective config_map.update_convs(7))

end
