(* ===== verification/CapabilityProps.thy ===== *)
theory CapabilityProps
  imports CleanupProps ReconcileProofs
begin

text \<open>
  The properties of the reconciliation of the capabilities: the ConfigMap, the rollout, the data
  hash and the Data Registry namespace.
\<close>

section \<open>Runs on the concrete server\<close>

lemma demo_resolve: "resolveCapabilities demoModule demoFeast = (True, True)"
  by (simp add: resolveCapabilities_def demoFeast_def demoModule_def demoConfig_def)

lemma demo_namespace: "cfgApplicationsNamespace (mCfg demoModule) = ''opendatahub''"
  by (simp add: demoModule_def demoConfig_def)

lemma demo_reconcile_any:
  assumes "rrInstance rr = FeastInst feast"
  obtains w' where "reconcileCapabilitiesConfigMap demoKube demoModule rr w = (None, w')"
proof -
  have key: "cmKey (removeFinalizer demoKube f cm) = cmKey cm" "cmKey (addFinalizer demoKube f cm) = cmKey cm"
    "setControllerReference demoKube feast cm = Inr (cm\<lparr>cmOwners := [metaName feast]\<rparr>)" for f cm
    by (simp_all add: demoKube_def)
  have mutate: "\<exists>cm1. mutateCapabilities demoKube feast fs dr cm = Inr cm1 \<and> cmKey cm1 = cmKey cm" for fs dr cm
    by (simp add: mutateCapabilities_def Let_def key)
  obtain fs dr where res: "resolveCapabilities demoModule feast = (fs, dr)" by fastforce
  let ?new = "newConfigMap capabilitiesConfigMapName ''opendatahub''"
  let ?base = "case storedBy cmKey (dCMs w) (cmKey ?new) of None \<Rightarrow> ?new | Some old \<Rightarrow> old"
  have "cmKey ?base = cmKey ?new" by (auto split: option.splits dest: storedBy_key)
  with mutate [of fs dr ?base] obtain cm1
    where "mutateCapabilities demoKube feast fs dr ?base = Inr cm1" "cmKey cm1 = cmKey ?new" by auto
  then have "\<exists>res w'. createOrUpdateCM demoKube ?new (mutateCapabilities demoKube feast fs dr) w = (Inr res, w')"
    by (simp add: demoKube_def demoCreateOrUpdate_def Let_def)
  then have "\<exists>w'. reconcileCapabilitiesConfigMap demoKube demoModule rr w = (None, w')"
    by (auto simp: reconcileCapabilitiesConfigMap_def assms res Let_def demo_namespace)
  with that show thesis by blast
qed

lemmas demo_reconcile_run = demo_reconcile_any [OF demo_feast]

section \<open>The ConfigMap\<close>

text \<open>
  C13. A successful reconciliation of a ConfigMap that is not terminating (or not there) stores
  exactly the desired data: each flag is \<^verbatim>\<open>true\<close> or \<^verbatim>\<open>false\<close> as the capability block of the resource
  says (\<^verbatim>\<open>Managed\<close> or not), or as the configuration says when there is no block, the registry
  namespace is present exactly when the registry is enabled, and there is no other key. The module's
  finalizer and the component label are on the object; other finalizers, labels and all annotations
  are kept. The owner references are those that \<open>SetControllerReference\<close> makes of the found object's
  for this resource, and the stored object is owned by it: setting the reference again changes
  nothing. No other object of the cluster changes.
\<close>

theorem reconcile_stores_capabilities:
  assumes "kube_laws K V" "rrInstance rr = FeastInst feast"
    and "cmDeletionTimestamp (foundConfigMap m (V w)) = None"
    and "reconcileCapabilitiesConfigMap K m rr w = (None, w')"
    and "fs = (case specCapabilities (spec feast) of Some c \<Rightarrow> managementState (featureStore c) = ''Managed''
                | None \<Rightarrow> cfgFeatureStoreEnabled (mCfg m))"
    and "dr = (case specCapabilities (spec feast) of Some c \<Rightarrow> managementState (dataRegistry c) = ''Managed''
                | None \<Rightarrow> cfgDataRegistryEnabled (mCfg m))"
  shows "\<exists>cm'. clCMs (V w') (capabilitiesKey m) = Some cm' \<and>
    (\<forall>k. gm_lookup (cmData cm') k =
       (if k = ''featureStoreEnabled'' then Some (if fs then ''true'' else ''false'')
        else if k = ''dataRegistryEnabled'' then Some (if dr then ''true'' else ''false'')
        else if k = ''dataRegistryNamespace'' \<and> dr then Some ''rhoai-data-registry''
        else None)) \<and>
    set (cmFinalizers cm') = insert capabilitiesConfigMapFinalizer (set (cmFinalizers (foundConfigMap m (V w)))) \<and>
    (\<forall>k. gm_lookup (cmLabels cm') k =
       (if k = componentLabel K componentName then Some (labelTrue K)
        else gm_lookup (cmLabels (foundConfigMap m (V w))) k)) \<and>
    (\<forall>k. gm_lookup (cmAnnotations cm') k = gm_lookup (cmAnnotations (foundConfigMap m (V w))) k) \<and>
    setControllerReference K feast (foundConfigMap m (V w)) =
      Inr ((foundConfigMap m (V w))\<lparr>cmOwners := cmOwners cm'\<rparr>) \<and>
    setControllerReference K feast cm' = Inr cm' \<and>
    V w' = (V w)\<lparr>clCMs := (clCMs (V w))(capabilitiesKey m \<mapsto> cm')\<rparr>"
proof -
  have res: "resolveCapabilities m feast = (fs, dr)"
    by (simp add: resolveCapabilities_def assms(5,6) capabilityManaged_def split: option.splits)
  from assms(1,2) res assms(4) show ?thesis
  proof (cases rule: reconcileCapabilities_effect)
    case (live cm')
    let ?old = "foundConfigMap m (V w)"
    have data: "gm_lookup (cmData cm') k =
       (if k = ''featureStoreEnabled'' then Some (if fs then ''true'' else ''false'')
        else if k = ''dataRegistryEnabled'' then Some (if dr then ''true'' else ''false'')
        else if k = ''dataRegistryNamespace'' \<and> dr then Some ''rhoai-data-registry'' else None)" for k
      using live(2) by (auto simp: desired_def gm_lookup_make capabilitiesData_def Let_def boolString_def formatBool_def
          capabilitiesKeyFeatureStoreEnabled_def capabilitiesKeyDataRegistryEnabled_def
          capabilitiesKeyDataRegistryNS_def dataRegistryNamespaceName_def)
    have fin: "set (cmFinalizers cm') = insert capabilitiesConfigMapFinalizer (set (cmFinalizers ?old))"
      using live(2) by (auto simp: desired_def heldByModule_def)
    have labels: "gm_lookup (cmLabels cm') k =
        (if k = componentLabel K componentName then Some (labelTrue K) else gm_lookup (cmLabels ?old) k)" for k
      using live(2) by (simp add: desired_def gm_lookup_make)
    have ann: "gm_lookup (cmAnnotations cm') k = gm_lookup (cmAnnotations ?old) k" for k
      using live(2) by (simp add: desired_def gm_eq_lookup)
    have own: "setControllerReference K feast ?old = Inr (?old\<lparr>cmOwners := cmOwners cm'\<rparr>)"
      "setControllerReference K feast cm' = Inr cm'"
      using live(4) by (simp_all add: adopted_def ownedBy_def)
    show ?thesis using live(3) data fin labels ann own by (intro exI [of _ cm']) simp
  next
    case (terminating cm x)
    with assms(3) show ?thesis by (simp add: foundConfigMap_def)
  qed simp
qed

lemma reconcile_stores_capabilities_witness:
  "\<exists>w' cm'. reconcileCapabilitiesConfigMap demoKube demoModule demoRequest (heldWorld\<lparr>dCMs := []\<rparr>) = (None, w') \<and>
     clCMs (demoView w') (capabilitiesKey demoModule) = Some cm' \<and>
     gm_lookup (cmData cm') ''dataRegistryNamespace'' = Some ''rhoai-data-registry'' \<and>
     cmOwners cm' = [''default-feastoperator'']"
proof -
  obtain w' where run: "reconcileCapabilitiesConfigMap demoKube demoModule demoRequest (heldWorld\<lparr>dCMs := []\<rparr>) = (None, w')"
    by (rule demo_reconcile_run)
  have "cmDeletionTimestamp (foundConfigMap demoModule (demoView (heldWorld\<lparr>dCMs := []\<rparr>))) = None"
    by (simp add: foundConfigMap_def storedBy_def newConfigMap_def)
  from reconcile_stores_capabilities [OF demo_laws demo_feast this run refl refl] obtain cm' where
    "clCMs (demoView w') (capabilitiesKey demoModule) = Some cm'"
    "gm_lookup (cmData cm') ''dataRegistryNamespace'' = Some ''rhoai-data-registry''"
    "setControllerReference demoKube demoFeast cm' = Inr cm'"
    by (auto simp: demoFeast_def demoModule_def demoConfig_def)
  moreover have "cmOwners cm' = [''default-feastoperator'']"
  proof -
    have "setControllerReference demoKube demoFeast cm' = Inr (cm'\<lparr>cmOwners := [''default-feastoperator'']\<rparr>)"
      by (simp add: demoKube_def demoFeast_def feastOperatorInstanceName_def)
    with calculation(3) have "cm'\<lparr>cmOwners := [''default-feastoperator'']\<rparr> = cm'" by simp
    then have "cmOwners (cm'\<lparr>cmOwners := [''default-feastoperator'']\<rparr>) = cmOwners cm'" by (rule arg_cong)
    then show ?thesis by simp
  qed
  ultimately show ?thesis using run by blast
qed

text \<open>
  C14. Reconciling twice changes nothing that the first time did not: after a successful
  reconciliation of a ConfigMap that is not terminating (or not there) a second successful one leaves
  its data, labels, annotations, finalizers and owner references as they are, and every other object
  too. (A terminating one is let go, and then created anew: the next property.)
\<close>

theorem reconcile_idempotent:
  assumes "kube_laws K V" "rrInstance rr = FeastInst feast"
    and "cmDeletionTimestamp (foundConfigMap m (V w)) = None"
    and "reconcileCapabilitiesConfigMap K m rr w = (None, w1)" "reconcileCapabilitiesConfigMap K m rr w1 = (None, w2)"
  shows "\<exists>a b. clCMs (V w1) (capabilitiesKey m) = Some a \<and> clCMs (V w2) (capabilitiesKey m) = Some b \<and>
    V w2 = (V w1)\<lparr>clCMs := (clCMs (V w1))(capabilitiesKey m \<mapsto> b)\<rparr> \<and>
    cmFinalizers b = cmFinalizers a \<and> gm_eq (cmData b) (cmData a) \<and> gm_eq (cmLabels b) (cmLabels a) \<and>
    gm_eq (cmAnnotations b) (cmAnnotations a) \<and> cmDeletionTimestamp b = None \<and>
    cmOwners b = cmOwners a \<and> cmKey b = cmKey a"
proof -
  obtain fs dr where res: "resolveCapabilities m feast = (fs, dr)" by fastforce
  from assms(1,2) res assms(4) obtain a where a: "desired K fs dr (foundConfigMap m (V w)) a"
    "V w1 = (V w)\<lparr>clCMs := (clCMs (V w))(capabilitiesKey m \<mapsto> a)\<rparr>" "adopted K feast (foundConfigMap m (V w)) a"
    using assms(3) by (cases rule: reconcileCapabilities_effect) (auto simp: foundConfigMap_def)
  then have found: "foundConfigMap m (V w1) = a" "cmDeletionTimestamp a = None"
    using assms(3) by (simp_all add: foundConfigMap_def desired_def)
  from assms(1,2) res assms(5) obtain b where b: "desired K fs dr a b"
    "V w2 = (V w1)\<lparr>clCMs := (clCMs (V w1))(capabilitiesKey m \<mapsto> b)\<rparr>" "adopted K feast a b"
    using found a(2) by (cases rule: reconcileCapabilities_effect) auto
  with a found desired_again [OF a(1) b(1)] adopted_again [OF a(3) b(3)] show ?thesis
    by (intro exI [of _ a] exI [of _ b]) (simp add: desired_def)
qed

lemma reconcile_idempotent_witness:
  "\<exists>w1 w2 a b. reconcileCapabilitiesConfigMap demoKube demoModule demoRequest heldWorld = (None, w1) \<and>
     reconcileCapabilitiesConfigMap demoKube demoModule demoRequest w1 = (None, w2) \<and>
     clCMs (demoView w1) (capabilitiesKey demoModule) = Some a \<and>
     clCMs (demoView w2) (capabilitiesKey demoModule) = Some b \<and> cmFinalizers b = cmFinalizers a"
proof -
  obtain w1 where run1: "reconcileCapabilitiesConfigMap demoKube demoModule demoRequest heldWorld = (None, w1)"
    by (rule demo_reconcile_run)
  obtain w2 where run2: "reconcileCapabilitiesConfigMap demoKube demoModule demoRequest w1 = (None, w2)"
    by (rule demo_reconcile_run)
  have "cmDeletionTimestamp (foundConfigMap demoModule (demoView heldWorld)) = None"
    using held_stored by (simp add: foundConfigMap_def heldConfigMap_def newConfigMap_def)
  from reconcile_idempotent [OF demo_laws demo_feast this run1 run2] run1 run2 show ?thesis by blast
qed

text \<open>
  C15. On a terminating ConfigMap a successful reconciliation only takes the module's own finalizer
  off: the other finalizers, data, labels, annotations and owner references stay, nothing else in the
  cluster changes, and the object goes away exactly when no other finalizer is left. Once it is gone, the next successful reconciliation creates it anew, live and with the
  module's finalizer.
\<close>

theorem reconcile_lets_deletion_finish:
  assumes "kube_laws K V" "rrInstance rr = FeastInst feast"
    and "clCMs (V w) (capabilitiesKey m) = Some cm" "cmDeletionTimestamp cm \<noteq> None"
    and "reconcileCapabilitiesConfigMap K m rr w = (None, w1)"
  shows "V w1 = (V w)\<lparr>clCMs := (clCMs (V w))(capabilitiesKey m := clCMs (V w1) (capabilitiesKey m))\<rparr> \<and>
   (case clCMs (V w1) (capabilitiesKey m) of
      None \<Rightarrow> set (cmFinalizers cm) \<subseteq> {capabilitiesConfigMapFinalizer} \<and>
        (\<forall>w2. reconcileCapabilitiesConfigMap K m rr w1 = (None, w2) \<longrightarrow>
           (\<exists>cm2. clCMs (V w2) (capabilitiesKey m) = Some cm2 \<and> cmDeletionTimestamp cm2 = None \<and>
              capabilitiesConfigMapFinalizer \<in> set (cmFinalizers cm2)))
    | Some cm1 \<Rightarrow>
        cmFinalizers cm1 = filter (\<lambda>f. f \<noteq> capabilitiesConfigMapFinalizer) (cmFinalizers cm) \<and>
        cmFinalizers cm1 \<noteq> [] \<and> cmDeletionTimestamp cm1 = cmDeletionTimestamp cm \<and>
        gm_eq (cmData cm) (cmData cm1) \<and> gm_eq (cmLabels cm) (cmLabels cm1) \<and>
        gm_eq (cmAnnotations cm) (cmAnnotations cm1) \<and> cmOwners cm1 = cmOwners cm \<and> cmKey cm1 = cmKey cm)"
proof -
  obtain fs dr where res: "resolveCapabilities m feast = (fs, dr)" by fastforce
  from assms(1,2) res assms(5) obtain x where x: "stored_as (released cm) x" "clCMs (V w1) (capabilitiesKey m) = x"
    "V w1 = (V w)\<lparr>clCMs := (clCMs (V w))(capabilitiesKey m := x)\<rparr>"
    using assms(3,4) by (cases rule: reconcileCapabilities_effect) (auto simp: foundConfigMap_def)
  show ?thesis
  proof (cases x)
    case None
    then have "set (cmFinalizers cm) \<subseteq> {capabilitiesConfigMapFinalizer}"
      using x(1) by (auto simp: stored_as_def filter_empty_conv split: if_splits)
    moreover have "\<exists>cm2. clCMs (V w2) (capabilitiesKey m) = Some cm2 \<and> cmDeletionTimestamp cm2 = None \<and>
        capabilitiesConfigMapFinalizer \<in> set (cmFinalizers cm2)"
      if run2: "reconcileCapabilitiesConfigMap K m rr w1 = (None, w2)" for w2
    proof -
      have "cmDeletionTimestamp (foundConfigMap m (V w1)) = None"
        using None x(2) by (simp add: foundConfigMap_def newConfigMap_def)
      from assms(1,2) res run2 this show ?thesis
      proof (cases rule: reconcileCapabilities_effect)
        case (live cm2)
        then have "cmDeletionTimestamp cm2 = None" "heldByModule cm2"
          using desired_held [OF live(2)] by (simp_all add: desired_def)
        with live(3) show ?thesis by (simp add: heldByModule_def)
      next
        case (terminating cm2 y)
        with None x(2) show ?thesis by simp
      qed simp
    qed
    ultimately show ?thesis using None x(2,3) by simp
  next
    case (Some cm1)
    with x(1) have "same_cm (released cm) cm1" by (auto intro: stored_as_Some)
    moreover from Some x(1) assms(4) have "cmFinalizers (released cm) \<noteq> []"
      by (auto simp: stored_as_def split: if_splits)
    moreover have "cmData (released cm) = cmData cm" "cmLabels (released cm) = cmLabels cm"
      "cmAnnotations (released cm) = cmAnnotations cm" "cmOwners (released cm) = cmOwners cm"
      by (simp_all add: released_def)
    ultimately show ?thesis using Some x(2,3) by (simp add: same_cm_def)
  qed
qed

definition closingWorld :: demo where
  "closingWorld = heldWorld\<lparr>dCMs := [heldConfigMap\<lparr>cmFinalizers := [capabilitiesConfigMapFinalizer], cmDeletionTimestamp := Some demoStart\<rparr>]\<rparr>"

lemma reconcile_lets_deletion_finish_witness:
  "\<exists>w1 w2 cm2. reconcileCapabilitiesConfigMap demoKube demoModule demoRequest closingWorld = (None, w1) \<and>
     clCMs (demoView w1) (capabilitiesKey demoModule) = None \<and>
     reconcileCapabilitiesConfigMap demoKube demoModule demoRequest w1 = (None, w2) \<and>
     clCMs (demoView w2) (capabilitiesKey demoModule) = Some cm2"
proof -
  obtain w1 where run1: "reconcileCapabilitiesConfigMap demoKube demoModule demoRequest closingWorld = (None, w1)"
    by (rule demo_reconcile_run)
  obtain w2 where run2: "reconcileCapabilitiesConfigMap demoKube demoModule demoRequest w1 = (None, w2)"
    by (rule demo_reconcile_run)
  let ?cm = "heldConfigMap\<lparr>cmFinalizers := [capabilitiesConfigMapFinalizer], cmDeletionTimestamp := Some demoStart\<rparr>"
  have "clCMs (demoView closingWorld) (capabilitiesKey demoModule) = Some ?cm"
    by (simp add: closingWorld_def storedBy_def demo_key cmKey_def heldConfigMap_def newConfigMap_def)
  from reconcile_lets_deletion_finish [OF demo_laws demo_feast this _ run1] run1 run2 show ?thesis
    by (auto split: option.splits)
qed

section \<open>The rollout\<close>

text \<open>
  C16. After a successful rollout step the pod template of the deployment carries the hash of the
  data that the ConfigMap holds, its other annotations, its name and its selector are as they were,
  nothing else in the cluster has changed, and nothing at all when the hash was there already. So a
  second run never writes.
\<close>

theorem rollout_annotates:
  assumes "kube_laws K V" "triggerCapabilityRolloutIfNeeded K m w = (None, w')"
    and "clCMs (V w) (capabilitiesKey m) = Some cm" "clDeploys (V w) (deploymentKey m) = Some d"
  shows "\<exists>d'. V w' = (V w)\<lparr>clDeploys := (clDeploys (V w))(deploymentKey m \<mapsto> d')\<rparr> \<and>
    gm_get (depTemplateAnnotations d') capabilitiesHashAnnotation =
      capabilitiesDataHash (rangeKeys (cmData cm)) (cmData cm) \<and>
    (\<forall>k. k \<noteq> capabilitiesHashAnnotation \<longrightarrow>
       gm_lookup (depTemplateAnnotations d') k = gm_lookup (depTemplateAnnotations d) k) \<and>
    depKey d' = depKey d \<and> rel_option gm_eq (depSelector d) (depSelector d') \<and>
    (gm_get (depTemplateAnnotations d) capabilitiesHashAnnotation =
       capabilitiesDataHash (rangeKeys (cmData cm)) (cmData cm) \<longrightarrow> d' = d) \<and>
    (\<forall>r w''. triggerCapabilityRolloutIfNeeded K m w' = (r, w'') \<longrightarrow> V w'' = V w')"
proof -
  have step: "\<exists>d'. V w' = (V w)\<lparr>clDeploys := (clDeploys (V w))(deploymentKey m \<mapsto> d')\<rparr> \<and>
    annotatedHash d' = dataHash cm \<and>
    (\<forall>k. k \<noteq> capabilitiesHashAnnotation \<longrightarrow>
       gm_lookup (depTemplateAnnotations d') k = gm_lookup (depTemplateAnnotations d) k) \<and>
    depKey d' = depKey d \<and> rel_option gm_eq (depSelector d) (depSelector d') \<and>
    (annotatedHash d = dataHash cm \<longrightarrow> d' = d)"
    using assms(1,2)
  proof (cases rule: triggerCapabilityRolloutIfNeeded_effect)
    case same
    then have "annotatedHash d = dataHash cm" using assms(3,4) by blast
    with same(1) assms(4) show ?thesis by (intro exI [of _ d]) (simp add: fun_upd_idem rel_option_reflI)
  next
    case (patched cm0 d0 d')
    then show ?thesis using assms(3,4)
      by (intro exI [of _ d']) (auto simp: annotatedHash_def gm_get_lookup)
  qed
  then obtain d' where d': "V w' = (V w)\<lparr>clDeploys := (clDeploys (V w))(deploymentKey m \<mapsto> d')\<rparr>"
    "annotatedHash d' = dataHash cm"
    "\<forall>k. k \<noteq> capabilitiesHashAnnotation \<longrightarrow> gm_lookup (depTemplateAnnotations d') k = gm_lookup (depTemplateAnnotations d) k"
    "depKey d' = depKey d" "rel_option gm_eq (depSelector d) (depSelector d')"
    "annotatedHash d = dataHash cm \<longrightarrow> d' = d"
    by blast
  have "V w'' = V w'" if "triggerCapabilityRolloutIfNeeded K m w' = (r, w'')" for r w''
    using assms(1) that
  proof (cases rule: triggerCapabilityRolloutIfNeeded_effect)
    case (patched cm0 d0 d1)
    with d'(1,2) assms(3) show ?thesis by simp
  qed
  with d' show ?thesis unfolding annotatedHash_def dataHash_def by blast
qed

definition rolloutWorld :: demo where
  "rolloutWorld = heldWorld\<lparr>dDeploys :=
     [\<lparr>depName = deploymentName, depNamespace = ''opendatahub'', depSelector = None, depTemplateAnnotations = None\<rparr>]\<rparr>"

lemma rollout_annotates_witness:
  "\<exists>w' d'. triggerCapabilityRolloutIfNeeded demoKube demoModule rolloutWorld = (None, w') \<and>
     clDeploys (demoView w') (deploymentKey demoModule) = Some d' \<and> depSelector d' = None \<and>
     length (gm_get (depTemplateAnnotations d') capabilitiesHashAnnotation) = 16"
proof -
  obtain w' where run: "triggerCapabilityRolloutIfNeeded demoKube demoModule rolloutWorld = (None, w')"
    using triggerCapabilityRolloutIfNeeded_progress [OF demo_laws demo_available] by (metis prod.collapse)
  have cm: "clCMs (demoView rolloutWorld) (capabilitiesKey demoModule) = Some heldConfigMap"
    using held_stored by (simp add: rolloutWorld_def)
  obtain d where d: "clDeploys (demoView rolloutWorld) (deploymentKey demoModule) = Some d" "depSelector d = None"
    by (simp add: rolloutWorld_def storedBy_def deploymentKey_def depKey_def demo_namespace)
  from rollout_annotates [OF demo_laws run cm d(1)] obtain d' where
    "demoView w' = (demoView rolloutWorld)\<lparr>clDeploys := (clDeploys (demoView rolloutWorld))(deploymentKey demoModule \<mapsto> d')\<rparr>"
    "gm_get (depTemplateAnnotations d') capabilitiesHashAnnotation =
       capabilitiesDataHash (rangeKeys (cmData heldConfigMap)) (cmData heldConfigMap)"
    "rel_option gm_eq (depSelector d) (depSelector d')"
    by blast
  with run d(2) show ?thesis by (intro exI [of _ w'] exI [of _ d']) (simp add: length_capabilitiesDataHash)
qed

text \<open>
  C17. The hash is a function of the data alone: whatever order Go ranges over the map in, the
  result is the same, sixteen lower-case hexadecimal digits.
\<close>

theorem hash_deterministic:
  assumes "isRange order data" "isRange order' data"
  shows "capabilitiesDataHash order data = capabilitiesDataHash order' data \<and>
    length (capabilitiesDataHash order data) = 16 \<and>
    set (capabilitiesDataHash order data) \<subseteq> set ''0123456789abcdef''"
proof -
  have "set (capabilitiesDataHash order data) \<subseteq> set (hexEncode (sha256 (hashInput (sort order) data)))"
    unfolding capabilitiesDataHash_def by (rule set_take_subset)
  also have "\<dots> \<subseteq> set ''0123456789abcdef''" by (rule hexEncode_set) (rule sha256_bytes)
  finally show ?thesis
    using hash_range [OF assms(1)] hash_range [OF assms(2)] by (simp add: length_capabilitiesDataHash)
qed

lemma hash_deterministic_witness:
  "capabilitiesDataHash [''b'', ''a''] (Some (fmupd ''a'' ''1'' (fmupd ''b'' ''2'' fmempty))) =
   capabilitiesDataHash [''a'', ''b''] (Some (fmupd ''a'' ''1'' (fmupd ''b'' ''2'' fmempty)))"
proof -
  have "isRange [''b'', ''a''] (Some (fmupd ''a'' ''1'' (fmupd ''b'' ''2'' fmempty)))"
    "isRange [''a'', ''b''] (Some (fmupd ''a'' ''1'' (fmupd ''b'' ''2'' fmempty)))"
    by (auto simp: isRange_def split: if_splits)
  from hash_deterministic [OF this] show ?thesis by simp
qed

text \<open>
  C18. The bytes given to the hash determine the data: for data without \<^verbatim>\<open>=\<close> and line feeds in the
  keys and without line feeds in the values, which covers everything the controller writes, two maps
  are hashed from the same bytes exactly when they have the same entries.
\<close>

theorem hash_input_faithful:
  assumes "cleanData a" "cleanData b" "isRange order_a a" "isRange order_b b"
  shows "hashInput (sort order_a) a = hashInput (sort order_b) b \<longleftrightarrow> gm_eq a b"
proof
  assume "hashInput (sort order_a) a = hashInput (sort order_b) b"
  then show "gm_eq a b"
    using assms by (intro hashInput_determines) (simp_all add: isRange_sort)
next
  assume "gm_eq a b"
  then show "hashInput (sort order_a) a = hashInput (sort order_b) b"
    using assms(3,4) by (simp add: isRange_sort rangeKeys_eq hashInput_eq)
qed

lemma capabilitiesData_clean: "cleanData (Some (capabilitiesData fs dr))"
  by (auto simp: cleanData_def list_all_iff rangeKeys_iff capabilitiesData_def Let_def boolString_def formatBool_def
      capabilitiesKeyFeatureStoreEnabled_def capabilitiesKeyDataRegistryEnabled_def
      capabilitiesKeyDataRegistryNS_def dataRegistryNamespaceName_def split: if_splits)

lemma hash_input_faithful_witness:
  "hashInput (sort (rangeKeys (Some (capabilitiesData True True)))) (Some (capabilitiesData True True)) \<noteq>
   hashInput (sort (rangeKeys (Some (capabilitiesData True False)))) (Some (capabilitiesData True False))"
proof -
  have "\<not> gm_eq (Some (capabilitiesData True True)) (Some (capabilitiesData True False))"
    using gm_eq_get [of "Some (capabilitiesData True True)" "Some (capabilitiesData True False)" capabilitiesKeyDataRegistryEnabled]
    by (auto simp: boolString_def)
  with hash_input_faithful [OF capabilitiesData_clean capabilitiesData_clean rangeKeys_isRange rangeKeys_isRange]
  show ?thesis by blast
qed

section \<open>The Data Registry namespace\<close>

lemma reconcileNamespace_settles:
  assumes "kube_laws K V" "rrInstance rr = FeastInst feast"
    and "reconcileDataRegistryNamespace K m rr w = (None, w')"
  shows "registryAdvertised (V w') \<longleftrightarrow> snd (resolveCapabilities m feast)"
    and "\<exists>x. V w' = (V w)\<lparr>clNSs := (clNSs (V w))(dataRegistryNamespaceName := x)\<rparr>"
proof -
  have "(registryAdvertised (V w') \<longleftrightarrow> snd (resolveCapabilities m feast)) \<and>
    (\<exists>x. V w' = (V w)\<lparr>clNSs := (clNSs (V w))(dataRegistryNamespaceName := x)\<rparr>)"
  proof (cases "snd (resolveCapabilities m feast)")
    case True
    from assms(1,2) True assms(3) show ?thesis
    proof (cases rule: reconcileDataRegistryNamespace_enabled)
      case (written ns')
      have "registryAdvertised (V w')" using written(1,2) by (simp add: registryAdvertised_def gm_get_lookup)
      with written(1) True show ?thesis by blast
    qed simp
  next
    case False
    with assms(2,3) have run: "removeDataRegistryLabel K w = (None, w')"
      by (simp add: reconcileDataRegistryNamespace_disabled)
    have "\<exists>x. V w' = (V w)\<lparr>clNSs := (clNSs (V w))(dataRegistryNamespaceName := x)\<rparr>"
      using assms(1) run
    proof (cases rule: removeDataRegistryLabel_effect)
      case same
      then show ?thesis by (intro exI [of _ "clNSs (V w) dataRegistryNamespaceName"]) simp
    qed blast
    with False unlabel_post(1) [OF assms(1) run] show ?thesis by blast
  qed
  then show "registryAdvertised (V w') \<longleftrightarrow> snd (resolveCapabilities m feast)"
    "\<exists>x. V w' = (V w)\<lparr>clNSs := (clNSs (V w))(dataRegistryNamespaceName := x)\<rparr>" by blast+
qed

text \<open>
  C19. After a successful reconciliation of the namespace, it advertises an enabled registry exactly
  when the capability is on; the other labels of an existing namespace are kept, it is created only
  for an enabled registry and never deleted, and nothing else in the cluster changes.
\<close>

theorem namespace_follows_capability:
  assumes "kube_laws K V" "rrInstance rr = FeastInst feast"
    and "reconcileDataRegistryNamespace K m rr w = (None, w')"
  shows "(registryAdvertised (V w') \<longleftrightarrow> snd (resolveCapabilities m feast)) \<and>
    (\<forall>ns. clNSs (V w) dataRegistryNamespaceName = Some ns \<longrightarrow>
       (\<exists>ns'. clNSs (V w') dataRegistryNamespaceName = Some ns' \<and>
          (\<forall>k. k \<noteq> dataRegistryEnabledLabelKey \<longrightarrow> gm_lookup (nsLabels ns') k = gm_lookup (nsLabels ns) k))) \<and>
    (clNSs (V w) dataRegistryNamespaceName = None \<and> \<not> snd (resolveCapabilities m feast) \<longrightarrow> V w' = V w) \<and>
    (\<exists>x. V w' = (V w)\<lparr>clNSs := (clNSs (V w))(dataRegistryNamespaceName := x)\<rparr>)"
proof (cases "snd (resolveCapabilities m feast)")
  case True
  from assms(1,2) True assms(3) show ?thesis
  proof (cases rule: reconcileDataRegistryNamespace_enabled)
    case (written ns')
    with True reconcileNamespace_settles [OF assms] show ?thesis by auto
  qed simp
next
  case False
  with assms(2,3) have run: "removeDataRegistryLabel K w = (None, w')"
    by (simp add: reconcileDataRegistryNamespace_disabled)
  from assms(1) run show ?thesis
  proof (cases rule: removeDataRegistryLabel_effect)
    case same
    with reconcileNamespace_settles [OF assms] False show ?thesis by auto
  next
    case (removed ns ns')
    with reconcileNamespace_settles [OF assms] False show ?thesis by auto
  qed
qed

lemma namespace_follows_capability_witness:
  "\<exists>w'. reconcileDataRegistryNamespace demoKube demoModule demoRequest (heldWorld\<lparr>dNSs := []\<rparr>) = (None, w') \<and>
     registryAdvertised (demoView w')"
proof -
  have "\<exists>w'. reconcileDataRegistryNamespace demoKube demoModule demoRequest (heldWorld\<lparr>dNSs := []\<rparr>) = (None, w')"
    by (simp add: reconcileDataRegistryNamespace_def demo_feast demo_resolve demoKube_def demoCreateOrUpdateNS_def
        labelNamespace_def newNamespace_def storedBy_def)
  then obtain w' where run: "reconcileDataRegistryNamespace demoKube demoModule demoRequest (heldWorld\<lparr>dNSs := []\<rparr>) = (None, w')" ..
  from namespace_follows_capability [OF demo_laws demo_feast run] run show ?thesis by (auto simp: demo_resolve)
qed

end
