(* ===== verification/PipelineProps.thy ===== *)
theory PipelineProps
  imports CapabilityProps
begin

text \<open>
  The properties of the pipeline: the version handshake, the OIDC parameter, the selector
  migration, the watch predicate, and what a whole run achieves or prevents.
\<close>

section \<open>The platform version\<close>

text \<open>The version the platform publishes, empty when its ConfigMap or the key is missing.\<close>

definition publishedVersion :: "'w module \<Rightarrow> cluster \<Rightarrow> string" where
  "publishedVersion m c =
     (case clCMs c \<lparr>keyName = platformConfigCMName, keyNamespace = cfgApplicationsNamespace (mCfg m)\<rparr> of
        None \<Rightarrow> []
      | Some cm \<Rightarrow> gm_get (cmData cm) platformVersionKey)"

lemma reconcilePlatformVersion_effect:
  assumes "kube_laws K V" "rrInstance rr = FeastInst obj"
    and "reconcilePlatformVersion K m (rr, w) = (None, (rr', w'))"
  shows "V w' = V w" "rr' = rr\<lparr>rrInstance := FeastInst (platform.handshake (publishedVersion m (V w)) obj)\<rparr>"
proof -
  let ?key = "\<lparr>keyName = platformConfigCMName, keyNamespace = cfgApplicationsNamespace (mCfg m)\<rparr>"
  obtain g w1 where get: "getCM K ?key w = (g, w1)" by fastforce
  note read = getCM_reads [OF assms(1) get]
  have "V w' = V w \<and> rr' = rr\<lparr>rrInstance := FeastInst (platform.handshake (publishedVersion m (V w)) obj)\<rparr>"
  proof (cases g)
    case (Inl e)
    with get assms(2,3) have "isNotFound e" "w' = w1" "rr' = rr"
      by (auto simp: reconcilePlatformVersion_def getPlatformVersion_def split: if_splits)
    with Inl read(1) read(3) [of e] show ?thesis
      using assms(2) by (simp add: publishedVersion_def platform.handshake_def)
  next
    case (Inr cm)
    with read(2) have "publishedVersion m (V w) = gm_get (cmData cm) platformVersionKey"
      by (simp add: publishedVersion_def)
    moreover have "getPlatformVersion K m w = (Inr (gm_get (cmData cm) platformVersionKey), w1)"
      using get Inr by (simp add: getPlatformVersion_def)
    ultimately show ?thesis
      using reconcilePlatformVersion_handshake [OF assms(2)] assms(3) read(1) by fastforce
  qed
  then show "V w' = V w" "rr' = rr\<lparr>rrInstance := FeastInst (platform.handshake (publishedVersion m (V w)) obj)\<rparr>"
    by simp_all
qed

lemma handshake_fields:
  "spec (platform.handshake v obj) = spec obj" "metaName (platform.handshake v obj) = metaName obj"
  "filter (\<lambda>r. releaseName r \<noteq> platformReleaseName) (statusReleases (status (platform.handshake v obj))) =
     filter (\<lambda>r. releaseName r \<noteq> platformReleaseName) (statusReleases (status obj))"
  by (simp_all add: platform.handshake_def setPlatformRelease_others) (simp_all add: setPlatformRelease_def)

text \<open>
  C20. A successful handshake changes no object of the cluster and nothing of the request but the
  platform entry of the status releases. The entry is the published version, when one is published;
  otherwise the status stays as it is. The entries of other names keep their contents and order, and
  a second handshake with the same published version changes nothing.
\<close>

theorem handshake_records_platform:
  assumes "kube_laws K V" "rrInstance rr = FeastInst obj"
    and "reconcilePlatformVersion K m (rr, w) = (None, (rr', w'))"
  shows "V w' = V w \<and>
    (\<exists>obj'. rr' = rr\<lparr>rrInstance := FeastInst obj'\<rparr> \<and> spec obj' = spec obj \<and>
       (if publishedVersion m (V w) = [] then obj' = obj
        else getPlatformRelease obj' = publishedVersion m (V w)) \<and>
       filter (\<lambda>r. releaseName r \<noteq> ''platform'') (statusReleases (status obj')) =
         filter (\<lambda>r. releaseName r \<noteq> ''platform'') (statusReleases (status obj))) \<and>
    (\<forall>rr'' w''. reconcilePlatformVersion K m (rr', w') = (None, (rr'', w'')) \<longrightarrow> rr'' = rr')"
proof -
  note first = reconcilePlatformVersion_effect [OF assms]
  let ?obj = "platform.handshake (publishedVersion m (V w)) obj"
  have again: "rr'' = rr'" if "reconcilePlatformVersion K m (rr', w') = (None, (rr'', w''))" for rr'' w''
    using reconcilePlatformVersion_effect(2) [OF assms(1) _ that, of ?obj] first
    by (simp add: platform.handshake_again)
  have recorded: "if publishedVersion m (V w) = [] then ?obj = obj else getPlatformRelease ?obj = publishedVersion m (V w)"
    by (simp add: platform.handshake_records) (simp add: platform.handshake_def)
  note fields = handshake_fields [of "publishedVersion m (V w)" obj, unfolded platformReleaseName_def]
  show ?thesis
  proof (intro conjI exI [of _ ?obj] allI impI)
    show "if publishedVersion m (V w) = [] then ?obj = obj else getPlatformRelease ?obj = publishedVersion m (V w)"
      by (rule recorded)
  qed (use first again fields in simp_all)
qed

definition versionWorld :: demo where
  "versionWorld = heldWorld\<lparr>dCMs := [(newConfigMap platformConfigCMName ''opendatahub'')
     \<lparr>cmData := Some (fmupd platformVersionKey ''2.25.0'' fmempty)\<rparr>]\<rparr>"

lemma demo_published: "publishedVersion demoModule (demoView versionWorld) = ''2.25.0''"
  by (simp add: publishedVersion_def versionWorld_def storedBy_def cmKey_def newConfigMap_def demo_namespace)

lemma demo_handshake_run:
  "\<exists>rr' w'. reconcilePlatformVersion demoKube demoModule (demoRequest, versionWorld) = (None, (rr', w'))"
  by (simp add: reconcilePlatformVersion_def demo_feast getPlatformVersion_def demoKube_def demoGet_def versionWorld_def
      storedBy_def cmKey_def newConfigMap_def demo_namespace handlePlatformUpgrade_def)

lemma handshake_records_platform_witness:
  "\<exists>rr' w' obj'. reconcilePlatformVersion demoKube demoModule (demoRequest, versionWorld) = (None, (rr', w')) \<and>
     rrInstance rr' = FeastInst obj' \<and> getPlatformRelease obj' = ''2.25.0''"
proof -
  obtain rr' w' where run: "reconcilePlatformVersion demoKube demoModule (demoRequest, versionWorld) = (None, (rr', w'))"
    using demo_handshake_run by blast
  from handshake_records_platform [OF demo_laws demo_feast run] run show ?thesis
    by (auto simp: demo_published)
qed

text \<open>
  C21. A recorded platform version that is not a strict semantic version stops every later
  reconciliation: the pipeline fails at the upgrade check, before any action reads the version the
  platform publishes now, so neither the cluster nor the recorded version ever changes again.
\<close>

theorem unparsable_version_wedges:
  assumes "runs_in_order run" "rrInstance rr = FeastInst obj"
    and "getPlatformRelease obj = v" "v \<noteq> []" "v \<noteq> ''0.0.0''" "semverParse S v = Inl e"
  shows "run (pipeline K U S F m) (rr, w) =
    (Some (Wrapped (''failed to parse previous platform version '' @ goQuote v) e),
     (rr\<lparr>rrManifests := rrManifests rr @ [mManifestInfo m]\<rparr>, w))"
  using assms
  by (simp add: runs_in_order_def pipeline_def initialize_def pureAction_def upgradeIfNeeded_def Let_def)

text \<open>
  Stand-ins for the libraries: a parser of versions with three parts, a URL library that knows one
  scheme, and framework actions that do nothing.
\<close>

definition demoSemver :: "unit semver" where
  "demoSemver =
     \<lparr>semverParse = (\<lambda>s. if length (splitOn (CHR ''.'') s) = 3 then Inr () else Inl (Msg ''No Major.Minor.Patch elements found'')),
      semverParseTolerant = (\<lambda>_. Inr ()), semverGT = (\<lambda>_ _. False), semverZero = ()\<rparr>"

definition demoUrl :: "string url_lib" where
  "demoUrl =
     \<lparr>urlParseRequestURI = (\<lambda>s. if s = [] then Inl (Msg ''empty url'') else Inr s),
      urlScheme = (\<lambda>s. if hasPrefix s ''https://'' then ''https'' else ''http''),
      urlHost = (\<lambda>s. drop 8 s), urlString = (\<lambda>s. s)\<rparr>"

definition demoFramework :: "(demo, unit) framework" where
  "demoFramework =
     \<lparr>releasesAction = nop, kustomizeAction = (\<lambda>_. nop), deployAction = nop, deploymentsAction = nop,
      gcAction = (\<lambda>_. nop), partOfLabel = ''app.kubernetes.io/part-of''\<rparr>"

lemma demo_runs: "runs_in_order (forEach (\<lambda>a. a))"
  by (simp add: runs_in_order_def)

definition wedgedRequest :: "unit request" where
  "wedgedRequest = demoRequest\<lparr>rrInstance := FeastInst (setPlatformRelease ''2.25'' demoFeast)\<rparr>"

lemma unparsable_version_wedges_witness:
  "fst (forEach (\<lambda>a. a) (pipeline demoKube demoUrl demoSemver demoFramework demoModule) (wedgedRequest, versionWorld)) =
   Some (Wrapped (''failed to parse previous platform version '' @ goQuote ''2.25'') (Msg ''No Major.Minor.Patch elements found''))"
proof -
  have "rrInstance wedgedRequest = FeastInst (setPlatformRelease ''2.25'' demoFeast)" by (simp add: wedgedRequest_def)
  moreover have "semverParse demoSemver ''2.25'' = Inl (Msg ''No Major.Minor.Patch elements found'')"
    by (simp add: demoSemver_def)
  ultimately show ?thesis
    using unparsable_version_wedges [OF demo_runs _ platform.get_set, of wedgedRequest "''2.25''" demoFeast demoSemver
        _ demoKube demoUrl demoFramework demoModule versionWorld]
    by simp
qed

section \<open>The OIDC issuer\<close>

text \<open>
  C22. The kustomize parameter is written only from a valid specification: the action writes exactly
  one parameter, \<^verbatim>\<open>OIDC_ISSUER_URL\<close>, into the \<^verbatim>\<open>params.env\<close> of the first manifest, empty without OIDC
  settings and otherwise the normalised form of a URL with scheme \<^verbatim>\<open>https\<close> and a host; when it
  refuses a specification it writes nothing.
\<close>

theorem oidc_parameter_valid:
  assumes "rrInstance rr = FeastInst feast" "rrManifests rr = mi # ms"
  shows "(\<exists>value. setKustomizedParams K U rr w =
       wrapErr ''failed to update params.env with kustomize parameters''
         (applyParams K (manifestString K mi) ''params.env'' [] [[(''OIDC_ISSUER_URL'', value)]]) w \<and>
       (case specOIDC (spec feast) of
          None \<Rightarrow> value = []
        | Some raw \<Rightarrow> \<exists>u. urlParseRequestURI U raw = Inr u \<and> urlScheme U u = ''https'' \<and> urlHost U u \<noteq> [] \<and>
            value = urlString U u)) \<or>
    (\<exists>e. setKustomizedParams K U rr w = (Some e, w) \<and>
       (\<exists>raw. specOIDC (spec feast) = Some raw \<and>
          (\<forall>u. urlParseRequestURI U raw = Inr u \<longrightarrow> urlScheme U u \<noteq> ''https'' \<or> urlHost U u = [])))"
proof (cases "specOIDC (spec feast)")
  case None
  then show ?thesis using assms by (simp add: setKustomizedParams_def issuerParam_def paramsEnvKeyOIDCIssuerURL_def)
next
  case (Some raw)
  show ?thesis
  proof (cases "parseAndValidateOIDCIssuerURL U raw")
    case (Inr url)
    then obtain u where "urlParseRequestURI U raw = Inr u" "urlScheme U u = ''https''" "urlHost U u \<noteq> []" "url = urlString U u"
      by (auto simp: parseAndValidateOIDCIssuerURL_def split: sum.splits if_splits)
    with Some Inr assms show ?thesis
      by (simp add: setKustomizedParams_def issuerParam_def paramsEnvKeyOIDCIssuerURL_def)
  next
    case (Inl e)
    then have "\<forall>u. urlParseRequestURI U raw = Inr u \<longrightarrow> urlScheme U u \<noteq> ''https'' \<or> urlHost U u = []"
      by (auto simp: parseAndValidateOIDCIssuerURL_def split: sum.splits if_splits)
    with Some Inl assms show ?thesis by (simp add: setKustomizedParams_def issuerParam_def)
  qed
qed

definition oidcRequest :: "string \<Rightarrow> unit request" where
  "oidcRequest url = \<lparr>rrInstance = FeastInst (demoFeast\<lparr>spec := \<lparr>specOIDC = Some url, specCapabilities = None\<rparr>\<rparr>),
     rrManifests = [mManifestInfo demoModule], rrRelease = \<lparr>relName = ''Open Data Hub'', relVersion = ()\<rparr>\<rparr>"

lemma oidc_parameter_valid_witness:
  "fst (setKustomizedParams demoKube demoUrl (oidcRequest ''http://issuer'') heldWorld) \<noteq> None"
proof -
  have "rrInstance (oidcRequest ''http://issuer'') =
      FeastInst (demoFeast\<lparr>spec := \<lparr>specOIDC = Some ''http://issuer'', specCapabilities = None\<rparr>\<rparr>)"
    "rrManifests (oidcRequest ''http://issuer'') = [mManifestInfo demoModule]"
    by (simp_all add: oidcRequest_def)
  from oidc_parameter_valid [OF this, of demoKube demoUrl heldWorld] show ?thesis
    by (auto simp: demoUrl_def hasPrefix_def)
qed

section \<open>The selector migration\<close>

text \<open>
  A successful migration leaves no deployment of that name with a stale selector: a stored one
  whose \<^verbatim>\<open>matchLabels\<close> lack the expected value is deleted, every other state is left exactly as it was,
  and no other object changes.
\<close>

lemma migration_removes_stale:
  assumes "kube_laws K V" "migrateDeploymentSelector K m w = (None, w')"
  shows "V w' =
    (case clDeploys (V w) (deploymentKey m) of
       None \<Rightarrow> V w
     | Some d \<Rightarrow>
         (case depSelector d of
            None \<Rightarrow> V w
          | Some ls \<Rightarrow>
              if gm_get ls ''app.kubernetes.io/name'' = ''feast-operator'' then V w
              else (V w)\<lparr>clDeploys := (clDeploys (V w))(deploymentKey m := None)\<rparr>))"
  using assms deploymentKey_def
proof (cases rule: migrateDeploymentSelector_effect)
  case same
  then show ?thesis
    by (auto simp: staleSelector_def selectorLabelKey_def selectorLabelValue_def split: option.splits)
next
  case (dropped d)
  then show ?thesis
    by (auto simp: staleSelector_def selectorLabelKey_def selectorLabelValue_def split: option.splits)
qed

definition staleWorld :: demo where
  "staleWorld = heldWorld\<lparr>dDeploys :=
     [\<lparr>depName = deploymentName, depNamespace = ''opendatahub'',
       depSelector = Some (Some (fmupd ''control-plane'' ''controller-manager'' fmempty)), depTemplateAnnotations = None\<rparr>]\<rparr>"

lemma migration_removes_stale_witness:
  "clDeploys (demoView (snd (migrateDeploymentSelector demoKube demoModule staleWorld))) (deploymentKey demoModule) = None"
proof -
  have dep: "clDeploys (demoView staleWorld) (deploymentKey demoModule) =
    Some \<lparr>depName = deploymentName, depNamespace = ''opendatahub'',
       depSelector = Some (Some (fmupd ''control-plane'' ''controller-manager'' fmempty)), depTemplateAnnotations = None\<rparr>"
    by (simp add: staleWorld_def storedBy_def deploymentKey_def depKey_def demo_namespace)
  have "fst (migrateDeploymentSelector demoKube demoModule staleWorld) = None"
    by (simp add: migrateDeploymentSelector_def demoKube_def demoGet_def Let_def split: option.splits)
  then have run: "migrateDeploymentSelector demoKube demoModule staleWorld =
    (None, snd (migrateDeploymentSelector demoKube demoModule staleWorld))" by (metis prod.collapse)
  from migration_removes_stale [OF demo_laws run] dep show ?thesis by simp
qed

section \<open>The watch predicate\<close>

text \<open>
  The predicate of the owned ConfigMap never hides an event that the default predicate lets
  through, nor the deletion of the object; an update that the default rejects still reaches the
  reconciler exactly when it carries the start of the deletion.
\<close>

lemma watch_sees_deletion:
  assumes "zeroTime \<notin> set_option (cmDeletionTimestamp a) \<union> set_option (cmDeletionTimestamp b)"
  shows "(defaultPredicate ev \<longrightarrow> capabilitiesConfigMapWatchPredicate defaultPredicate ev) \<and>
    capabilitiesConfigMapWatchPredicate defaultPredicate (DeleteEvent a) \<and>
    (\<not> defaultPredicate (UpdateEvent (Some a) (Some b)) \<longrightarrow>
       capabilitiesConfigMapWatchPredicate defaultPredicate (UpdateEvent (Some a) (Some b)) =
         (cmDeletionTimestamp a = None \<and> cmDeletionTimestamp b \<noteq> None))"
  using assms
  by (auto simp: capabilitiesConfigMapWatchPredicate_def deletionStarted_def isZeroTime_def split: option.splits)

lemma watch_sees_deletion_witness:
  "capabilitiesConfigMapWatchPredicate (\<lambda>_. False)
     (UpdateEvent (Some heldConfigMap) (Some (heldConfigMap\<lparr>cmDeletionTimestamp := Some demoStart\<rparr>)))"
proof -
  have live: "cmDeletionTimestamp heldConfigMap = None" by (simp add: heldConfigMap_def newConfigMap_def)
  have "zeroTime \<noteq> demoStart" by (simp add: zeroTime_def demoStart_def second_def)
  with live have "zeroTime \<notin> set_option (cmDeletionTimestamp heldConfigMap) \<union>
      set_option (cmDeletionTimestamp (heldConfigMap\<lparr>cmDeletionTimestamp := Some demoStart\<rparr>))" by simp
  from watch_sees_deletion [OF this, of "\<lambda>_. False"] live show ?thesis by simp
qed

section \<open>A whole run\<close>

text \<open>
  What the framework's own actions leave alone: the capabilities ConfigMap and the registry
  namespace, which no manifest contains, and, in the last two actions, the deployment.
\<close>

definition keepsCapabilities :: "'w module \<Rightarrow> ('w \<Rightarrow> cluster) \<Rightarrow> ('w, 'v) action \<Rightarrow> bool" where
  "keepsCapabilities m V a \<longleftrightarrow>
     (\<forall>rr w rr' w'. a (rr, w) = (None, (rr', w')) \<longrightarrow>
        clCMs (V w') (capabilitiesKey m) = clCMs (V w) (capabilitiesKey m) \<and>
        clNSs (V w') dataRegistryNamespaceName = clNSs (V w) dataRegistryNamespaceName)"

definition keepsDeployment :: "'w module \<Rightarrow> ('w \<Rightarrow> cluster) \<Rightarrow> ('w, 'v) action \<Rightarrow> bool" where
  "keepsDeployment m V a \<longleftrightarrow>
     (\<forall>rr w rr' w'. a (rr, w) = (None, (rr', w')) \<longrightarrow>
        clDeploys (V w') (deploymentKey m) = clDeploys (V w) (deploymentKey m))"

definition framework_laws :: "('w, 'v) framework \<Rightarrow> 'w module \<Rightarrow> ('w \<Rightarrow> cluster) \<Rightarrow> bool" where
  "framework_laws F m V \<longleftrightarrow>
     keepsCapabilities m V (releasesAction F) \<and> (\<forall>ls. keepsCapabilities m V (kustomizeAction F ls)) \<and>
     keepsCapabilities m V (deployAction F) \<and> keepsCapabilities m V (deploymentsAction F) \<and>
     (\<forall>ns. keepsCapabilities m V (gcAction F ns)) \<and>
     keepsDeployment m V (deploymentsAction F) \<and> (\<forall>ns. keepsDeployment m V (gcAction F ns))"

lemma keepsD:
  "keepsCapabilities m V a \<Longrightarrow> a (rr, w) = (None, (rr', w')) \<Longrightarrow>
     clCMs (V w') (capabilitiesKey m) = clCMs (V w) (capabilitiesKey m)"
  "keepsCapabilities m V a \<Longrightarrow> a (rr, w) = (None, (rr', w')) \<Longrightarrow>
     clNSs (V w') dataRegistryNamespaceName = clNSs (V w) dataRegistryNamespaceName"
  "keepsDeployment m V a \<Longrightarrow> a (rr, w) = (None, (rr', w')) \<Longrightarrow>
     clDeploys (V w') (deploymentKey m) = clDeploys (V w) (deploymentKey m)"
  unfolding keepsCapabilities_def keepsDeployment_def by blast+

lemma readsRequest_ok:
  "readsRequest h (rr, w) = (None, (rr', w')) \<longleftrightarrow> rr' = rr \<and> h rr w = (None, w')"
  by (auto simp: readsRequest_def split: prod.splits)

lemma step_ok:
  assumes "andThen a b (rr, w) = (None, s)"
  obtains rr1 w1 where "a (rr, w) = (None, (rr1, w1))" "b (rr1, w1) = (None, s)"
  using assms by (metis andThen_okE surj_pair)

lemma reconcilePlatformVersion_frame:
  assumes "kube_laws K V" "reconcilePlatformVersion K m (rr, w) = (None, (rr', w'))"
  shows "V w' = V w"
proof (cases "rrInstance rr")
  case (FeastInst obj)
  then show ?thesis by (rule reconcilePlatformVersion_effect(1) [OF assms(1) _ assms(2)])
next
  case OtherInst
  with assms(2) show ?thesis by (simp add: reconcilePlatformVersion_def)
qed

lemma migrate_frame:
  assumes "kube_laws K V" "migrateDeploymentSelector K m w = (r, w')"
  shows "clCMs (V w') = clCMs (V w)" "clNSs (V w') = clNSs (V w)"
  using assms deploymentKey_def by (cases rule: migrateDeploymentSelector_effect; simp)+

lemma applyParams_frame:
  assumes "\<And>dir file im ps. V (snd (applyParams K dir file im ps w)) = V w"
    and "setKustomizedParams K U rr w = (r, w')"
  shows "V w' = V w"
proof -
  have "V (snd (setKustomizedParams K U rr w)) = V w"
    using assms(1)
    by (auto simp: setKustomizedParams_def wrapErr_def split: instance_obj.splits list.splits sum.splits option.splits
        prod.splits) (metis snd_conv)+
  with assms(2) show ?thesis by simp
qed

lemma rollout_hash:
  assumes "kube_laws K V" "triggerCapabilityRolloutIfNeeded K m w = (None, w')"
    and "clCMs (V w) (capabilitiesKey m) = Some cm" "clDeploys (V w') (deploymentKey m) = Some d"
  shows "gm_get (depTemplateAnnotations d) capabilitiesHashAnnotation =
    capabilitiesDataHash (rangeKeys (cmData cm)) (cmData cm)"
  using assms(1,2)
proof (cases rule: triggerCapabilityRolloutIfNeeded_effect)
  case same
  with assms(3,4) show ?thesis by (simp add: annotatedHash_def dataHash_def)
next
  case (patched cm0 d0 d')
  with assms(3,4) show ?thesis by (auto simp: gm_get_lookup dataHash_def)
qed

text \<open>
  The first five actions leave the desired ConfigMap, or release one that is terminating, and the
  label of the namespace.
\<close>

definition settled :: "bool \<Rightarrow> bool \<Rightarrow> config_map \<Rightarrow> config_map option \<Rightarrow> bool" where
  "settled fs dr old x \<longleftrightarrow>
     (if cmDeletionTimestamp old = None
      then \<exists>cm. x = Some cm \<and> gm_make (cmData cm) = capabilitiesData fs dr \<and> heldByModule cm
      else stored_as (released old) x)"

lemma prepared:
  assumes laws: "kube_laws K V" and params: "\<And>dir file im ps w. V (snd (applyParams K dir file im ps w)) = V w"
    and rr: "rrInstance rr = FeastInst feast" "resolveCapabilities m feast = (fs, dr)"
    and run: "setKustomizedParams K U rr w = (None, w1)" "reconcileDataRegistryNamespace K m rr w1 = (None, w2)"
      "reconcileCapabilitiesConfigMap K m rr w2 = (None, w3)"
  shows "settled fs dr (foundConfigMap m (V w)) (clCMs (V w3) (capabilitiesKey m))" "registryAdvertised (V w3) = dr"
proof -
  have "V w1 = V w" using applyParams_frame [OF params run(1)] .
  moreover have ns: "registryAdvertised (V w2) = dr" "clCMs (V w2) = clCMs (V w1)"
    using reconcileNamespace_settles [OF laws rr(1) run(2)] rr(2) by auto
  ultimately have found: "foundConfigMap m (V w2) = foundConfigMap m (V w)" by (simp add: foundConfigMap_def)
  have "settled fs dr (foundConfigMap m (V w2)) (clCMs (V w3) (capabilitiesKey m)) \<and> clNSs (V w3) = clNSs (V w2)"
    using laws rr run(3)
  proof (cases rule: reconcileCapabilities_effect)
    case (live cm')
    with desired_held [OF live(2)] show ?thesis by (simp add: settled_def desired_def)
  next
    case (terminating cm x)
    then show ?thesis by (auto simp: settled_def foundConfigMap_def)
  qed simp
  with ns(1) found
  show "settled fs dr (foundConfigMap m (V w)) (clCMs (V w3) (capabilitiesKey m))" "registryAdvertised (V w3) = dr"
    by (simp_all add: registryAdvertised_def)
qed

lemma settled_released:
  assumes "settled fs dr old x" "cmDeletionTimestamp old \<noteq> None"
  shows "x = Some cm \<Longrightarrow> same_cm (released old) cm \<and> cmFinalizers cm \<noteq> []"
    and "x = None \<Longrightarrow> set (cmFinalizers old) \<subseteq> {capabilitiesConfigMapFinalizer}"
  using assms by (auto simp: settled_def stored_as_def same_cm_def filter_empty_conv split: if_splits)

text \<open>A run that succeeds goes through every action: the first five, and those from the releases on.\<close>

lemma pipeline_first:
  assumes "runs_in_order run" "run (pipeline K U S F m) (rr, w) = (None, s)"
  obtains w1 w2 w3 rr1 where "rrInstance rr1 = rrInstance rr" "setKustomizedParams K U rr1 w = (None, w1)"
    "reconcileDataRegistryNamespace K m rr1 w1 = (None, w2)" "reconcileCapabilitiesConfigMap K m rr1 w2 = (None, w3)"
    "forEach (\<lambda>a. a) (drop 5 (pipeline K U S F m)) (rr1, w3) = (None, s)"
proof -
  let ?rr = "rr\<lparr>rrManifests := rrManifests rr @ [mManifestInfo m]\<rparr>"
  have "forEach (\<lambda>a. a) (pipeline K U S F m) (rr, w) = (None, s)"
    using assms by (simp add: runs_in_order_def)
  then have "andThen (pureAction (upgradeIfNeeded S)) (forEach (\<lambda>a. a) (drop 2 (pipeline K U S F m))) (?rr, w) = (None, s)"
    by (simp add: pipeline_def initialize_def)
  then have "forEach (\<lambda>a. a) (drop 2 (pipeline K U S F m)) (?rr, w) = (None, s)"
    by (rule andThen_okE) (auto simp: pureAction_def)
  then have "andThen (readsRequest (setKustomizedParams K U))
      (andThen (readsRequest (reconcileDataRegistryNamespace K m))
      (andThen (readsRequest (reconcileCapabilitiesConfigMap K m))
        (forEach (\<lambda>a. a) (drop 5 (pipeline K U S F m))))) (?rr, w) = (None, s)"
    by (simp add: pipeline_def andThen_def [abs_def] cong: option.case_cong)
  with that [of ?rr] show thesis by (auto simp: readsRequest_ok elim!: step_ok)
qed

lemma pipeline_rest:
  assumes "forEach (\<lambda>a. a) (drop 5 (pipeline K U S F m)) (rr3, w3) = (None, (rr', w'))"
  obtains r4 w4 r5 w5 r6 w6 w7 r8 w8 w9 r10 w10 where "releasesAction F (rr3, w3) = (None, (r4, w4))"
    "reconcilePlatformVersion K m (r4, w4) = (None, (r5, w5))"
    "kustomizeAction F [(componentLabel K componentName, labelTrue K), (partOfLabel F, componentName)] (r5, w5) = (None, (r6, w6))"
    "migrateDeploymentSelector K m w6 = (None, w7)" "deployAction F (r6, w7) = (None, (r8, w8))"
    "triggerCapabilityRolloutIfNeeded K m w8 = (None, w9)" "deploymentsAction F (r8, w9) = (None, (r10, w10))"
    "gcAction F (cfgApplicationsNamespace (mCfg m)) (r10, w10) = (None, (rr', w'))"
  using assms by (auto simp: pipeline_def readsRequest_ok nop_def elim!: step_ok)

text \<open>
  C7. A whole run that succeeds ends in agreement: the namespace advertises an enabled registry
  exactly when the capability is on, and a deployment of the feast operator carries the hash of the
  data that the ConfigMap holds. Unless the ConfigMap was being deleted before the run, it is there
  with the data of the effective capabilities and the module's finalizer. One that was being deleted
  has lost the module's finalizer and nothing else, and is gone exactly when no other finalizer was
  left.
\<close>

theorem pipeline_converges:
  assumes "kube_laws K V" "framework_laws F m V" "runs_in_order run"
    and "\<And>dir file im ps w. V (snd (applyParams K dir file im ps w)) = V w"
    and "rrInstance rr = FeastInst feast" "resolveCapabilities m feast = (fs, dr)"
    and "run (pipeline K U S F m) (rr, w) = (None, (rr', w'))"
  shows "registryAdvertised (V w') = dr \<and>
    (\<forall>cm d. clCMs (V w') (capabilitiesKey m) = Some cm \<and> clDeploys (V w') (deploymentKey m) = Some d \<longrightarrow>
       gm_get (depTemplateAnnotations d) capabilitiesHashAnnotation =
         capabilitiesDataHash (rangeKeys (cmData cm)) (cmData cm)) \<and>
    (if cmDeletionTimestamp (foundConfigMap m (V w)) = None
     then \<exists>cm. clCMs (V w') (capabilitiesKey m) = Some cm \<and> gm_make (cmData cm) = capabilitiesData fs dr \<and>
       capabilitiesConfigMapFinalizer \<in> set (cmFinalizers cm)
     else (case clCMs (V w') (capabilitiesKey m) of
         None \<Rightarrow> set (cmFinalizers (foundConfigMap m (V w))) \<subseteq> {capabilitiesConfigMapFinalizer}
       | Some cm \<Rightarrow> same_cm ((foundConfigMap m (V w))\<lparr>cmFinalizers :=
           filter (\<lambda>f. f \<noteq> capabilitiesConfigMapFinalizer) (cmFinalizers (foundConfigMap m (V w)))\<rparr>) cm \<and> cmFinalizers cm \<noteq> []))"
proof -
  note fw = assms(2) [unfolded framework_laws_def]
  from assms(3,7) obtain w1 w2 w3 rr1 where rr1: "rrInstance rr1 = rrInstance rr"
    and first: "setKustomizedParams K U rr1 w = (None, w1)" "reconcileDataRegistryNamespace K m rr1 w1 = (None, w2)"
      "reconcileCapabilitiesConfigMap K m rr1 w2 = (None, w3)"
    and later: "forEach (\<lambda>a. a) (drop 5 (pipeline K U S F m)) (rr1, w3) = (None, (rr', w'))" by (rule pipeline_first)
  have "rrInstance rr1 = FeastInst feast" using rr1 assms(5) by simp
  note three = prepared [OF assms(1,4) this assms(6) first]
  from later obtain r4 w4 r5 w5 r6 w6 w7 r8 w8 w9 r10 w10 where steps: "releasesAction F (rr1, w3) = (None, (r4, w4))"
    "reconcilePlatformVersion K m (r4, w4) = (None, (r5, w5))"
    "kustomizeAction F [(componentLabel K componentName, labelTrue K), (partOfLabel F, componentName)] (r5, w5) = (None, (r6, w6))"
    "migrateDeploymentSelector K m w6 = (None, w7)" "deployAction F (r6, w7) = (None, (r8, w8))"
    "triggerCapabilityRolloutIfNeeded K m w8 = (None, w9)" "deploymentsAction F (r8, w9) = (None, (r10, w10))"
    "gcAction F (cfgApplicationsNamespace (mCfg m)) (r10, w10) = (None, (rr', w'))" by (rule pipeline_rest)
  note hs = reconcilePlatformVersion_frame [OF assms(1) steps(2)] and mig = migrate_frame [OF assms(1) steps(4)]
    and roll = trigger_frame [OF assms(1) steps(6)]
  have cm8: "clCMs (V w8) (capabilitiesKey m) = clCMs (V w3) (capabilitiesKey m)"
    using fw hs mig keepsD(1) steps(1,3,5) by metis
  have cm': "clCMs (V w') (capabilitiesKey m) = clCMs (V w3) (capabilitiesKey m)"
    using cm8 fw roll keepsD(1) steps(7,8) by metis
  have "clNSs (V w') dataRegistryNamespaceName = clNSs (V w3) dataRegistryNamespaceName"
    using fw hs mig roll keepsD(2) steps(1,3,5,7,8) by metis
  then have ns: "registryAdvertised (V w') = dr" using three(2) by (simp add: registryAdvertised_def)
  have dep: "clDeploys (V w') (deploymentKey m) = clDeploys (V w9) (deploymentKey m)"
    using fw keepsD(3) steps(7,8) by metis
  have hash: "gm_get (depTemplateAnnotations d) capabilitiesHashAnnotation =
      capabilitiesDataHash (rangeKeys (cmData cm)) (cmData cm)"
    if "clCMs (V w') (capabilitiesKey m) = Some cm" "clDeploys (V w') (deploymentKey m) = Some d" for cm d
    using rollout_hash [OF assms(1) steps(6)] that dep cm8 cm' by simp
  show ?thesis
  proof (cases "cmDeletionTimestamp (foundConfigMap m (V w)) = None")
    case True
    with three(1) ns hash show ?thesis by (simp add: settled_def cm' heldByModule_def)
  next
    case False
    from settled_released [OF three(1) False] have
      "case clCMs (V w') (capabilitiesKey m) of
         None \<Rightarrow> set (cmFinalizers (foundConfigMap m (V w))) \<subseteq> {capabilitiesConfigMapFinalizer}
       | Some cm \<Rightarrow> same_cm (released (foundConfigMap m (V w))) cm \<and> cmFinalizers cm \<noteq> []"
      by (simp add: cm' split: option.splits)
    with False ns hash show ?thesis by (simp only: released_def if_False simp_thms) blast
  qed
qed

text \<open>On the concrete server, with framework actions that do nothing, every action succeeds.\<close>

definition ready :: "unit request \<Rightarrow> bool" where
  "ready rr \<longleftrightarrow> (\<exists>f. rrInstance rr = FeastInst f \<and> specOIDC (spec f) = None) \<and> rrManifests rr \<noteq> []"

definition succeeds :: "(demo, unit) action \<Rightarrow> bool" where
  "succeeds a \<longleftrightarrow> (\<forall>rr w. ready rr \<longrightarrow> (\<exists>rr' w'. a (rr, w) = (None, (rr', w')) \<and> ready rr'))"

lemma succeeds_all: "\<forall>a \<in> set as. succeeds a \<Longrightarrow> ready rr \<Longrightarrow> \<exists>rr' w'. forEach (\<lambda>a. a) as (rr, w) = (None, (rr', w'))"
proof (induction as arbitrary: rr w)
  case (Cons a as)
  then obtain rr1 w1 where "a (rr, w) = (None, (rr1, w1))" "ready rr1" unfolding succeeds_def by (metis list.set_intros(1))
  with Cons show ?case by simp
qed simp

lemma succeeds_nop [simp]: "succeeds nop"
  by (simp add: succeeds_def nop_def)

lemma succeeds_reads:
  assumes "\<And>rr w. ready rr \<Longrightarrow> fst (h rr w) = None"
  shows "succeeds (readsRequest h)"
  unfolding succeeds_def
proof (intro allI impI)
  fix rr w assume "ready rr"
  with assms [of rr w] show "\<exists>rr' w'. readsRequest h (rr, w) = (None, rr', w') \<and> ready rr'"
    by (cases "h rr w") (simp add: readsRequest_def)
qed

definition laxSemver :: "unit semver" where
  "laxSemver = demoSemver\<lparr>semverParse := \<lambda>_. Inr ()\<rparr>"

lemma demo_handlers:
  "ready rr \<Longrightarrow> fst (setKustomizedParams demoKube demoUrl rr w) = None"
  "ready rr \<Longrightarrow> fst (reconcileCapabilitiesConfigMap demoKube demoModule rr w) = None"
  "ready rr \<Longrightarrow> fst (reconcileDataRegistryNamespace demoKube demoModule rr w) = None"
proof -
  assume "ready rr"
  then obtain f mi ms where rr: "rrInstance rr = FeastInst f" "specOIDC (spec f) = None" "rrManifests rr = mi # ms"
    by (auto simp: ready_def neq_Nil_conv)
  then show "fst (setKustomizedParams demoKube demoUrl rr w) = None"
    by (simp add: setKustomizedParams_def issuerParam_def wrapErr_def demoKube_def)
  show "fst (reconcileCapabilitiesConfigMap demoKube demoModule rr w) = None"
    using demo_reconcile_any [OF rr(1)] by (metis fst_conv)
  show "fst (reconcileDataRegistryNamespace demoKube demoModule rr w) = None"
  proof (cases "snd (resolveCapabilities demoModule f)")
    case True
    have "nsName (case storedBy nsName (dNSs w) n of None \<Rightarrow> newNamespace n | Some old \<Rightarrow> old) = n"
      "nsName (newNamespace n) = n" for n
      by (auto simp: newNamespace_def split: option.splits dest: storedBy_key)
    with rr(1) True show ?thesis
      by (simp add: reconcileDataRegistryNamespace_def demoKube_def demoCreateOrUpdateNS_def labelNamespace_def)
  next
    case False
    with rr(1) show ?thesis
      by (simp add: reconcileDataRegistryNamespace_disabled removeDataRegistryLabel_progress [OF demo_laws demo_available])
  qed
qed

lemma demo_handshake: "succeeds (reconcilePlatformVersion demoKube demoModule)"
  unfolding succeeds_def
proof (intro allI impI)
  fix rr :: "unit request" and w
  assume "ready rr"
  then obtain f where rr: "rrInstance rr = FeastInst f" "specOIDC (spec f) = None" "rrManifests rr \<noteq> []"
    by (auto simp: ready_def)
  show "\<exists>rr' w'. reconcilePlatformVersion demoKube demoModule (rr, w) = (None, rr', w') \<and> ready rr'"
    using rr by (auto simp: reconcilePlatformVersion_def getPlatformVersion_def demoKube_def demoGet_def
        handlePlatformUpgrade_def ready_def setPlatformRelease_def split: option.splits)
qed

lemma demo_pipeline:
  "\<exists>rr' w'. forEach (\<lambda>a. a) (pipeline demoKube demoUrl laxSemver demoFramework demoModule) (demoRequest, w) = (None, (rr', w'))"
proof -
  let ?rr = "demoRequest\<lparr>rrManifests := [mManifestInfo demoModule]\<rparr>"
  have "ready ?rr" by (simp add: ready_def demoRequest_def demoFeast_def)
  moreover have "\<forall>a \<in> set (tl (pipeline demoKube demoUrl laxSemver demoFramework demoModule)). succeeds a"
  proof -
    have "succeeds (pureAction (upgradeIfNeeded laxSemver))"
      by (auto simp: succeeds_def pureAction_def upgradeIfNeeded_def upgrade_def laxSemver_def ready_def Let_def)
    moreover have "fst (migrateDeploymentSelector demoKube demoModule v) = None" for v
      by (simp add: migrateDeploymentSelector_def demoKube_def demoGet_def Let_def split: option.splits)
    ultimately show ?thesis
      by (simp add: pipeline_def demoFramework_def demo_handshake succeeds_reads demo_handlers
          triggerCapabilityRolloutIfNeeded_progress [OF demo_laws demo_available])
  qed
  ultimately have "\<exists>rr' w'. forEach (\<lambda>a. a) (tl (pipeline demoKube demoUrl laxSemver demoFramework demoModule)) (?rr, w) = (None, (rr', w'))"
    by (intro succeeds_all)
  then show ?thesis
    by (simp add: pipeline_def initialize_def demoRequest_def)
qed

lemma pipeline_converges_witness:
  "\<exists>rr' w' cm. forEach (\<lambda>a. a) (pipeline demoKube demoUrl laxSemver demoFramework demoModule) (demoRequest, rolloutWorld) = (None, (rr', w')) \<and>
     clCMs (demoView w') (capabilitiesKey demoModule) = Some cm \<and> gm_make (cmData cm) = capabilitiesData True True"
proof -
  obtain rr' w' where run: "forEach (\<lambda>a. a) (pipeline demoKube demoUrl laxSemver demoFramework demoModule) (demoRequest, rolloutWorld) = (None, (rr', w'))"
    using demo_pipeline by blast
  have fw: "framework_laws demoFramework demoModule demoView"
    by (simp add: framework_laws_def demoFramework_def keepsCapabilities_def keepsDeployment_def nop_def)
  have params: "demoView (snd (applyParams demoKube dir fname im ps w)) = demoView w" for dir fname im ps w
    by (simp add: demoKube_def)
  have "cmDeletionTimestamp (foundConfigMap demoModule (demoView rolloutWorld)) = None"
    using held_stored by (simp add: foundConfigMap_def rolloutWorld_def heldConfigMap_def newConfigMap_def)
  from pipeline_converges [OF demo_laws fw demo_runs params demo_feast demo_resolve run] this run
  show ?thesis by auto
qed

end
