(* ===== verification/Lifecycle.thy ===== *)
theory Lifecycle
  imports UninstallProtocol PipelineProps
begin

text \<open>
  The life of a \<^verbatim>\<open>FeastOperator\<close> resource: absent, live, being deleted, absent again. While it is
  live the actions of the pipeline run one after the other, from the start after a failure or a
  restart, and users edit the resource; when it is deleted the uninstall protocol takes over, and
  when its last stage has gone through the resource is gone. The feast operator, users and the rest of the
  cluster act throughout. What is stored in the capabilities ConfigMap stays well formed.
\<close>

section \<open>The system\<close>

text \<open>
  A live resource, the request of the reconciliation under way (of the resource as it was read at its
  start) and what is left of it. The framework never runs a resource twice at the same time.
\<close>

datatype ('w, 'v) life =
    Absent "'w uninstall"
  | Live feast_operator "'v request" "('w, 'v) action list" "'w uninstall"
  | Deleting "'w uninstall"

fun lifeState :: "('w, 'v) life \<Rightarrow> 'w uninstall" where
  "lifeState (Absent s) = s"
| "lifeState (Live feast rr as s) = s"
| "lifeState (Deleting s) = s"

definition storedConfig :: "('w \<Rightarrow> cluster) \<Rightarrow> 'w module \<Rightarrow> 'w uninstall \<Rightarrow> config_map option" where
  "storedConfig V m s = clCMs (V (usWorld s)) (capabilitiesKey m)"

text \<open>
  What the rest of the world does: a step of the uninstall system with no run of the finalizer before
  or after it.
\<close>

definition around_step :: "'w kube \<Rightarrow> ('w \<Rightarrow> cluster) \<Rightarrow> 'w module \<Rightarrow> 'w uninstall \<Rightarrow> 'w uninstall \<Rightarrow> bool" where
  "around_step K V m s s' \<longleftrightarrow> uninstall_step K V m s s' \<and> usTodo s = [] \<and> usTodo s' = []"

inductive life_step ::
  "'w kube \<Rightarrow> ('w \<Rightarrow> cluster) \<Rightarrow> 'u url_lib \<Rightarrow> 'v semver \<Rightarrow> ('w, 'v) framework \<Rightarrow> 'w module \<Rightarrow>
   ('w, 'v) life \<Rightarrow> ('w, 'v) life \<Rightarrow> bool"
  for K V U S F m
  where
  Create: "life_step K V U S F m (Absent s) (Live feast rr [] s)"
| Edit: "life_step K V U S F m (Live feast rr as s) (Live feast' rr as s)"
| Reconcile: "rrInstance rr' = FeastInst feast \<Longrightarrow>
     life_step K V U S F m (Live feast rr [] s) (Live feast rr' (pipeline K U S F m) s)"
| Act: "a (rr, usWorld s) = (None, (rr', w')) \<Longrightarrow>
     life_step K V U S F m (Live feast rr (a # as) s) (Live feast rr' as (s\<lparr>usWorld := w'\<rparr>))"
| ActFail: "a (rr, usWorld s) = (Some e, (rr', w')) \<Longrightarrow>
     life_step K V U S F m (Live feast rr (a # as) s) (Live feast rr' [] (s\<lparr>usWorld := w'\<rparr>))"
| Crash: "life_step K V U S F m (Live feast rr as s) (Live feast rr [] s)"
| AroundAbsent: "around_step K V m s s' \<Longrightarrow> life_step K V U S F m (Absent s) (Absent s')"
| AroundLive: "around_step K V m s s' \<Longrightarrow> life_step K V U S F m (Live feast rr as s) (Live feast rr as s')"
| Delete: "life_step K V U S F m (Live feast rr [] s) (Deleting (s\<lparr>usTorn := False\<rparr>))"
| Uninstall: "uninstall_step K V m s s' \<Longrightarrow> life_step K V U S F m (Deleting s) (Deleting s')"
| Finish: "usTodo s = [DropRoles] \<Longrightarrow> stageAct K m DropRoles t (usWorld s) = (None, w') \<Longrightarrow> ticksTo s t \<Longrightarrow>
     life_step K V U S F m (Deleting s) (Absent (s\<lparr>usWorld := w', usNow := t, usTodo := []\<rparr>))"

text \<open>What is assumed of the framework's actions and of the helper that edits the manifests on disk.\<close>

definition leavesConfig :: "'w module \<Rightarrow> ('w \<Rightarrow> cluster) \<Rightarrow> ('w, 'v) action \<Rightarrow> bool" where
  "leavesConfig m V a \<longleftrightarrow>
     (\<forall>rr w r rr' w'. a (rr, w) = (r, (rr', w')) \<longrightarrow>
        clCMs (V w') (capabilitiesKey m) = clCMs (V w) (capabilitiesKey m) \<and>
        (\<forall>f. rrInstance rr = FeastInst f \<longrightarrow> (\<exists>f'. rrInstance rr' = FeastInst f' \<and> spec f' = spec f)))"

definition host_laws :: "'w kube \<Rightarrow> ('w, 'v) framework \<Rightarrow> 'w module \<Rightarrow> ('w \<Rightarrow> cluster) \<Rightarrow> bool" where
  "host_laws K F m V \<longleftrightarrow>
     leavesConfig m V (releasesAction F) \<and> (\<forall>ls. leavesConfig m V (kustomizeAction F ls)) \<and>
     leavesConfig m V (deployAction F) \<and> leavesConfig m V (deploymentsAction F) \<and>
     (\<forall>ns. leavesConfig m V (gcAction F ns)) \<and>
     (\<forall>dir file im ps w. V (snd (applyParams K dir file im ps w)) = V w)"

section \<open>The actions of the pipeline\<close>

lemma leaves_reads:
  assumes "\<And>rr w r w'. h rr w = (r, w') \<Longrightarrow> clCMs (V w') (capabilitiesKey m) = clCMs (V w) (capabilitiesKey m)"
  shows "leavesConfig m V (readsRequest h)"
  unfolding leavesConfig_def
proof (intro allI impI)
  fix rr w r rr' w'
  assume "readsRequest h (rr, w) = (r, (rr', w'))"
  then have "h rr w = (r, w')" "rr' = rr" by (auto simp: readsRequest_def split: prod.splits)
  with assms show "clCMs (V w') (capabilitiesKey m) = clCMs (V w) (capabilitiesKey m) \<and>
    (\<forall>f. rrInstance rr = FeastInst f \<longrightarrow> (\<exists>f'. rrInstance rr' = FeastInst f' \<and> spec f' = spec f))" by simp
qed

lemma reconcileNamespace_frame:
  assumes "kube_laws K V" "reconcileDataRegistryNamespace K m rr w = (r, w')"
  shows "clCMs (V w') = clCMs (V w)"
proof (cases "rrInstance rr")
  case (FeastInst feast)
  show ?thesis
  proof (cases "snd (resolveCapabilities m feast)")
    case True
    from assms(1) FeastInst True assms(2) show ?thesis
      by (cases rule: reconcileDataRegistryNamespace_enabled) simp_all
  next
    case False
    with assms(2) FeastInst have "removeDataRegistryLabel K w = (r, w')"
      by (simp add: reconcileDataRegistryNamespace_disabled)
    with assms(1) show ?thesis by (cases rule: removeDataRegistryLabel_effect) simp_all
  qed
qed (use assms(2) in \<open>simp add: reconcileDataRegistryNamespace_def\<close>)

lemma leaves_handshake:
  assumes "kube_laws K V"
  shows "leavesConfig m V (reconcilePlatformVersion K m)"
  unfolding leavesConfig_def
proof (intro allI impI)
  fix rr :: "'v request" and w r rr' w'
  let ?key = "\<lparr>keyName = platformConfigCMName, keyNamespace = cfgApplicationsNamespace (mCfg m)\<rparr>"
  assume run: "reconcilePlatformVersion K m (rr, w) = (r, (rr', w'))"
  obtain g w1 where get: "getCM K ?key w = (g, w1)" by fastforce
  with run have "w' = w \<or> w' = w1" "rr' = rr \<or> (\<exists>f v. rrInstance rr = FeastInst f \<and> rrInstance rr' = FeastInst (setPlatformRelease v f))"
    by (auto simp: reconcilePlatformVersion_def getPlatformVersion_def handlePlatformUpgrade_def
        split: instance_obj.splits sum.splits if_splits option.splits)
  moreover have "V w1 = V w" using getCM_reads(1) [OF assms get] .
  ultimately show "clCMs (V w') (capabilitiesKey m) = clCMs (V w) (capabilitiesKey m) \<and>
    (\<forall>f. rrInstance rr = FeastInst f \<longrightarrow> (\<exists>f'. rrInstance rr' = FeastInst f' \<and> spec f' = spec f))"
    by (auto simp: setPlatformRelease_def)
qed

text \<open>Every action but the publication leaves the ConfigMap alone.\<close>

lemma pipeline_leaves:
  assumes laws: "kube_laws K V" "host_laws K F m V" and a: "a \<in> set (pipeline K U S F m)"
  shows "a = readsRequest (reconcileCapabilitiesConfigMap K m) \<or> leavesConfig m V a"
proof -
  note host = laws(2) [unfolded host_laws_def]
  have "leavesConfig m V (initialize m)" by (auto simp: leavesConfig_def initialize_def)
  moreover have "leavesConfig m V (pureAction (upgradeIfNeeded S))" by (auto simp: leavesConfig_def pureAction_def)
  moreover have "leavesConfig m V (readsRequest (setKustomizedParams K U))"
  proof (rule leaves_reads)
    fix rr w r w'
    assume "setKustomizedParams K U rr w = (r, w')"
    then have "V w' = V w" by (rule applyParams_frame [rotated]) (use host in blast)
    then show "clCMs (V w') (capabilitiesKey m) = clCMs (V w) (capabilitiesKey m)" by simp
  qed
  moreover have "leavesConfig m V (readsRequest (reconcileDataRegistryNamespace K m))"
    by (rule leaves_reads, rule fun_cong, rule reconcileNamespace_frame [OF laws(1)])
  moreover have "leavesConfig m V (readsRequest (\<lambda>_. migrateDeploymentSelector K m))"
    by (rule leaves_reads, rule fun_cong, rule migrate_frame(1) [OF laws(1)])
  moreover have "leavesConfig m V (readsRequest (\<lambda>_. triggerCapabilityRolloutIfNeeded K m))"
    by (rule leaves_reads, rule fun_cong, rule trigger_frame(2) [OF laws(1)])
  moreover note leaves_handshake [OF laws(1), of m]
  ultimately show ?thesis using a host by (auto simp: pipeline_def)
qed


section \<open>What is stored stays well formed\<close>

text \<open>The part of a ConfigMap that the two operators read.\<close>

definition content :: "config_map \<Rightarrow> (string, string) fmap \<times> (string, string) fmap \<times> (string, string) fmap" where
  "content cm = (gm_make (cmData cm), gm_make (cmLabels cm), gm_make (cmAnnotations cm))"

definition isFlag :: "string \<Rightarrow> bool" where
  "isFlag v \<longleftrightarrow> v = boolString True \<or> v = boolString False"

definition wellFormed :: "'w kube \<Rightarrow> config_map \<Rightarrow> bool" where
  "wellFormed K cm \<longleftrightarrow>
     isFlag (gm_get (cmData cm) capabilitiesKeyFeatureStoreEnabled) \<and>
     isFlag (gm_get (cmData cm) capabilitiesKeyDataRegistryEnabled) \<and>
     gm_lookup (cmLabels cm) (componentLabel K componentName) = Some (labelTrue K) \<and>
     (startedAt cm = [] \<or> (\<exists>t. 0 \<le> yearOf t \<and> yearOf t < 10000 \<and> startedAt cm = formatRFC3339 t))"

lemma content_fields:
  assumes "content a = content b"
  shows "gm_get (cmData a) k = gm_get (cmData b) k" "gm_lookup (cmLabels a) k = gm_lookup (cmLabels b) k"
    "startedAt a = startedAt b"
  using assms by (auto simp: content_def startedAt_def gm_get_lookup gm_lookup_make)

lemma wellFormed_cong:
  assumes "content a = content b"
  shows "wellFormed K a = wellFormed K b"
  by (simp only: wellFormed_def content_fields [OF assms])

lemma content_moved [simp]:
  "content (letGo cm) = content cm" "content (claimed cm) = content cm" "content (released cm) = content cm"
  by (simp_all add: content_def letGo_def claimed_def released_def)

lemma content_stored: "stored_as cm (Some cm') \<Longrightarrow> content cm' = content cm"
  using stored_as_Some [of cm cm'] by (simp add: content_def same_cm_def gm_eq_def)

lemma content_terminated: "terminated t cm = Some cm' \<Longrightarrow> content cm' = content cm"
  by (auto simp: content_def terminated_def split: if_splits)

lemma wellFormed_intent:
  assumes "wellFormed K cm" "0 \<le> yearOf t" "yearOf t < 10000"
  shows "wellFormed K (teardownIntent t cm)"
  using assms teardownIntent_fields(6) [of t cm] by (auto simp: wellFormed_def flagsDisabled_def isFlag_def)

text \<open>Every step of the uninstall keeps the content or writes the intent.\<close>

definition rewritesTo :: "'w module \<Rightarrow> time \<Rightarrow> cluster \<Rightarrow> cluster \<Rightarrow> bool" where
  "rewritesTo m t a b \<longleftrightarrow>
     (\<forall>cm'. clCMs b (capabilitiesKey m) = Some cm' \<longrightarrow>
        (\<exists>cm. clCMs a (capabilitiesKey m) = Some cm \<and>
           (content cm' = content cm \<or> content cm' = content (teardownIntent t cm))))"

lemma rewritesTo_same: "clCMs b (capabilitiesKey m) = clCMs a (capabilitiesKey m) \<Longrightarrow> rewritesTo m t a b"
  by (simp add: rewritesTo_def)

lemma rewritesTo_stored:
  assumes "clCMs a (capabilitiesKey m) = Some cm" "b = a\<lparr>clCMs := (clCMs a)(capabilitiesKey m := x)\<rparr>"
    and "\<And>cm'. x = Some cm' \<Longrightarrow> content cm' = content cm \<or> content cm' = content (teardownIntent t cm)"
  shows "rewritesTo m t a b"
  using assms by (simp add: rewritesTo_def)

lemma stage_rewritesTo:
  assumes laws: "kube_laws K V" "recorder_laws m V" and run: "stageAct K m st t w = (r, w')"
  shows "rewritesTo m t (V w) (V w')"
proof (cases st)
  case Unlabel
  with run have "removeDataRegistryLabel K w = (r, w')" by simp
  with laws(1) show ?thesis by (cases rule: removeDataRegistryLabel_effect) (simp_all add: rewritesTo_same)
next
  case Mark
  with run have "markCapabilitiesDisabled K m t w = (r, w')" by simp
  with laws(1) show ?thesis
  proof (cases rule: markCapabilitiesDisabled_effect)
    case (marked cm x)
    then show ?thesis by (intro rewritesTo_stored [OF marked(1,4)]) (simp add: content_stored)
  qed (simp add: rewritesTo_same)
next
  case Rollout
  with run show ?thesis by (simp add: rewritesTo_same trigger_frame(2) [OF laws(1)])
next
  case Withdraw
  with run have "deleteCapabilitiesConfigMap K m w = (r, w')" by simp
  with laws(1) show ?thesis
  proof (cases rule: deleteCapabilitiesConfigMap_effect)
    case (terminates cm u)
    then show ?thesis by (intro rewritesTo_stored [OF terminates(1,3)]) (simp add: content_terminated)
  qed (simp add: rewritesTo_same)
next
  case Await
  with run show ?thesis using waitForFeastOperatorRelease_effect(1) [OF laws] by (simp add: rewritesTo_same)
next
  case Release
  with run have "releaseCapabilitiesConfigMap K m w = (r, w')" by simp
  with laws(1) show ?thesis
  proof (cases rule: releaseCapabilitiesConfigMap_effect)
    case (removed cm x)
    then show ?thesis by (intro rewritesTo_stored [OF removed(1,4)]) (simp add: content_stored)
  qed (simp add: rewritesTo_same)
qed (use drop_stages [OF laws(1) run] in \<open>simp_all add: rewritesTo_same\<close>)

text \<open>What happens around a run keeps the content, and makes no terminating ConfigMap live again.\<close>

lemma around_content:
  assumes "around_step K V m s s'" "storedConfig V m s' = Some cm'"
  obtains cm where "storedConfig V m s = Some cm" "content cm' = content cm"
    "cmDeletionTimestamp cm \<noteq> None \<longrightarrow> cmDeletionTimestamp cm' \<noteq> None"
    "cmDeletionTimestamp cm = None \<and> cmDeletionTimestamp cm' = None \<longrightarrow> set (cmFinalizers cm) \<subseteq> set (cmFinalizers cm')"
proof -
  have step: "uninstall_step K V m s s'" "usTodo s = []" "usTodo s' = []"
    using assms(1) by (simp_all add: around_step_def)
  note stored = assms(2) [unfolded storedConfig_def]
  from step(1) show thesis
  proof cases
    case (Begin)
    with step(3) show thesis by (simp add: finalizerStages_def)
  next
    case (TearDown cm x w')
    with stored have x: "x = Some cm'" by (simp add: storesCM_def)
    with TearDown have "cmDeletionTimestamp cm' \<noteq> None" "content cm' = content cm"
      by (simp_all add: moved_stored content_stored)
    with TearDown show thesis by (intro that [of cm]) (auto simp: storedConfig_def)
  next
    case (Claim cm x w')
    with stored have x: "x = Some cm'" by (simp add: storesCM_def)
    with Claim have "content cm' = content cm" "cmFinalizers cm' = cmFinalizers (claimed cm)"
      by (simp_all add: content_stored same_cm_fields(2) [OF stored_as_Some])
    with Claim show thesis by (intro that [of cm]) (auto simp: storedConfig_def claimed_def)
  next
    case (UserDelete cm t w')
    with stored have t: "terminated t cm = Some cm'" by (simp add: storesCM_def)
    with UserDelete show thesis
      by (intro that [of cm]) (simp_all add: storedConfig_def content_terminated terminated_fields [OF t])
  qed (use step stored that [of cm'] in \<open>auto simp: storedConfig_def\<close>)
qed

lemma around_torn:
  assumes "around_step K V m s s'" "usTorn s' \<noteq> usTorn s"
  obtains cm where "storedConfig V m s = Some cm" "cmDeletionTimestamp cm \<noteq> None"
    "gm_get (cmData cm) capabilitiesKeyDataRegistryEnabled = boolString False"
proof -
  have "uninstall_step K V m s s'" using assms(1) by (simp add: around_step_def)
  then show thesis using assms(2) that by cases (auto simp: storedConfig_def)
qed

section \<open>The invariant of a life\<close>

text \<open>Of a live resource: a ConfigMap that is not terminating has no recorded start, and the finalizer.\<close>

definition liveConfig :: "'w kube \<Rightarrow> config_map option \<Rightarrow> bool" where
  "liveConfig K x \<longleftrightarrow>
     (\<forall>cm. x = Some cm \<longrightarrow> wellFormed K cm \<and>
        (cmDeletionTimestamp cm = None \<longrightarrow> startedAt cm = [] \<and> heldByModule cm))"

fun lived ::
  "'w kube \<Rightarrow> ('w \<Rightarrow> cluster) \<Rightarrow> 'u url_lib \<Rightarrow> 'v semver \<Rightarrow> ('w, 'v) framework \<Rightarrow> 'w module \<Rightarrow> ('w, 'v) life \<Rightarrow> bool" where
  "lived K V U S F m (Absent s) \<longleftrightarrow> usTodo s = [] \<and>
     (\<forall>cm. storedConfig V m s = Some cm \<longrightarrow> wellFormed K cm \<and> cmDeletionTimestamp cm \<noteq> None)"
| "lived K V U S F m (Live feast rr as s) \<longleftrightarrow> usTodo s = [] \<and> liveConfig K (storedConfig V m s) \<and>
     set as \<subseteq> set (pipeline K U S F m) \<and> (as \<noteq> [] \<longrightarrow> (\<exists>f. rrInstance rr = FeastInst f))"
| "lived K V U S F m (Deleting s) \<longleftrightarrow> onTrack V m s \<and> (\<forall>cm. storedConfig V m s = Some cm \<longrightarrow> wellFormed K cm)"

lemma publish_live:
  assumes laws: "kube_laws K V" and rr: "rrInstance rr = FeastInst f"
    and run: "reconcileCapabilitiesConfigMap K m rr w = (r, w')" and live: "liveConfig K (clCMs (V w) (capabilitiesKey m))"
  shows "liveConfig K (clCMs (V w') (capabilitiesKey m))"
proof -
  obtain fs dr where res: "resolveCapabilities m f = (fs, dr)" by fastforce
  from laws rr res run show ?thesis
  proof (cases rule: reconcileCapabilities_effect)
    case (live cm')
    have "startedAt (foundConfigMap m (V w)) = []"
      using live(1) assms(4) by (auto simp: liveConfig_def foundConfigMap_def newConfigMap_def startedAt_def split: option.splits)
    then have "startedAt cm' = []"
      using live(2) gm_eq_get [of "cmAnnotations cm'" "cmAnnotations (foundConfigMap m (V w))"]
      by (simp add: desired_def startedAt_def)
    moreover have "gm_get (cmData cm') capabilitiesKeyFeatureStoreEnabled = boolString fs"
      "gm_get (cmData cm') capabilitiesKeyDataRegistryEnabled = boolString dr"
      using live(2) capabilitiesData_get [of fs dr] by (simp_all add: desired_def gm_get_lookup gm_lookup_make)
    moreover have "gm_lookup (cmLabels cm') (componentLabel K componentName) = Some (labelTrue K)"
      using live(2) by (simp add: desired_def gm_lookup_make)
    ultimately show ?thesis
      using live(3) desired_held [OF live(2)] by (cases fs; cases dr) (simp_all add: liveConfig_def wellFormed_def isFlag_def)
  next
    case (terminating cm x)
    have "wellFormed K cm' \<and> cmDeletionTimestamp cm' \<noteq> None" if "x = Some cm'" for cm'
    proof -
      have "content cm' = content cm" "cmDeletionTimestamp cm' = cmDeletionTimestamp cm"
        using terminating(3) that stored_as_Some [of "released cm" cm'] by (auto simp: content_stored same_cm_fields(3))
      with terminating(1,2) assms(4) show ?thesis by (simp add: liveConfig_def wellFormed_cong [of cm' cm])
    qed
    with terminating(4) show ?thesis by (auto simp: liveConfig_def)
  qed (use assms(4) in simp)
qed

lemma action_live:
  assumes laws: "kube_laws K V" "host_laws K F m V" and a: "a \<in> set (pipeline K U S F m)" "a (rr, w) = (r, (rr', w'))"
    and rr: "rrInstance rr = FeastInst f" and live: "liveConfig K (clCMs (V w) (capabilitiesKey m))"
  shows "liveConfig K (clCMs (V w') (capabilitiesKey m))" "\<exists>f'. rrInstance rr' = FeastInst f' \<and> spec f' = spec f"
proof -
  have "liveConfig K (clCMs (V w') (capabilitiesKey m)) \<and> (\<exists>f'. rrInstance rr' = FeastInst f' \<and> spec f' = spec f)"
    using pipeline_leaves [OF laws a(1)]
  proof
    assume "a = readsRequest (reconcileCapabilitiesConfigMap K m)"
    with a(2) have "reconcileCapabilitiesConfigMap K m rr w = (r, w')" "rr' = rr"
      by (auto simp: readsRequest_def split: prod.splits)
    with publish_live [OF laws(1) rr _ live] rr show ?thesis by blast
  next
    assume "leavesConfig m V a"
    with a(2) rr live show ?thesis unfolding leavesConfig_def by metis
  qed
  then show "liveConfig K (clCMs (V w') (capabilitiesKey m))" "\<exists>f'. rrInstance rr' = FeastInst f' \<and> spec f' = spec f"
    by blast+
qed

lemma around_live:
  assumes "around_step K V m s s'" "liveConfig K (storedConfig V m s)"
  shows "liveConfig K (storedConfig V m s')"
  unfolding liveConfig_def
proof (intro allI impI)
  fix cm' assume "storedConfig V m s' = Some cm'"
  with assms(1) obtain cm where cm: "storedConfig V m s = Some cm" "content cm' = content cm"
    "cmDeletionTimestamp cm \<noteq> None \<longrightarrow> cmDeletionTimestamp cm' \<noteq> None"
    "cmDeletionTimestamp cm = None \<and> cmDeletionTimestamp cm' = None \<longrightarrow> set (cmFinalizers cm) \<subseteq> set (cmFinalizers cm')"
    by (rule around_content)
  with assms(2) show "wellFormed K cm' \<and> (cmDeletionTimestamp cm' = None \<longrightarrow> startedAt cm' = [] \<and> heldByModule cm')"
    by (auto simp: liveConfig_def wellFormed_cong [OF cm(2)] content_fields(3) [OF cm(2)] heldByModule_def)
qed

lemma around_formed:
  assumes "around_step K V m s s'" "storedConfig V m s' = Some cm'"
    and "\<And>cm. storedConfig V m s = Some cm \<Longrightarrow> wellFormed K cm \<and> cmDeletionTimestamp cm \<noteq> None"
  shows "wellFormed K cm' \<and> cmDeletionTimestamp cm' \<noteq> None"
  using assms(1,2)
proof (rule around_content)
  fix cm
  assume cm: "storedConfig V m s = Some cm" "content cm' = content cm"
    "cmDeletionTimestamp cm \<noteq> None \<longrightarrow> cmDeletionTimestamp cm' \<noteq> None"
  with assms(3) [OF cm(1)] show ?thesis by (simp add: wellFormed_cong [OF cm(2)])
qed

text \<open>A run of the finalizer keeps the ConfigMap well formed.\<close>

lemma stage_formed:
  assumes "kube_laws K V" "recorder_laws m V" "stageAct K m st t (usWorld s) = (r, w')" "ticksTo s t"
    and "\<And>cm. storedConfig V m s = Some cm \<Longrightarrow> wellFormed K cm" "clCMs (V w') (capabilitiesKey m) = Some cm'"
  shows "wellFormed K cm'"
proof -
  from stage_rewritesTo [OF assms(1-3)] assms(6) obtain cm where cm: "clCMs (V (usWorld s)) (capabilitiesKey m) = Some cm"
    "content cm' = content cm \<or> content cm' = content (teardownIntent t cm)"
    by (auto simp: rewritesTo_def)
  then have "wellFormed K cm" "wellFormed K (teardownIntent t cm)"
    using assms(4,5) by (simp_all add: storedConfig_def ticksTo_def wellFormed_intent)
  with cm(2) show ?thesis using wellFormed_cong [of cm' cm] wellFormed_cong [of cm' "teardownIntent t cm"] by auto
qed

lemma uninstall_formed:
  assumes "kube_laws K V" "recorder_laws m V" "uninstall_step K V m s s'"
    and formed: "\<And>cm. storedConfig V m s = Some cm \<Longrightarrow> wellFormed K cm" and cm': "storedConfig V m s' = Some cm'"
  shows "wellFormed K cm'"
  using assms(3)
proof cases
  case (Advance st rest t w')
  with stage_formed [OF assms(1,2) Advance(3,4) formed] cm' show ?thesis by (simp add: storedConfig_def)
next
  case (Fail st rest t e w')
  with stage_formed [OF assms(1,2) Fail(3,4) formed] cm' show ?thesis by (simp add: storedConfig_def)
next
  case (TearDown cm x w')
  with cm' have "content cm' = content cm" by (simp add: storedConfig_def storesCM_def content_stored)
  then show ?thesis using formed [of cm] TearDown(2) by (simp add: storedConfig_def wellFormed_cong [of cm' cm])
next
  case (Claim cm x w')
  with cm' have "content cm' = content cm" by (simp add: storedConfig_def storesCM_def content_stored)
  then show ?thesis using formed [of cm] Claim(2) by (simp add: storedConfig_def wellFormed_cong [of cm' cm])
next
  case (UserDelete cm t w')
  with cm' have "content cm' = content cm" by (simp add: storedConfig_def storesCM_def content_terminated)
  then show ?thesis using formed [of cm] UserDelete(2) by (simp add: storedConfig_def wellFormed_cong [of cm' cm])
qed (use formed cm' in \<open>simp_all add: storedConfig_def\<close>)

lemma life_lived:
  assumes laws: "kube_laws K V" "recorder_laws m V" "host_laws K F m V"
    and step: "life_step K V U S F m st st'" and lived: "lived K V U S F m st"
  shows "lived K V U S F m st'"
  using step
proof cases
  case (Create s feast rr)
  with lived show ?thesis by (auto simp: liveConfig_def)
next
  case (Reconcile rr' feast rr s)
  with lived show ?thesis by simp
next
  case (Act a rr s rr' w' feast as)
  with lived obtain f where f: "rrInstance rr = FeastInst f" by auto
  have a: "a \<in> set (pipeline K U S F m)" "liveConfig K (clCMs (V (usWorld s)) (capabilitiesKey m))"
    using lived Act(1) by (auto simp: storedConfig_def)
  from action_live [OF laws(1,3) a(1) Act(3) f a(2)] Act lived show ?thesis by (auto simp: storedConfig_def)
next
  case (ActFail a rr s e rr' w' feast as)
  with lived obtain f where f: "rrInstance rr = FeastInst f" by auto
  have a: "a \<in> set (pipeline K U S F m)" "liveConfig K (clCMs (V (usWorld s)) (capabilitiesKey m))"
    using lived ActFail(1) by (auto simp: storedConfig_def)
  from action_live [OF laws(1,3) a(1) ActFail(3) f a(2)] ActFail lived show ?thesis by (auto simp: storedConfig_def)
next
  case (AroundAbsent s s')
  with lived around_formed [OF AroundAbsent(3)] show ?thesis by (auto simp: around_step_def)
next
  case (AroundLive s s' feast rr as)
  with lived around_live [OF AroundLive(3)] show ?thesis by (simp add: around_step_def)
next
  case (Delete feast rr s)
  with lived show ?thesis by (simp add: liveConfig_def storedConfig_def onTrack_def)
next
  case (Uninstall s s')
  with lived step_onTrack [OF laws(1,2) Uninstall(3)] uninstall_formed [OF laws(1,2) Uninstall(3)] show ?thesis by simp
next
  case (Finish s t w')
  have "clCMs (V w') = clCMs (V (usWorld s))" using drop_stages [OF laws(1) Finish(4)] by simp
  with lived Finish show ?thesis by (auto simp: storedConfig_def onTrack_def)
qed (use lived in \<open>auto\<close>)

text \<open>A cluster into which no resource has been created yet.\<close>

definition fresh :: "('w \<Rightarrow> cluster) \<Rightarrow> 'w module \<Rightarrow> 'w uninstall \<Rightarrow> bool" where
  "fresh V m s \<longleftrightarrow> usTodo s = [] \<and> clCMs (V (usWorld s)) (capabilitiesKey m) = None"

lemma lives_lived:
  assumes "kube_laws K V" "recorder_laws m V" "host_laws K F m V"
    and "(life_step K V U S F m)\<^sup>*\<^sup>* (Absent s0) st" "fresh V m s0"
  shows "lived K V U S F m st"
  using assms(4)
proof (induction rule: rtranclp_induct)
  case base
  with assms(5) show ?case by (simp add: fresh_def storedConfig_def)
next
  case (step st st')
  with life_lived [OF assms(1-3)] show ?case by blast
qed

section \<open>A registry that is wanted\<close>

text \<open>The resource is live and its Data Registry capability is on.\<close>

fun wanted :: "'w module \<Rightarrow> ('w, 'v) life \<Rightarrow> bool" where
  "wanted m (Live feast rr as s) \<longleftrightarrow> snd (resolveCapabilities m feast)"
| "wanted m _ \<longleftrightarrow> False"

definition registryOn :: "config_map option \<Rightarrow> bool" where
  "registryOn x \<longleftrightarrow>
     (\<forall>cm. x = Some cm \<longrightarrow> gm_get (cmData cm) capabilitiesKeyDataRegistryEnabled = boolString True)"

text \<open>The flag is on, and so is the capability in the request under way.\<close>

fun serving ::
  "'w kube \<Rightarrow> ('w \<Rightarrow> cluster) \<Rightarrow> 'u url_lib \<Rightarrow> 'v semver \<Rightarrow> ('w, 'v) framework \<Rightarrow> 'w module \<Rightarrow> ('w, 'v) life \<Rightarrow> bool" where
  "serving K V U S F m (Live feast rr as s) \<longleftrightarrow>
     registryOn (storedConfig V m s) \<and> set as \<subseteq> set (pipeline K U S F m) \<and>
     (as \<noteq> [] \<longrightarrow> (\<exists>f. rrInstance rr = FeastInst f \<and> snd (resolveCapabilities m f)))"
| "serving K V U S F m _ \<longleftrightarrow> False"

lemma resolve_spec: "spec f' = spec f \<Longrightarrow> resolveCapabilities m f' = resolveCapabilities m f"
  by (simp add: resolveCapabilities_def)

lemma registryOn_content:
  assumes "content cm' = content cm"
  shows "registryOn (Some cm') = registryOn (Some cm)"
  using content_fields(1) [OF assms, of capabilitiesKeyDataRegistryEnabled] by (simp only: registryOn_def option.inject simp_thms)

lemma publish_on:
  assumes "kube_laws K V" "rrInstance rr = FeastInst f" "snd (resolveCapabilities m f)"
    and "reconcileCapabilitiesConfigMap K m rr w = (r, w')" "registryOn (clCMs (V w) (capabilitiesKey m))"
  shows "registryOn (clCMs (V w') (capabilitiesKey m))"
proof -
  obtain fs dr where res: "resolveCapabilities m f = (fs, dr)" by fastforce
  from assms(1,2) res assms(4) show ?thesis
  proof (cases rule: reconcileCapabilities_effect)
    case (live cm')
    have "gm_get (cmData cm') capabilitiesKeyDataRegistryEnabled = boolString dr"
      using live(2) capabilitiesData_get(2) [of fs dr] by (simp add: desired_def gm_get_lookup gm_lookup_make)
    with live(3) assms(3) res show ?thesis by (simp add: registryOn_def)
  next
    case (terminating cm x)
    show ?thesis
    proof (cases x)
      case (Some cm')
      with terminating(3) have "content cm' = content cm" by (simp add: content_stored)
      from registryOn_content [OF this] Some terminating(1,4) assms(5) show ?thesis by simp
    qed (use terminating(4) in \<open>simp add: registryOn_def\<close>)
  qed (use assms(5) in simp)
qed

lemma action_on:
  assumes laws: "kube_laws K V" "host_laws K F m V" and a: "a \<in> set (pipeline K U S F m)" "a (rr, w) = (r, (rr', w'))"
    and rr: "rrInstance rr = FeastInst f" "snd (resolveCapabilities m f)" and on: "registryOn (clCMs (V w) (capabilitiesKey m))"
  shows "registryOn (clCMs (V w') (capabilitiesKey m)) \<and>
    (\<exists>f'. rrInstance rr' = FeastInst f' \<and> snd (resolveCapabilities m f'))"
  using pipeline_leaves [OF laws a(1)]
proof
  assume "a = readsRequest (reconcileCapabilitiesConfigMap K m)"
  with a(2) have "reconcileCapabilitiesConfigMap K m rr w = (r, w')" "rr' = rr"
    by (auto simp: readsRequest_def split: prod.splits)
  with publish_on [OF laws(1) rr _ on] rr show ?thesis by blast
next
  assume "leavesConfig m V a"
  with a(2) rr(1) have same: "clCMs (V w') (capabilitiesKey m) = clCMs (V w) (capabilitiesKey m)"
    "\<exists>f'. rrInstance rr' = FeastInst f' \<and> spec f' = spec f"
    unfolding leavesConfig_def by blast+
  then obtain f' where "rrInstance rr' = FeastInst f'" "spec f' = spec f" by blast
  moreover have "resolveCapabilities m f' = resolveCapabilities m f" by (rule resolve_spec) fact
  ultimately show ?thesis using on rr(2) same(1) by (intro conjI exI [of _ f']) simp_all
qed

lemma around_on:
  assumes "around_step K V m s s'" "registryOn (storedConfig V m s)"
  shows "registryOn (storedConfig V m s')" "usTorn s' = usTorn s"
proof -
  show "registryOn (storedConfig V m s')"
  proof (cases "storedConfig V m s'")
    case (Some cm')
    with assms(1) obtain cm where "storedConfig V m s = Some cm" "content cm' = content cm" by (rule around_content)
    with Some assms(2) registryOn_content [of cm' cm] show ?thesis by simp
  qed (simp add: registryOn_def)
  show "usTorn s' = usTorn s"
  proof (rule ccontr)
    assume "usTorn s' \<noteq> usTorn s"
    with assms(1) obtain cm where "storedConfig V m s = Some cm"
      "gm_get (cmData cm) capabilitiesKeyDataRegistryEnabled = boolString False" by (rule around_torn)
    with assms(2) show False by (simp add: registryOn_def boolString_def formatBool_def)
  qed
qed

text \<open>While the registry stays wanted it keeps serving, and the feast operator tears nothing down.\<close>

lemma step_serving:
  assumes laws: "kube_laws K V" "host_laws K F m V"
    and step: "life_step K V U S F m st st'" "wanted m st" "wanted m st'" "serving K V U S F m st"
  shows "serving K V U S F m st' \<and> usTorn (lifeState st') = usTorn (lifeState st)"
  using step(1)
proof cases
  case (Reconcile rr' feast rr s)
  with step(2,4) show ?thesis by simp
next
  case (Act a rr s rr' w' feast as)
  with step(4) obtain f where f: "rrInstance rr = FeastInst f" "snd (resolveCapabilities m f)" by auto
  have a: "a \<in> set (pipeline K U S F m)" "registryOn (clCMs (V (usWorld s)) (capabilitiesKey m))"
    using step(4) Act(1) by (auto simp: storedConfig_def)
  from action_on [OF laws a(1) Act(3) f a(2)] step(4) Act(1,2) show ?thesis by (simp add: storedConfig_def)
next
  case (ActFail a rr s e rr' w' feast as)
  with step(4) obtain f where f: "rrInstance rr = FeastInst f" "snd (resolveCapabilities m f)" by auto
  have a: "a \<in> set (pipeline K U S F m)" "registryOn (clCMs (V (usWorld s)) (capabilitiesKey m))"
    using step(4) ActFail(1) by (auto simp: storedConfig_def)
  from action_on [OF laws a(1) ActFail(3) f a(2)] step(4) ActFail(1,2) show ?thesis by (simp add: storedConfig_def)
next
  case (AroundLive s s' feast rr as)
  with step(4) around_on [OF AroundLive(3)] show ?thesis by simp
qed (use step in auto)

end
