(* ===== verification/UninstallProps.thy ===== *)
theory UninstallProps
  imports UninstallProtocol
begin

text \<open>
  The properties of the uninstall protocol, over every interleaving of the stages of the finalizer
  with the feast operator, users, restarts and the rest of the cluster: safety up to the timeout, and
  its end after it; and that the runs of the code are among the paths.
\<close>

text \<open>
  C1. Until the feast operator has torn down its workload, and for five minutes from the start of the
  uninstall, the ConfigMap stays in the cluster with the finalizers of both operators, and no
  ClusterRole or ClusterRoleBinding goes: however often the finalizer runs, wherever its runs fail or
  are cut short, and whatever happens between two of its stages.
\<close>

theorem uninstall_guarded:
  assumes "kube_laws K V" "recorder_laws m V" "beginning V m s0"
    and "(uninstall_step K V m)\<^sup>*\<^sup>* s0 s" "\<not> usTorn s"
    and "usNow s < usNow s0 - usNow s0 mod second + 5 * minute"
  shows "(\<exists>cm. clCMs (V (usWorld s)) (capabilitiesKey m) = Some cm \<and>
       feastOperatorCapabilitiesFinalizer \<in> set (cmFinalizers cm) \<and> capabilitiesConfigMapFinalizer \<in> set (cmFinalizers cm)) \<and>
    clCRBs (V (usWorld s)) = clCRBs (V (usWorld s0)) \<and> clCRs (V (usWorld s)) = clCRs (V (usWorld s0))"
proof -
  have "uninstalling V m s0 s"
    using steps_uninstalling [OF assms(1,2,4) beginning_uninstalling [OF assms(3)]] .
  then have "guarded V m (V (usWorld s0)) (V (usWorld s))"
    using assms(5,6) by (simp add: uninstalling_def deadline_def)
  then show ?thesis by (auto simp: guarded_def heldByFeast_def heldByModule_def)
qed

definition demoBegin :: "demo uninstall" where
  "demoBegin = \<lparr>usWorld = heldWorld, usNow = demoStart, usTorn = False, usTodo = []\<rparr>"

lemma demo_beginning: "beginning demoView demoModule demoBegin"
  using held_stored held_facts
  by (simp add: beginning_def demoBegin_def heldByModule_def) (simp add: heldConfigMap_def)

lemma demo_ticks: "ticksTo demoBegin (demoStart + second)" "ticksTo demoBegin (demoStart + 4 * minute)"
  by (simp_all add: ticksTo_def demoBegin_def second_def minute_def) code_simp+

text \<open>A run of the finalizer after four minutes.\<close>

lemma demo_first_run:
  obtains r w' where
    "cleanupClusterResources demoKube demoModule (demoStart + second) (demoStart + 4 * minute) demoRequest heldWorld = (r, w')"
    "(uninstall_step demoKube demoView demoModule)\<^sup>*\<^sup>* demoBegin
       (demoBegin\<lparr>usWorld := w', usNow := demoStart + 4 * minute, usTodo := []\<rparr>)"
proof -
  obtain r w' where run:
    "cleanupClusterResources demoKube demoModule (demoStart + second) (demoStart + 4 * minute) demoRequest heldWorld = (r, w')"
    by fastforce
  moreover have "demoStart + second \<le> demoStart + 4 * minute" by (simp add: second_def minute_def)
  ultimately have "(uninstall_step demoKube demoView demoModule)\<^sup>*\<^sup>* demoBegin
       (demoBegin\<lparr>usWorld := w', usNow := demoStart + 4 * minute, usTodo := []\<rparr>)"
    using demo_ticks(2)
    by (intro cleanup_is_path [OF _ demo_feast _ demo_ticks(1)]) (simp_all add: demoBegin_def ticksTo_def)
  with run that show thesis by blast
qed

lemma uninstall_guarded_witness:
  "\<exists>r w' cm. cleanupClusterResources demoKube demoModule (demoStart + second) (demoStart + 4 * minute) demoRequest heldWorld = (r, w') \<and>
     clCMs (demoView w') (capabilitiesKey demoModule) = Some cm \<and>
     feastOperatorCapabilitiesFinalizer \<in> set (cmFinalizers cm) \<and> capabilitiesConfigMapFinalizer \<in> set (cmFinalizers cm)"
proof -
  obtain r w' where run:
    "cleanupClusterResources demoKube demoModule (demoStart + second) (demoStart + 4 * minute) demoRequest heldWorld = (r, w')"
    "(uninstall_step demoKube demoView demoModule)\<^sup>*\<^sup>* demoBegin
       (demoBegin\<lparr>usWorld := w', usNow := demoStart + 4 * minute, usTodo := []\<rparr>)"
    by (rule demo_first_run)
  have "usNow (demoBegin\<lparr>usWorld := w', usNow := demoStart + 4 * minute, usTodo := []\<rparr>) <
      usNow demoBegin - usNow demoBegin mod second + 5 * minute"
    by (simp add: demoBegin_def demo_second minute_def second_def)
  from uninstall_guarded [OF demo_laws demo_recorder demo_beginning run(2) _ this] run(1)
  show ?thesis by (auto simp: demoBegin_def)
qed

text \<open>
  C4. The uninstall ends: once the marking has gone through on an API server that answers, no stage
  that looks at the clock five minutes later fails, wherever in a run it is, whatever happened before it
  and in between, and even if the feast operator never lets go. So what is left of a run, or a whole
  one, goes through when nothing interrupts it.
\<close>

theorem uninstall_ends:
  assumes "kube_laws K V" "kube_available K V" "recorder_laws m V" "beginning V m s0"
    and "(uninstall_step K V m)\<^sup>*\<^sup>* s0 s1" "usTodo s1 = Mark # rest" "ticksTo s1 t1"
    and "stageAct K m Mark t1 (usWorld s1) = (None, w1)"
    and "(uninstall_step K V m)\<^sup>*\<^sup>* (s1\<lparr>usWorld := w1, usNow := t1, usTodo := rest\<rparr>) s2"
    and "ticksTo s2 t" "t1 + 5 * minute \<le> t"
  shows "fst (forEach (\<lambda>st. stageAct K m st t) (usTodo s2) (usWorld s2)) = None"
proof -
  have at: "uninstalling V m s0 s1"
    using steps_uninstalling [OF assms(1,3,5) beginning_uninstalling [OF assms(4)]] .
  have "uninstall_step K V m s1 (s1\<lparr>usWorld := w1, usNow := t1, usTodo := rest\<rparr>)"
    using assms(6,8,7) by (rule Advance)
  from this assms(9) have "(uninstall_step K V m)\<^sup>*\<^sup>* s1 s2" by (rule converse_rtranclp_into_rtranclp)
  then have "onTrack V m s2" using steps_uninstalling [OF assms(1,3) _ at] by (simp add: uninstalling_def)
  moreover have "markedBy V m (usNow s0) t1 s2"
    using steps_markedBy [OF assms(1,3,9)] mark_marks [OF assms(1,3,8,6,7) at] by blast
  ultimately show ?thesis using stages_succeed [OF assms(1-3,11)] assms(10) by blast
qed

lemma uninstall_ends_witness:
  "\<exists>w0 w1. removeDataRegistryLabel demoKube heldWorld = (None, w0) \<and>
     markCapabilitiesDisabled demoKube demoModule (demoStart + second) w0 = (None, w1) \<and>
     fst (forEach (\<lambda>st. stageAct demoKube demoModule st (demoStart + 6 * minute)) finalizerStages w1) = None"
proof -
  let ?t1 = "demoStart + second" and ?t = "demoStart + 6 * minute"
  let ?later = "[Rollout, Withdraw, Await, Release, DropBindings, DropRoles]"
  obtain w0 where w0: "removeDataRegistryLabel demoKube heldWorld = (None, w0)"
    using removeDataRegistryLabel_progress [OF demo_laws demo_available] by (metis prod.collapse)
  obtain w1 where w1: "markCapabilitiesDisabled demoKube demoModule ?t1 w0 = (None, w1)"
    using markCapabilitiesDisabled_progress [OF demo_laws demo_available] by (metis prod.collapse)
  let ?s1 = "\<lparr>usWorld = w0, usNow = ?t1, usTorn = False, usTodo = Mark # ?later\<rparr>"
  have "uninstall_step demoKube demoView demoModule demoBegin (demoBegin\<lparr>usTodo := finalizerStages\<rparr>)"
    by (rule Begin) (simp add: demoBegin_def)
  moreover have "uninstall_step demoKube demoView demoModule (demoBegin\<lparr>usTodo := finalizerStages\<rparr>) ?s1"
    using Advance [of "demoBegin\<lparr>usTodo := finalizerStages\<rparr>" Unlabel "Mark # ?later" demoKube demoModule ?t1 w0 demoView]
      w0 demo_ticks(1) by (simp add: demoBegin_def finalizerStages_def ticksTo_def)
  ultimately have path1: "(uninstall_step demoKube demoView demoModule)\<^sup>*\<^sup>* demoBegin ?s1" by simp
  have ticks: "ticksTo ?s1 ?t1" using demo_ticks(1) by (simp add: ticksTo_def)
  have mark: "stageAct demoKube demoModule Mark ?t1 (usWorld ?s1) = (None, w1)" using w1 by simp
  let ?s = "?s1\<lparr>usWorld := w1, usNow := ?t1, usTodo := ?later\<rparr>"
  have "uninstall_step demoKube demoView demoModule ?s (?s\<lparr>usTodo := []\<rparr>)" by (rule Restart)
  moreover have "uninstall_step demoKube demoView demoModule (?s\<lparr>usTodo := []\<rparr>) (?s\<lparr>usTodo := []\<rparr>\<lparr>usTodo := finalizerStages\<rparr>)"
    by (rule Begin) simp
  ultimately have path2: "(uninstall_step demoKube demoView demoModule)\<^sup>*\<^sup>* ?s (?s\<lparr>usTodo := []\<rparr>\<lparr>usTodo := finalizerStages\<rparr>)"
    by (meson converse_rtranclp_into_rtranclp r_into_rtranclp)
  have "0 \<le> yearOf ?t" "yearOf ?t < 10000" by code_simp+
  then have late: "ticksTo (?s\<lparr>usTodo := []\<rparr>\<lparr>usTodo := finalizerStages\<rparr>) ?t" "?t1 + 5 * minute \<le> ?t"
    by (simp_all add: ticksTo_def second_def minute_def)
  from uninstall_ends [OF demo_laws demo_available demo_recorder demo_beginning path1 _ ticks mark path2 late]
  have "fst (forEach (\<lambda>st. stageAct demoKube demoModule st ?t) finalizerStages w1) = None" by simp
  with w0 w1 show ?thesis by blast
qed

text \<open>
  C5. The protocol has the runs of the code: a run of the finalizer from any state without a run under
  way, successful or not, with the clock where the code reads it, is a path of the protocol, one that
  nothing interrupts; and the finalizer succeeds exactly when all eight stages do.
\<close>

theorem finalizer_refines_protocol:
  assumes "rrInstance rr = FeastInst feast" "usTodo s = []" "ticksTo s t1" "ticksTo (s\<lparr>usNow := t1\<rparr>) t2"
    and "cleanupClusterResources K m t1 t2 rr (usWorld s) = (r, w')"
  shows "(uninstall_step K V m)\<^sup>*\<^sup>* s (s\<lparr>usWorld := w', usNow := t2, usTodo := []\<rparr>) \<and>
    cleanupClusterResources K m t1 t2 rr =
      forEach (\<lambda>st. stageAct K m st (if st \<in> {Unlabel, Mark} then t1 else t2)) finalizerStages"
proof
  show "(uninstall_step K V m)\<^sup>*\<^sup>* s (s\<lparr>usWorld := w', usNow := t2, usTodo := []\<rparr>)"
    using cleanup_is_path [OF assms(5,1-3)] assms(4) by (simp add: ticksTo_def)
  show "cleanupClusterResources K m t1 t2 rr =
      forEach (\<lambda>st. stageAct K m st (if st \<in> {Unlabel, Mark} then t1 else t2)) finalizerStages"
    by (simp add: cleanup_stages [OF assms(1)] finalizerStages_def forEach_steps andThen_assoc del: forEach.simps)
qed

lemma finalizer_refines_protocol_witness:
  "\<exists>r w'. cleanupClusterResources demoKube demoModule (demoStart + second) (demoStart + 4 * minute) demoRequest heldWorld = (r, w') \<and>
     (uninstall_step demoKube demoView demoModule)\<^sup>*\<^sup>* demoBegin
       (demoBegin\<lparr>usWorld := w', usNow := demoStart + 4 * minute, usTodo := []\<rparr>)"
proof -
  obtain r w' where run:
    "cleanupClusterResources demoKube demoModule (demoStart + second) (demoStart + 4 * minute) demoRequest heldWorld = (r, w')"
    by fastforce
  have "usTodo demoBegin = []" by (simp add: demoBegin_def)
  moreover have "ticksTo (demoBegin\<lparr>usNow := demoStart + second\<rparr>) (demoStart + 4 * minute)"
    using demo_ticks(2) by (simp add: ticksTo_def second_def minute_def)
  moreover have "cleanupClusterResources demoKube demoModule (demoStart + second) (demoStart + 4 * minute) demoRequest (usWorld demoBegin) = (r, w')"
    using run by (simp add: demoBegin_def)
  ultimately have "(uninstall_step demoKube demoView demoModule)\<^sup>*\<^sup>* demoBegin
       (demoBegin\<lparr>usWorld := w', usNow := demoStart + 4 * minute, usTodo := []\<rparr>)"
    using finalizer_refines_protocol [OF demo_feast _ demo_ticks(1)] by blast
  with run show ?thesis by blast
qed

end
