(* ===== verification/LifecycleProps.thy ===== *)
theory LifecycleProps
  imports Lifecycle UninstallProps
begin

text \<open>
  The properties of the life of a resource: what the stored ConfigMap always looks like, that a
  registry which is wanted is never torn down, and that a deletion is guarded however many lives came
  before it.
\<close>

section \<open>Runs of the pipeline\<close>

text \<open>The actions of a reconciliation that succeed one after the other are a path of the life.\<close>

lemma actions_path:
  assumes "forEach (\<lambda>a. a) as (rr, usWorld s) = (None, (rr', w'))" "\<And>r bs u. P (Live feast r bs u)"
  shows "(\<lambda>x y. life_step K V U S F m x y \<and> P y)\<^sup>*\<^sup>* (Live feast rr (as @ rest) s) (Live feast rr' rest (s\<lparr>usWorld := w'\<rparr>))"
  using assms(1)
proof (induction as arbitrary: rr s)
  case Nil
  then have "s\<lparr>usWorld := w'\<rparr> = s" "rr' = rr" by simp_all
  then show ?case by (simp only: append_Nil rtranclp.rtrancl_refl)
next
  case (Cons a as)
  then obtain rr1 w1 where first: "a (rr, usWorld s) = (None, (rr1, w1))" "forEach (\<lambda>a. a) as (rr1, w1) = (None, (rr', w'))"
    by (auto elim: step_ok)
  have "life_step K V U S F m (Live feast rr (a # as @ rest) s) (Live feast rr1 (as @ rest) (s\<lparr>usWorld := w1\<rparr>))"
    using first(1) by (rule Act)
  with Cons.IH [of rr1 "s\<lparr>usWorld := w1\<rparr>"] first(2) assms(2) show ?case
    by (auto intro: converse_rtranclp_into_rtranclp)
qed

lemma demo_host: "host_laws demoKube demoFramework demoModule demoView"
  by (auto simp: host_laws_def leavesConfig_def demoFramework_def nop_def demoKube_def)

text \<open>On the concrete server the first five actions publish the ConfigMap.\<close>

definition emptyState :: "demo uninstall" where
  "emptyState = \<lparr>usWorld = heldWorld\<lparr>dCMs := []\<rparr>, usNow = demoStart, usTorn = False, usTodo = []\<rparr>"

lemma empty_fresh: "fresh demoView demoModule emptyState"
  by (simp add: fresh_def emptyState_def storedBy_def)

definition publishedRequest :: "unit request" where
  "publishedRequest = demoRequest\<lparr>rrManifests := [mManifestInfo demoModule]\<rparr>"

definition publishedState :: "demo \<Rightarrow> (demo, unit) life" where
  "publishedState w = Live demoFeast publishedRequest (drop 5 (pipeline demoKube demoUrl laxSemver demoFramework demoModule))
     (emptyState\<lparr>usWorld := w\<rparr>)"

lemma published_config: "storedConfig demoView demoModule (lifeState (publishedState w)) = clCMs (demoView w) (capabilitiesKey demoModule)"
  by (simp add: storedConfig_def publishedState_def del: demoView_fields)

lemma demo_publish:
  "\<exists>w cm. clCMs (demoView w) (capabilitiesKey demoModule) = Some cm \<and> cmDeletionTimestamp cm = None \<and>
     \<not> heldByFeast cm \<and> (\<forall>P. (\<forall>r bs u. P (Live demoFeast r bs u)) \<longrightarrow>
       (\<lambda>x y. life_step demoKube demoView demoUrl laxSemver demoFramework demoModule x y \<and> P y)\<^sup>*\<^sup>*
         (Live demoFeast demoRequest [] emptyState) (publishedState w))"
proof -
  let ?w = "usWorld emptyState" and ?L = "life_step demoKube demoView demoUrl laxSemver demoFramework demoModule"
  let ?p = "pipeline demoKube demoUrl laxSemver demoFramework demoModule"
  have rr: "ready publishedRequest" "rrInstance publishedRequest = FeastInst demoFeast"
    by (simp_all add: ready_def publishedRequest_def demoRequest_def demoFeast_def)
  obtain w1 where w1: "setKustomizedParams demoKube demoUrl publishedRequest ?w = (None, w1)"
    using demo_handlers(1) [OF rr(1)] by (metis prod.collapse)
  obtain w2 where w2: "reconcileDataRegistryNamespace demoKube demoModule publishedRequest w1 = (None, w2)"
    using demo_handlers(3) [OF rr(1)] by (metis prod.collapse)
  obtain w3 where w3: "reconcileCapabilitiesConfigMap demoKube demoModule publishedRequest w2 = (None, w3)"
    using demo_handlers(2) [OF rr(1)] by (metis prod.collapse)
  have absent: "foundConfigMap demoModule (demoView ?w) = newConfigMap capabilitiesConfigMapName (cfgApplicationsNamespace (mCfg demoModule))"
    using empty_fresh by (simp add: foundConfigMap_def fresh_def del: demoView_fields)
  have V1: "demoView w1 = demoView ?w" by (rule applyParams_frame [OF _ w1]) (simp add: demoKube_def)
  have V2: "clCMs (demoView w2) = clCMs (demoView ?w)"
    using reconcileNamespace_frame [OF demo_laws w2] V1 by (simp del: demoView_fields)
  then have live: "cmDeletionTimestamp (foundConfigMap demoModule (demoView w2)) = None"
    "foundConfigMap demoModule (demoView w2) = newConfigMap capabilitiesConfigMapName (cfgApplicationsNamespace (mCfg demoModule))"
    using absent by (simp_all add: foundConfigMap_def newConfigMap_def del: demoView_fields)
  have "clCMs (demoView w2) (capabilitiesKey demoModule) = None"
    using V2 empty_fresh by (simp add: fresh_def del: demoView_fields)
  with demo_laws rr(2) demo_resolve w3 obtain cm where cm:
    "desired demoKube True True (foundConfigMap demoModule (demoView w2)) cm"
    "clCMs (demoView w3) (capabilitiesKey demoModule) = Some cm"
    by (cases rule: reconcileCapabilities_effect) (auto simp del: demoView_fields)
  have run: "forEach (\<lambda>a. a) (take 5 ?p) (demoRequest, usWorld emptyState) = (None, (publishedRequest, w3))"
  proof -
    have "initialize demoModule (demoRequest, ?w) = (None, (publishedRequest, ?w))"
      by (simp add: initialize_def publishedRequest_def demoRequest_def)
    moreover have "pureAction (upgradeIfNeeded laxSemver) (publishedRequest, ?w) = (None, (publishedRequest, ?w))"
      using rr(2) by (simp add: pureAction_def upgradeIfNeeded_def upgrade_def laxSemver_def Let_def)
    ultimately show ?thesis using w1 w2 w3 by (simp add: pipeline_def readsRequest_def)
  qed
  have path: "(\<lambda>x y. ?L x y \<and> P y)\<^sup>*\<^sup>* (Live demoFeast demoRequest [] emptyState) (publishedState w3)"
    if "\<forall>r bs u. P (Live demoFeast r bs u)" for P
    unfolding publishedState_def
  proof (rule converse_rtranclp_into_rtranclp)
    show "?L (Live demoFeast demoRequest [] emptyState) (Live demoFeast demoRequest ?p emptyState) \<and>
        P (Live demoFeast demoRequest ?p emptyState)"
      using that by (auto intro: Reconcile [OF demo_feast])
    show "(\<lambda>x y. ?L x y \<and> P y)\<^sup>*\<^sup>* (Live demoFeast demoRequest ?p emptyState)
        (Live demoFeast publishedRequest (drop 5 ?p) (emptyState\<lparr>usWorld := w3\<rparr>))"
      using actions_path [OF run, where P = P and rest = "drop 5 ?p" and feast = demoFeast and K = demoKube and
          V = demoView and U = demoUrl and S = laxSemver and F = demoFramework and m = demoModule] that
      by (simp only: append_take_drop_id)
  qed
  have "cmDeletionTimestamp cm = None" "\<not> heldByFeast cm"
    using cm(1) by (simp_all add: live(2) desired_def heldByFeast_def heldByModule_def newConfigMap_def)
  with cm(2) path show ?thesis by blast
qed

section \<open>The properties\<close>

lemma lived_formed:
  assumes "lived K V U S F m st" "storedConfig V m (lifeState st) = Some cm"
  shows "wellFormed K cm"
  using assms by (cases st) (auto simp: liveConfig_def)

lemma flag_text: "isFlag v \<longleftrightarrow> v \<in> {''true'', ''false''}"
  by (simp add: isFlag_def boolString_def formatBool_def)

text \<open>
  C6. The stored ConfigMap is always well formed: from a cluster without one, through any number of
  creations, edits, reconciliations that fail or stop anywhere, deletions and uninstalls, and
  whatever the feast operator and users do, both flags are \<^verbatim>\<open>true\<close> or \<^verbatim>\<open>false\<close>, the component label is on
  the object, and the recorded start of the cleanup is missing or a time that the wait can parse.
  While the resource is live, a ConfigMap that is not terminating has no such record and carries the
  module's finalizer; without a resource there is at most a terminating one.
\<close>

theorem stored_config_well_formed:
  assumes "kube_laws K V" "recorder_laws m V" "host_laws K F m V" "fresh V m s0"
    and "(life_step K V U S F m)\<^sup>*\<^sup>* (Absent s0) st" "storedConfig V m (lifeState st) = Some cm"
  shows "gm_get (cmData cm) ''featureStoreEnabled'' \<in> {''true'', ''false''} \<and>
    gm_get (cmData cm) ''dataRegistryEnabled'' \<in> {''true'', ''false''} \<and>
    gm_lookup (cmLabels cm) (componentLabel K ''feastoperator'') = Some (labelTrue K) \<and>
    (startedAt cm = [] \<or> parseRFC3339 (startedAt cm) \<noteq> None) \<and>
    (case st of
       Absent _ \<Rightarrow> cmDeletionTimestamp cm \<noteq> None
     | Live _ _ _ _ \<Rightarrow> cmDeletionTimestamp cm = None \<longrightarrow>
         startedAt cm = [] \<and> capabilitiesConfigMapFinalizer \<in> set (cmFinalizers cm)
     | Deleting _ \<Rightarrow> True)"
proof (intro conjI)
  note lived = lives_lived [OF assms(1-3,5,4)]
  note formed = lived_formed [OF lived assms(6), unfolded wellFormed_def componentName_def flag_text]
  then show "gm_get (cmData cm) ''featureStoreEnabled'' \<in> {''true'', ''false''}"
    "gm_get (cmData cm) ''dataRegistryEnabled'' \<in> {''true'', ''false''}"
    "gm_lookup (cmLabels cm) (componentLabel K ''feastoperator'') = Some (labelTrue K)"
    by (simp_all only: capabilitiesKeyFeatureStoreEnabled_def capabilitiesKeyDataRegistryEnabled_def feastOperatorComponentName_def)
  from formed show "startedAt cm = [] \<or> parseRFC3339 (startedAt cm) \<noteq> None" by (auto simp: parse_format)
  show "case st of Absent _ \<Rightarrow> cmDeletionTimestamp cm \<noteq> None
     | Live _ _ _ _ \<Rightarrow> cmDeletionTimestamp cm = None \<longrightarrow>
         startedAt cm = [] \<and> capabilitiesConfigMapFinalizer \<in> set (cmFinalizers cm)
     | Deleting _ \<Rightarrow> True"
    using lived assms(6) by (cases st) (auto simp: liveConfig_def heldByModule_def)
qed

lemma stored_config_well_formed_witness:
  "\<exists>st cm. (life_step demoKube demoView demoUrl laxSemver demoFramework demoModule)\<^sup>*\<^sup>* (Absent emptyState) st \<and>
     storedConfig demoView demoModule (lifeState st) = Some cm \<and>
     gm_get (cmData cm) ''dataRegistryEnabled'' \<in> {''true'', ''false''} \<and>
     capabilitiesConfigMapFinalizer \<in> set (cmFinalizers cm)"
proof -
  let ?L = "life_step demoKube demoView demoUrl laxSemver demoFramework demoModule"
  from demo_publish obtain w cm where cm: "clCMs (demoView w) (capabilitiesKey demoModule) = Some cm" "cmDeletionTimestamp cm = None"
    and run: "\<forall>P. (\<forall>r bs u. P (Live demoFeast r bs u)) \<longrightarrow>
      (\<lambda>x y. ?L x y \<and> P y)\<^sup>*\<^sup>* (Live demoFeast demoRequest [] emptyState) (publishedState w)" by (elim exE conjE)
  from spec [OF run, of "\<lambda>_. True"] have "?L\<^sup>*\<^sup>* (Live demoFeast demoRequest [] emptyState) (publishedState w)" by (simp only: simp_thms)
  with Create have path: "?L\<^sup>*\<^sup>* (Absent emptyState) (publishedState w)" by (rule converse_rtranclp_into_rtranclp)
  have stored: "storedConfig demoView demoModule (lifeState (publishedState w)) = Some cm" using cm(1) by (simp only: published_config)
  note formed = stored_config_well_formed [OF demo_laws demo_recorder demo_host empty_fresh path stored]
  then have "capabilitiesConfigMapFinalizer \<in> set (cmFinalizers cm)" using cm(2) by (simp only: publishedState_def life.case simp_thms)
  with formed path stored show ?thesis by blast
qed

text \<open>
  C2. A Data Registry that is wanted is never torn down: as long as the resource stays live with the
  capability on, however its reconciliations fail, stop and start over, and although anybody may
  delete the ConfigMap, the flag in it stays \<^verbatim>\<open>true\<close>, and the feast operator never sees the
  intent to tear down.
\<close>

theorem wanted_registry_kept:
  assumes "kube_laws K V" "host_laws K F m V"
    and "snd (resolveCapabilities m feast)" "registryOn (storedConfig V m s)"
    and "(\<lambda>a b. life_step K V U S F m a b \<and> wanted m b)\<^sup>*\<^sup>* (Live feast rr [] s) st"
  shows "usTorn (lifeState st) = usTorn s \<and>
    (case storedConfig V m (lifeState st) of None \<Rightarrow> True
     | Some cm \<Rightarrow> gm_get (cmData cm) ''dataRegistryEnabled'' = ''true'')"
proof -
  have "wanted m st \<and> serving K V U S F m st \<and> usTorn (lifeState st) = usTorn s"
    using assms(5)
  proof (induction rule: rtranclp_induct)
    case base
    with assms(3,4) show ?case by simp
  next
    case (step st st')
    with step_serving [OF assms(1,2)] show ?case by metis
  qed
  then show ?thesis
    by (cases st) (auto simp: registryOn_def capabilitiesKeyDataRegistryEnabled_def boolString_def formatBool_def
        split: option.splits)
qed

lemma wanted_registry_kept_witness:
  "\<exists>st cm. (\<lambda>a b. life_step demoKube demoView demoUrl laxSemver demoFramework demoModule a b \<and> wanted demoModule b)\<^sup>*\<^sup>*
       (Live demoFeast demoRequest [] emptyState) st \<and>
     storedConfig demoView demoModule (lifeState st) = Some cm \<and> gm_get (cmData cm) ''dataRegistryEnabled'' = ''true''"
proof -
  let ?L = "life_step demoKube demoView demoUrl laxSemver demoFramework demoModule"
  have on: "snd (resolveCapabilities demoModule demoFeast)" by (simp add: demo_resolve)
  from demo_publish obtain w cm where cm: "clCMs (demoView w) (capabilitiesKey demoModule) = Some cm"
    and run: "\<forall>P. (\<forall>r bs u. P (Live demoFeast r bs u)) \<longrightarrow>
      (\<lambda>x y. ?L x y \<and> P y)\<^sup>*\<^sup>* (Live demoFeast demoRequest [] emptyState) (publishedState w)" by (elim exE conjE)
  have path: "(\<lambda>x y. ?L x y \<and> wanted demoModule y)\<^sup>*\<^sup>* (Live demoFeast demoRequest [] emptyState) (publishedState w)"
    by (rule run [rule_format]) (simp add: on)
  have "registryOn (storedConfig demoView demoModule emptyState)"
    using empty_fresh by (simp add: registryOn_def storedConfig_def fresh_def del: demoView_fields)
  note kept = wanted_registry_kept [OF demo_laws demo_host on this path]
  have stored: "storedConfig demoView demoModule (lifeState (publishedState w)) = Some cm" using cm by (simp only: published_config)
  with kept have "gm_get (cmData cm) ''dataRegistryEnabled'' = ''true''" by (simp only: option.case)
  with path stored show ?thesis by blast
qed

text \<open>
  C3. The deletion of a resource is guarded when its ConfigMap is held by the feast operator and is not
  being deleted yet, or is being deleted but still has the module's finalizer and no recorded start of
  a cleanup (a user deleted it): however many lives the resource had before, and whatever became of
  their reconciliations and uninstalls, until that operator has torn down, and for five minutes, the
  ConfigMap keeps both finalizers and no ClusterRole or ClusterRoleBinding goes. A ConfigMap that a
  timed-out uninstall left behind, still being deleted, is outside: it carries the record of that
  cleanup and no finalizer of the module, and does not guard the next deletion.
\<close>

theorem deletion_guarded:
  assumes "kube_laws K V" "recorder_laws m V" "host_laws K F m V" "fresh V m s0"
    and "(life_step K V U S F m)\<^sup>*\<^sup>* (Absent s0) (Live feast rr [] s1)"
    and "storedConfig V m s1 = Some cm" "feastOperatorCapabilitiesFinalizer \<in> set (cmFinalizers cm)"
    and "cmDeletionTimestamp cm = None \<or>
      capabilitiesConfigMapFinalizer \<in> set (cmFinalizers cm) \<and>
      gm_get (cmAnnotations cm) capabilitiesCleanupStartedAnnotation = []"
    and "(uninstall_step K V m)\<^sup>*\<^sup>* (s1\<lparr>usTorn := False\<rparr>) s" "\<not> usTorn s"
    and "usNow s < usNow s1 - usNow s1 mod second + 5 * minute"
  shows "(\<exists>cm'. storedConfig V m s = Some cm' \<and>
       feastOperatorCapabilitiesFinalizer \<in> set (cmFinalizers cm') \<and> capabilitiesConfigMapFinalizer \<in> set (cmFinalizers cm')) \<and>
    clCRBs (V (usWorld s)) = clCRBs (V (usWorld s1)) \<and> clCRs (V (usWorld s)) = clCRs (V (usWorld s1))"
proof -
  have "lived K V U S F m (Live feast rr [] s1)" using lives_lived [OF assms(1-3,5,4)] .
  then have "beginning V m (s1\<lparr>usTorn := False\<rparr>)"
    using assms(6-8)
    by (auto simp: beginning_def liveConfig_def storedConfig_def heldByFeast_def heldByModule_def startedAt_def)
  then have "uninstalling V m (s1\<lparr>usTorn := False\<rparr>) s"
    using steps_uninstalling [OF assms(1,2,9)] beginning_uninstalling by blast
  then have "guarded V m (V (usWorld s1)) (V (usWorld s))" using assms(10,11) by (simp add: uninstalling_def deadline_def)
  then show ?thesis by (auto simp: guarded_def heldByFeast_def heldByModule_def storedConfig_def)
qed

lemma demo_claims:
  assumes "clCMs (demoView w) (capabilitiesKey demoModule) = Some cm" "cmDeletionTimestamp cm = None" "\<not> heldByFeast cm"
  obtains w' cm' where "around_step demoKube demoView demoModule (emptyState\<lparr>usWorld := w\<rparr>) (emptyState\<lparr>usWorld := w'\<rparr>)"
    "clCMs (demoView w') (capabilitiesKey demoModule) = Some cm'" "cmDeletionTimestamp cm' = None"
    "feastOperatorCapabilitiesFinalizer \<in> set (cmFinalizers cm')"
proof -
  let ?w = "demoStore (claimed cm) w"
  have key: "cmKey (claimed cm) = capabilitiesKey demoModule"
    using assms(1) by (auto simp: claimed_def dest: storedBy_key)
  obtain x where x: "stored_as (claimed cm) x"
    "demoView ?w = (demoView w)\<lparr>clCMs := (clCMs (demoView w))(capabilitiesKey demoModule := x)\<rparr>"
    using demoStore_view [of "claimed cm" w] by (auto simp: key)
  obtain cm' where cm': "x = Some cm'" "same_cm (claimed cm) cm'"
    using x(1) assms(2) by (auto simp: stored_as_def claimed_def)
  have "uninstall_step demoKube demoView demoModule (emptyState\<lparr>usWorld := w\<rparr>) (emptyState\<lparr>usWorld := w\<rparr>\<lparr>usWorld := ?w\<rparr>)"
    using assms x by (intro Claim [of demoView _ demoModule cm x]) (simp_all add: storesCM_def del: demoView_fields)
  then have "around_step demoKube demoView demoModule (emptyState\<lparr>usWorld := w\<rparr>) (emptyState\<lparr>usWorld := ?w\<rparr>)"
    by (simp add: around_step_def emptyState_def)
  moreover have "clCMs (demoView ?w) (capabilitiesKey demoModule) = Some cm'"
    using x(2) cm'(1) by (simp del: demoView_fields)
  moreover have "cmDeletionTimestamp cm' = None" "feastOperatorCapabilitiesFinalizer \<in> set (cmFinalizers cm')"
    using same_cm_fields(2,3) [OF cm'(2)] assms(2) by (simp_all add: claimed_def)
  ultimately show thesis by (rule that)
qed

lemma deletion_guarded_witness:
  "\<exists>rr w r w' cm. (life_step demoKube demoView demoUrl laxSemver demoFramework demoModule)\<^sup>*\<^sup>*
       (Absent emptyState) (Live demoFeast rr [] (emptyState\<lparr>usWorld := w\<rparr>)) \<and>
     cleanupClusterResources demoKube demoModule (demoStart + second) (demoStart + 4 * minute) demoRequest w = (r, w') \<and>
     clCMs (demoView w') (capabilitiesKey demoModule) = Some cm \<and> capabilitiesConfigMapFinalizer \<in> set (cmFinalizers cm)"
proof -
  let ?L = "life_step demoKube demoView demoUrl laxSemver demoFramework demoModule"
  from demo_publish obtain w cm where cm: "clCMs (demoView w) (capabilitiesKey demoModule) = Some cm"
      "cmDeletionTimestamp cm = None" "\<not> heldByFeast cm"
    and run: "\<forall>P. (\<forall>r bs u. P (Live demoFeast r bs u)) \<longrightarrow>
      (\<lambda>x y. ?L x y \<and> P y)\<^sup>*\<^sup>* (Live demoFeast demoRequest [] emptyState) (publishedState w)" by (elim exE conjE)
  from cm obtain w1 cm1 where claim: "around_step demoKube demoView demoModule (emptyState\<lparr>usWorld := w\<rparr>) (emptyState\<lparr>usWorld := w1\<rparr>)"
    and cm1: "clCMs (demoView w1) (capabilitiesKey demoModule) = Some cm1" "cmDeletionTimestamp cm1 = None"
      "feastOperatorCapabilitiesFinalizer \<in> set (cmFinalizers cm1)" by (rule demo_claims)
  let ?s1 = "emptyState\<lparr>usWorld := w1\<rparr>" and ?t1 = "demoStart + second" and ?t2 = "demoStart + 4 * minute"
  have "?L (Absent emptyState) (Live demoFeast demoRequest [] emptyState)" by (rule Create)
  also from HOL.spec [OF run, of "\<lambda>_. True"] have "?L\<^sup>*\<^sup>* \<dots> (publishedState w)" by (simp only: simp_thms)
  also have "?L (publishedState w) (Live demoFeast publishedRequest [] (emptyState\<lparr>usWorld := w\<rparr>))"
    unfolding publishedState_def by (rule Crash)
  also from claim have "?L \<dots> (Live demoFeast publishedRequest [] ?s1)" by (rule AroundLive)
  finally have path: "?L\<^sup>*\<^sup>* (Absent emptyState) (Live demoFeast publishedRequest [] ?s1)" .
  obtain r w' where clean: "cleanupClusterResources demoKube demoModule ?t1 ?t2 demoRequest w1 = (r, w')" by fastforce
  let ?s = "?s1\<lparr>usTorn := False, usWorld := w', usNow := ?t2, usTodo := []\<rparr>"
  have uninstall: "(uninstall_step demoKube demoView demoModule)\<^sup>*\<^sup>* (?s1\<lparr>usTorn := False\<rparr>) ?s"
  proof (rule cleanup_is_path [OF _ demo_feast])
    show "ticksTo (?s1\<lparr>usTorn := False\<rparr>) ?t1" "0 \<le> yearOf ?t2" "yearOf ?t2 < 10000"
      using demo_ticks by (simp_all add: ticksTo_def emptyState_def demoBegin_def)
    show "?t1 \<le> ?t2" by (simp add: second_def minute_def)
  qed (use clean in \<open>simp_all add: emptyState_def\<close>)
  have stored: "storedConfig demoView demoModule ?s1 = Some cm1" using cm1(1) by (simp add: storedConfig_def del: demoView_fields)
  have "\<not> usTorn ?s" "usNow ?s < usNow ?s1 - usNow ?s1 mod second + 5 * minute"
    by (simp_all add: emptyState_def demo_second minute_def second_def)
  from deletion_guarded [OF demo_laws demo_recorder demo_host empty_fresh path stored cm1(3) disjI1 [OF cm1(2)] uninstall this]
  obtain cm' where "clCMs (demoView w') (capabilitiesKey demoModule) = Some cm'" "capabilitiesConfigMapFinalizer \<in> set (cmFinalizers cm')"
    by (auto simp: storedConfig_def)
  with path clean show ?thesis by blast
qed

end
