(* ===== verification/ObjectStore.thy ===== *)
theory ObjectStore
  imports PlatformVersion
begin

text \<open>
  The objects of \<^verbatim>\<open>api/components/v1alpha1\<close> where they live: a store of cells that pointers, slices and
  maps refer to. It holds what the generated copies of \<^verbatim>\<open>zz_generated.deepcopy.go\<close> promise, which the
  components rely on when they treat an object as a value. The parts of an object whose types belong
  to Kubernetes or to the platform, and the copies of those parts, are arguments.
\<close>

section \<open>The store\<close>

type_synonym addr = nat

text \<open>A slice that is not nil: a window of an array.\<close>

record slice =
  sliceArray :: addr
  sliceOff :: nat
  sliceLen :: nat
  sliceCap :: nat

record type_meta =
  tmKind :: string
  tmAPIVersion :: string

record spec_struct =
  spOIDC :: "addr option"
  spCapabilities :: "addr option"

record 's status_struct =
  stCommon :: 's
  stReleases :: "slice option"

record ('m, 's) feast_struct =
  foTypeMeta :: type_meta
  foMeta :: 'm
  foSpec :: spec_struct
  foStatus :: "'s status_struct"

record 'l list_struct =
  flTypeMeta :: type_meta
  flMeta :: 'l
  flItems :: "slice option"

text \<open>What an address holds; \<open>OtherCell\<close> is for the cells behind the parts of foreign types.\<close>

datatype ('m, 's, 'l, 'e) cell =
    OIDCCell string
  | CapabilityCell capability_spec
  | CapabilitiesCell capabilities_spec
  | SpecCell spec_struct
  | StatusCell "'s status_struct"
  | FeastCell "('m, 's) feast_struct"
  | ListCell "'l list_struct"
  | ReleaseArray "component_release list"
  | FeastArray "('m, 's) feast_struct list"
  | OtherCell 'e

record ('m, 's, 'l, 'e) object_store =
  cells :: "addr \<Rightarrow> ('m, 's, 'l, 'e) cell option"
  nextAddr :: addr

definition alloc :: "('m, 's, 'l, 'e) cell \<Rightarrow> ('m, 's, 'l, 'e) object_store \<Rightarrow> addr \<times> ('m, 's, 'l, 'e) object_store" where
  "alloc c h = (nextAddr h, h\<lparr>cells := (cells h)(nextAddr h \<mapsto> c), nextAddr := Suc (nextAddr h)\<rparr>)"

definition put :: "addr \<Rightarrow> ('m, 's, 'l, 'e) cell \<Rightarrow> ('m, 's, 'l, 'e) object_store \<Rightarrow> ('m, 's, 'l, 'e) object_store" where
  "put a c h = h\<lparr>cells := (cells h)(a \<mapsto> c)\<rparr>"

definition allocated :: "('m, 's, 'l, 'e) object_store \<Rightarrow> addr set" where
  "allocated h = {..<nextAddr h}"

definition extends :: "('m, 's, 'l, 'e) object_store \<Rightarrow> ('m, 's, 'l, 'e) object_store \<Rightarrow> bool" where
  "extends h h' \<longleftrightarrow> nextAddr h \<le> nextAddr h' \<and> (\<forall>a < nextAddr h. cells h' a = cells h a)"

lemma store_simps [simp]:
  "cells (put a c h) = (cells h)(a \<mapsto> c)" "nextAddr (put a c h) = nextAddr h"
  "fst (alloc c h) = nextAddr h" "cells (snd (alloc c h)) = (cells h)(nextAddr h \<mapsto> c)"
  "nextAddr (snd (alloc c h)) = Suc (nextAddr h)"
  by (simp_all add: put_def alloc_def)

lemma extends_refl [simp]: "extends h h"
  by (simp add: extends_def)

lemma extends_trans: "extends h h' \<Longrightarrow> extends h' h'' \<Longrightarrow> extends h h''"
  by (fastforce simp: extends_def)

lemma extends_alloc [simp]: "extends h (snd (alloc c h))"
  by (simp add: extends_def)

lemma extends_put: "extends h h' \<Longrightarrow> nextAddr h \<le> a \<Longrightarrow> extends h (put a c h')"
  by (simp add: extends_def)

lemma extends_old: "extends h h' \<Longrightarrow> a \<in> allocated h \<Longrightarrow> cells h' a = cells h a"
  by (simp add: extends_def allocated_def)

lemma extends_allocated: "extends h h' \<Longrightarrow> allocated h \<subseteq> allocated h'"
  by (auto simp: extends_def allocated_def)

lemma allocated_alloc [simp]: "allocated (snd (alloc c h)) = insert (nextAddr h) (allocated h)"
  by (auto simp: allocated_def)

lemma allocated_put [simp]: "allocated (put a c h) = allocated h"
  by (simp add: allocated_def)

section \<open>The contract of a deep copy\<close>

text \<open>
  \<open>copyInto x\<close> is what \<^verbatim>\<open>x.DeepCopyInto(out)\<close> leaves in \<open>out\<close>, a place apart from \<open>x\<close>, with the store
  after it; \<open>reach\<close> is the set of the addresses a value leads to, and \<open>val\<close> what it stands for.
\<close>

locale deep_copy =
  fixes copyInto :: "'t \<Rightarrow> ('m, 's, 'l, 'e) object_store \<Rightarrow> 't \<times> ('m, 's, 'l, 'e) object_store"
    and reach :: "('m, 's, 'l, 'e) object_store \<Rightarrow> 't \<Rightarrow> addr set"
    and val :: "('m, 's, 'l, 'e) object_store \<Rightarrow> 't \<Rightarrow> 'v"
  assumes framed: "(\<And>a. a \<in> reach h x \<Longrightarrow> cells h' a = cells h a) \<Longrightarrow> reach h' x = reach h x \<and> val h' x = val h x"
    and grows: "extends h (snd (copyInto x h))"
    and fresh: "reach h x \<subseteq> allocated h \<Longrightarrow>
      reach (snd (copyInto x h)) (fst (copyInto x h)) \<subseteq> allocated (snd (copyInto x h)) - allocated h"
    and copied: "reach h x \<subseteq> allocated h \<Longrightarrow> val (snd (copyInto x h)) (fst (copyInto x h)) = val h x"
begin

lemma stays:
  assumes "extends h h'" "reach h x \<subseteq> allocated h"
  shows "reach h' x = reach h x" "val h' x = val h x"
  using framed [of h x h'] extends_old [OF assms(1)] assms(2) by blast+

lemma written_elsewhere:
  assumes "a \<notin> reach h x"
  shows "reach (put a c h) x = reach h x" "val (put a c h) x = val h x"
  using framed [of h x "put a c h"] assms by fastforce+

text \<open>The copy does not see what happens to the cells there were before, nor the original what happens to the new ones.\<close>

lemma detached:
  assumes "reach h x \<subseteq> allocated h" "copyInto x h = (y, h')"
    and "\<And>a. a \<in> allocated h' - allocated h \<Longrightarrow> cells h'' a = cells h' a"
  shows "val h'' y = val h x"
proof -
  have "reach h' y \<subseteq> allocated h' - allocated h" "val h' y = val h x"
    using fresh [OF assms(1)] copied [OF assms(1)] assms(2) by simp_all
  with assms(3) framed [of h' y h''] show ?thesis by auto
qed

lemma kept:
  assumes "reach h x \<subseteq> allocated h" "\<And>a. a \<in> allocated h \<Longrightarrow> cells h'' a = cells h a"
  shows "val h'' x = val h x"
  using framed [of h x h''] assms by blast

end

section \<open>Copies made of copies\<close>

text \<open>A value without pointers.\<close>

definition copyFlat :: "'t \<Rightarrow> ('m, 's, 'l, 'e) object_store \<Rightarrow> 't \<times> ('m, 's, 'l, 'e) object_store" where
  "copyFlat x h = (x, h)"

interpretation flat: deep_copy copyFlat "\<lambda>h x. {}" "\<lambda>h x. x"
  by unfold_locales (simp_all add: copyFlat_def)

text \<open>Two parts, one after the other.\<close>

definition copyBoth ::
  "('t \<Rightarrow> ('m, 's, 'l, 'e) object_store \<Rightarrow> 't \<times> ('m, 's, 'l, 'e) object_store) \<Rightarrow>
   ('u \<Rightarrow> ('m, 's, 'l, 'e) object_store \<Rightarrow> 'u \<times> ('m, 's, 'l, 'e) object_store) \<Rightarrow>
   't \<times> 'u \<Rightarrow> ('m, 's, 'l, 'e) object_store \<Rightarrow> ('t \<times> 'u) \<times> ('m, 's, 'l, 'e) object_store" where
  "copyBoth c d p h = (let (x, h1) = c (fst p) h; (y, h2) = d (snd p) h1 in ((x, y), h2))"

locale deep_copies = one: deep_copy copyInto reach val + two: deep_copy copyInto' reach' val'
  for copyInto :: "'t \<Rightarrow> ('m, 's, 'l, 'e) object_store \<Rightarrow> 't \<times> ('m, 's, 'l, 'e) object_store" and reach
    and val :: "('m, 's, 'l, 'e) object_store \<Rightarrow> 't \<Rightarrow> 'v"
    and copyInto' :: "'u \<Rightarrow> ('m, 's, 'l, 'e) object_store \<Rightarrow> 'u \<times> ('m, 's, 'l, 'e) object_store" and reach'
    and val' :: "('m, 's, 'l, 'e) object_store \<Rightarrow> 'u \<Rightarrow> 'v'"

sublocale deep_copies \<subseteq> both: deep_copy "copyBoth copyInto copyInto'" "\<lambda>h p. reach h (fst p) \<union> reach' h (snd p)"
  "\<lambda>h p. (val h (fst p), val' h (snd p))"
proof
  fix h h' :: "('m, 's, 'l, 'e) object_store" and p :: "'t \<times> 'u"
  let ?r1 = "copyInto (fst p) h"
  let ?r2 = "copyInto' (snd p) (snd ?r1)"
  have run: "copyBoth copyInto copyInto' p h = ((fst ?r1, fst ?r2), snd ?r2)"
    by (simp add: copyBoth_def Let_def split_beta)
  have ext: "extends h (snd ?r1)" "extends (snd ?r1) (snd ?r2)"
    by (rule one.grows two.grows)+
  show "extends h (snd (copyBoth copyInto copyInto' p h))"
    using extends_trans [OF ext] by (simp add: run)
  show "reach h' (fst p) \<union> reach' h' (snd p) = reach h (fst p) \<union> reach' h (snd p) \<and>
      (val h' (fst p), val' h' (snd p)) = (val h (fst p), val' h (snd p))"
    if "\<And>a. a \<in> reach h (fst p) \<union> reach' h (snd p) \<Longrightarrow> cells h' a = cells h a"
    using one.framed [of h "fst p" h'] two.framed [of h "snd p" h'] that by blast
  assume old: "reach h (fst p) \<union> reach' h (snd p) \<subseteq> allocated h"
  then have olds: "reach h (fst p) \<subseteq> allocated h" "reach' h (snd p) \<subseteq> allocated h" by auto
  have second: "reach' (snd ?r1) (snd p) \<subseteq> allocated (snd ?r1)" "val' (snd ?r1) (snd p) = val' h (snd p)"
    using two.stays [OF ext(1) olds(2)] olds(2) extends_allocated [OF ext(1)] by auto
  have first: "reach (snd ?r1) (fst ?r1) \<subseteq> allocated (snd ?r1) - allocated h" by (rule one.fresh [OF olds(1)])
  have moved: "reach (snd ?r2) (fst ?r1) = reach (snd ?r1) (fst ?r1)" "val (snd ?r2) (fst ?r1) = val (snd ?r1) (fst ?r1)"
    using one.stays [OF ext(2)] first by auto
  show "reach (snd (copyBoth copyInto copyInto' p h)) (fst (fst (copyBoth copyInto copyInto' p h))) \<union>
      reach' (snd (copyBoth copyInto copyInto' p h)) (snd (fst (copyBoth copyInto copyInto' p h)))
      \<subseteq> allocated (snd (copyBoth copyInto copyInto' p h)) - allocated h"
    using first two.fresh [OF second(1)] extends_allocated [OF ext(1)] extends_allocated [OF ext(2)]
    by (auto simp: run moved)
  show "(val (snd (copyBoth copyInto copyInto' p h)) (fst (fst (copyBoth copyInto copyInto' p h))),
      val' (snd (copyBoth copyInto copyInto' p h)) (snd (fst (copyBoth copyInto copyInto' p h)))) =
      (val h (fst p), val' h (snd p))"
    using one.copied [OF olds(1)] two.copied [OF second(1)] second(2) by (simp add: run moved)
qed

context deep_copies
begin

lemma both_copy: "deep_copy (copyBoth copyInto copyInto') (\<lambda>h p. reach h (fst p) \<union> reach' h (snd p))
    (\<lambda>h p. (val h (fst p), val' h (snd p)))"
  by unfold_locales

end

text \<open>A struct: the parts with pointers are copied, the rest comes with \<^verbatim>\<open>*out = *in\<close>.\<close>

context deep_copy
begin

lemma struct_copy:
  assumes "\<And>x y. part (build x y) = y" "\<And>x y. rest (build x y) = rest x"
    and "\<And>x h. structInto x h = (build x (fst (copyInto (part x) h)), snd (copyInto (part x) h))"
  shows "deep_copy structInto (\<lambda>h x. reach h (part x)) (\<lambda>h x. f (rest x) (val h (part x)))"
proof
  fix h h' :: "('m, 's, 'l, 'e) object_store" and x
  show "reach h' (part x) = reach h (part x) \<and> f (rest x) (val h' (part x)) = f (rest x) (val h (part x))"
    if "\<And>a. a \<in> reach h (part x) \<Longrightarrow> cells h' a = cells h a"
    using framed [of h "part x" h'] that by simp
  show "extends h (snd (structInto x h))" by (simp add: assms(3) grows)
  assume "reach h (part x) \<subseteq> allocated h"
  then show "reach (snd (structInto x h)) (part (fst (structInto x h))) \<subseteq> allocated (snd (structInto x h)) - allocated h"
    and "f (rest (fst (structInto x h))) (val (snd (structInto x h)) (part (fst (structInto x h)))) = f (rest x) (val h (part x))"
    by (simp_all add: assms fresh copied)
qed

end

text \<open>A pointer: nil, or a new cell that the copy is written to.\<close>

definition newCopy ::
  "('t \<Rightarrow> ('m, 's, 'l, 'e) cell) \<Rightarrow> (('m, 's, 'l, 'e) cell option \<Rightarrow> 't) \<Rightarrow> 't \<Rightarrow>
   ('t \<Rightarrow> ('m, 's, 'l, 'e) object_store \<Rightarrow> 't \<times> ('m, 's, 'l, 'e) object_store) \<Rightarrow>
   addr option \<Rightarrow> ('m, 's, 'l, 'e) object_store \<Rightarrow> addr option \<times> ('m, 's, 'l, 'e) object_store" where
  "newCopy wrap sel zero copyInto p h =
     (case p of
        None \<Rightarrow> (None, h)
      | Some a \<Rightarrow>
          let (out, h1) = alloc (wrap zero) h;
              (y, h2) = copyInto (sel (cells h1 a)) h1
          in (Some out, put out (wrap y) h2))"

locale deep_copy_cell = deep_copy copyInto reach val
  for copyInto :: "'t \<Rightarrow> ('m, 's, 'l, 'e) object_store \<Rightarrow> 't \<times> ('m, 's, 'l, 'e) object_store" and reach
    and val :: "('m, 's, 'l, 'e) object_store \<Rightarrow> 't \<Rightarrow> 'v" +
  fixes wrap :: "'t \<Rightarrow> ('m, 's, 'l, 'e) cell" and sel :: "('m, 's, 'l, 'e) cell option \<Rightarrow> 't" and zero :: 't
  assumes sel_wrap [simp]: "sel (Some (wrap x)) = x"

sublocale deep_copy_cell \<subseteq> at: deep_copy "newCopy wrap sel zero copyInto"
  "\<lambda>h p. case p of None \<Rightarrow> {} | Some a \<Rightarrow> insert a (reach h (sel (cells h a)))"
  "\<lambda>h. map_option (\<lambda>a. val h (sel (cells h a)))"
proof
  fix h h' :: "('m, 's, 'l, 'e) object_store" and p :: "addr option"
  let ?reach = "\<lambda>h p. case p of None \<Rightarrow> {} | Some a \<Rightarrow> insert a (reach h (sel (cells h a)))"
  let ?val = "\<lambda>h. map_option (\<lambda>a. val h (sel (cells h a)))"
  let ?copy = "newCopy wrap sel zero copyInto"
  show "?reach h' p = ?reach h p \<and> ?val h' p = ?val h p" if "\<And>a. a \<in> ?reach h p \<Longrightarrow> cells h' a = cells h a"
  proof (cases p)
    case (Some a)
    with that have "cells h' a = cells h a" by simp
    moreover from that Some have "reach h' (sel (cells h a)) = reach h (sel (cells h a)) \<and> val h' (sel (cells h a)) = val h (sel (cells h a))"
      by (intro framed) simp
    ultimately show ?thesis using Some by simp
  qed simp
  let ?h1 = "snd (alloc (wrap zero) h)" and ?n = "nextAddr h"
  show "extends h (snd (?copy p h))"
  proof (cases p)
    case (Some a)
    have "extends h (put ?n (wrap y) (snd (copyInto x ?h1)))" for x y
      by (intro extends_put extends_trans [OF extends_alloc grows]) simp
    with Some show ?thesis by (simp add: newCopy_def Let_def split_beta)
  qed (simp add: newCopy_def)
  assume old: "?reach h p \<subseteq> allocated h"
  have "?reach (snd (?copy p h)) (fst (?copy p h)) \<subseteq> allocated (snd (?copy p h)) - allocated h \<and>
      ?val (snd (?copy p h)) (fst (?copy p h)) = ?val h p"
  proof (cases p)
    case (Some a)
    let ?x = "sel (cells h a)"
    let ?r = "copyInto ?x ?h1"
    let ?h3 = "put ?n (wrap (fst ?r)) (snd ?r)"
    from old Some have a: "a < ?n" "reach h ?x \<subseteq> allocated h" by (simp_all add: allocated_def)
    then have run: "?copy p h = (Some ?n, ?h3)" by (simp add: newCopy_def Some Let_def split_beta)
    have x: "reach ?h1 ?x \<subseteq> allocated ?h1" "val ?h1 ?x = val h ?x"
      using stays [OF extends_alloc a(2)] a(2) by auto
    note new = fresh [OF x(1)] and same = copied [OF x(1)]
    then have "?n \<notin> reach (snd ?r) (fst ?r)" by (auto simp: allocated_def)
    note moved = written_elsewhere [OF this]
    have "?n < nextAddr (snd ?r)" using grows [of ?h1 ?x] by (simp add: extends_def)
    then show ?thesis unfolding run using new same x(2) by (auto simp: moved Some allocated_def)
  qed (simp add: newCopy_def)
  then show "?reach (snd (?copy p h)) (fst (?copy p h)) \<subseteq> allocated (snd (?copy p h)) - allocated h"
    and "?val (snd (?copy p h)) (fst (?copy p h)) = ?val h p" by simp_all
qed

context deep_copy_cell
begin

lemma new_copy: "deep_copy (newCopy wrap sel zero copyInto)
    (\<lambda>h p. case p of None \<Rightarrow> {} | Some a \<Rightarrow> insert a (reach h (sel (cells h a)))) (\<lambda>h. map_option (\<lambda>a. val h (sel (cells h a))))"
  by unfold_locales

end

text \<open>The elements of an array, one after the other.\<close>

fun copyEach ::
  "('t \<Rightarrow> ('m, 's, 'l, 'e) object_store \<Rightarrow> 't \<times> ('m, 's, 'l, 'e) object_store) \<Rightarrow>
   't list \<Rightarrow> ('m, 's, 'l, 'e) object_store \<Rightarrow> 't list \<times> ('m, 's, 'l, 'e) object_store" where
  "copyEach copyInto [] h = ([], h)"
| "copyEach copyInto (x # xs) h = (let (y, h1) = copyInto x h; (ys, h2) = copyEach copyInto xs h1 in (y # ys, h2))"

lemma length_copyEach [simp]: "length (fst (copyEach c xs h)) = length xs"
  by (induction xs arbitrary: h) (simp_all add: Let_def split_beta)

context deep_copy
begin

lemma each_grows: "extends h (snd (copyEach copyInto xs h))"
  by (induction xs arbitrary: h) (auto simp: Let_def split_beta intro: extends_trans grows)

lemma each_run:
  assumes "\<Union> (reach h ` set xs) \<subseteq> allocated h" "copyEach copyInto xs h = (ys, h')"
  shows "\<Union> (reach h' ` set ys) \<subseteq> allocated h' - allocated h \<and> map (val h') ys = map (val h) xs \<and>
    (\<forall>i j. i < j \<longrightarrow> j < length ys \<longrightarrow> reach h' (ys ! i) \<inter> reach h' (ys ! j) = {})"
  using assms
proof (induction xs arbitrary: h ys)
  case (Cons x xs)
  let ?r = "copyInto x h"
  let ?h1 = "snd ?r"
  define zs where "zs = fst (copyEach copyInto xs ?h1)"
  then have zs: "copyEach copyInto xs ?h1 = (zs, h')" "ys = fst ?r # zs"
    using Cons.prems(2) by (auto simp: Let_def split_beta)
  have ext: "extends h ?h1" "extends ?h1 h'" using grows [of h x] each_grows [of ?h1 xs] zs(1) by simp_all
  have old: "reach h x \<subseteq> allocated h" "\<And>z. z \<in> set xs \<Longrightarrow> reach h z \<subseteq> allocated h" using Cons.prems(1) by auto
  have rest: "reach ?h1 z = reach h z" "val ?h1 z = val h z" if "z \<in> set xs" for z
    using stays [OF ext(1) old(2) [OF that]] .
  have "\<Union> (reach ?h1 ` set xs) \<subseteq> allocated ?h1"
  proof (rule UN_least)
    fix z assume z: "z \<in> set xs"
    show "reach ?h1 z \<subseteq> allocated ?h1"
      unfolding rest(1) [OF z] using old(2) [OF z] extends_allocated [OF ext(1)] by (rule subset_trans)
  qed
  from Cons.IH [OF this zs(1)] have IH: "\<Union> (reach h' ` set zs) \<subseteq> allocated h' - allocated ?h1" "map (val h') zs = map (val ?h1) xs"
      "\<forall>i j. i < j \<longrightarrow> j < length zs \<longrightarrow> reach h' (zs ! i) \<inter> reach h' (zs ! j) = {}" by blast+
  have new: "reach ?h1 (fst ?r) \<subseteq> allocated ?h1 - allocated h" "val ?h1 (fst ?r) = val h x"
    using fresh [OF old(1)] copied [OF old(1)] .
  then have kept: "reach h' (fst ?r) = reach ?h1 (fst ?r)" "val h' (fst ?r) = val h x"
    using stays [OF ext(2), of "fst ?r"] by auto
  have apart: "reach h' (fst ?r) \<inter> reach h' z = {}" if "z \<in> set zs" for z
    using that IH(1) new(1) by (auto simp: kept(1))
  have "reach h' (ys ! i) \<inter> reach h' (ys ! j) = {}" if "i < j" "j < length ys" for i j
    using that IH(3) apart by (cases i; cases j) (auto simp: zs(2))
  moreover have "\<Union> (reach h' ` set ys) \<subseteq> allocated h' - allocated h"
    using IH(1) new(1) extends_allocated [OF ext(1)] extends_allocated [OF ext(2)] by (auto simp: zs(2) kept(1))
  moreover have "map (val h') ys = map (val h) (x # xs)" using IH(2) kept(2) rest(2) by (simp add: zs(2))
  ultimately show ?case by blast
qed simp

lemma each_copy: "deep_copy (copyEach copyInto) (\<lambda>h xs. \<Union> (reach h ` set xs)) (\<lambda>h. map (val h))"
proof
  fix h h' :: "('m, 's, 'l, 'e) object_store" and xs
  show "\<Union> (reach h' ` set xs) = \<Union> (reach h ` set xs) \<and> map (val h') xs = map (val h) xs"
    if same: "\<And>a. a \<in> \<Union> (reach h ` set xs) \<Longrightarrow> cells h' a = cells h a"
  proof -
    have "reach h' x = reach h x \<and> val h' x = val h x" if "x \<in> set xs" for x
      using framed [of h x h'] same that by blast
    then show ?thesis by simp
  qed
  show "extends h (snd (copyEach copyInto xs h))" by (rule each_grows)
  assume "\<Union> (reach h ` set xs) \<subseteq> allocated h"
  from each_run [OF this prod.collapse [symmetric]]
  show "\<Union> (reach (snd (copyEach copyInto xs h)) ` set (fst (copyEach copyInto xs h)))
      \<subseteq> allocated (snd (copyEach copyInto xs h)) - allocated h"
    and "map (val (snd (copyEach copyInto xs h))) (fst (copyEach copyInto xs h)) = map (val h) xs" by blast+
qed

end

end
