(* ===== verification/DeepCopyProps.thy ===== *)
theory DeepCopyProps
  imports DeepCopy
begin

text \<open>
  The generated copies are deep: a copy stands for the same value, and neither side sees what is done
  to the other. This is why the components may treat the objects of the API server as values.
\<close>

section \<open>What the structs reach and stand for\<close>

record ('m, 's, 'l, 'e, 'mv, 'sv, 'lv) foreign_views =
  metaReach :: "('m, 's, 'l, 'e) object_store \<Rightarrow> 'm \<Rightarrow> addr set"
  metaVal :: "('m, 's, 'l, 'e) object_store \<Rightarrow> 'm \<Rightarrow> 'mv"
  metaNameOf :: "'mv \<Rightarrow> string"
  commonReach :: "('m, 's, 'l, 'e) object_store \<Rightarrow> 's \<Rightarrow> addr set"
  commonVal :: "('m, 's, 'l, 'e) object_store \<Rightarrow> 's \<Rightarrow> 'sv"
  listMetaReach :: "('m, 's, 'l, 'e) object_store \<Rightarrow> 'l \<Rightarrow> addr set"
  listMetaVal :: "('m, 's, 'l, 'e) object_store \<Rightarrow> 'l \<Rightarrow> 'lv"

definition atReach :: "addr option \<Rightarrow> addr set" where
  "atReach p = set_option p"

definition specReach :: "('m, 's, 'l, 'e) object_store \<Rightarrow> spec_struct \<Rightarrow> addr set" where
  "specReach h x = atReach (spOIDC x) \<union> atReach (spCapabilities x)"

definition specVal :: "('m, 's, 'l, 'e) object_store \<Rightarrow> spec_struct \<Rightarrow> feast_operator_spec" where
  "specVal h x =
     \<lparr>specOIDC = map_option (\<lambda>a. loadOIDC (cells h a)) (spOIDC x),
      specCapabilities = map_option (\<lambda>a. loadCapabilities (cells h a)) (spCapabilities x)\<rparr>"

definition releasesReach :: "('m, 's, 'l, 'e) object_store \<Rightarrow> slice option \<Rightarrow> addr set" where
  "releasesReach h rs = sliceArray ` set_option rs"

definition releasesVal :: "('m, 's, 'l, 'e) object_store \<Rightarrow> slice option \<Rightarrow> component_release list" where
  "releasesVal h rs = (case rs of None \<Rightarrow> [] | Some s \<Rightarrow> window s (loadReleases (cells h (sliceArray s))))"

definition statusReach ::
  "('m, 's, 'l, 'e, 'mv, 'sv, 'lv) foreign_views \<Rightarrow> ('m, 's, 'l, 'e) object_store \<Rightarrow> 's status_struct \<Rightarrow> addr set" where
  "statusReach V h x = commonReach V h (stCommon x) \<union> releasesReach h (stReleases x)"

definition statusVal ::
  "('m, 's, 'l, 'e, 'mv, 'sv, 'lv) foreign_views \<Rightarrow> ('m, 's, 'l, 'e) object_store \<Rightarrow> 's status_struct \<Rightarrow>
   'sv \<times> component_release list" where
  "statusVal V h x = (commonVal V h (stCommon x), releasesVal h (stReleases x))"

definition feastReach ::
  "('m, 's, 'l, 'e, 'mv, 'sv, 'lv) foreign_views \<Rightarrow> ('m, 's, 'l, 'e) object_store \<Rightarrow> ('m, 's) feast_struct \<Rightarrow> addr set" where
  "feastReach V h x = metaReach V h (foMeta x) \<union> (specReach h (foSpec x) \<union> statusReach V h (foStatus x))"

definition feastVal ::
  "('m, 's, 'l, 'e, 'mv, 'sv, 'lv) foreign_views \<Rightarrow> ('m, 's, 'l, 'e) object_store \<Rightarrow> ('m, 's) feast_struct \<Rightarrow>
   type_meta \<times> 'mv \<times> feast_operator_spec \<times> 'sv \<times> component_release list" where
  "feastVal V h x = (foTypeMeta x, metaVal V h (foMeta x), specVal h (foSpec x), statusVal V h (foStatus x))"

definition items ::
  "('m, 's, 'l, 'e) object_store \<Rightarrow> slice option \<Rightarrow> ('m, 's) feast_struct list" where
  "items h s = (case s of None \<Rightarrow> [] | Some s \<Rightarrow> window s (loadFeasts (cells h (sliceArray s))))"

definition itemsReach ::
  "('m, 's, 'l, 'e, 'mv, 'sv, 'lv) foreign_views \<Rightarrow> ('m, 's, 'l, 'e) object_store \<Rightarrow> slice option \<Rightarrow> addr set" where
  "itemsReach V h s = sliceArray ` set_option s \<union> \<Union> (feastReach V h ` set (items h s))"

text \<open>A nil list and an empty one are told apart.\<close>

definition itemsVal where
  "itemsVal V h s = map_option (\<lambda>_. map (feastVal V h) (items h s)) s"

definition listReach ::
  "('m, 's, 'l, 'e, 'mv, 'sv, 'lv) foreign_views \<Rightarrow> ('m, 's, 'l, 'e) object_store \<Rightarrow> 'l list_struct \<Rightarrow> addr set" where
  "listReach V h x = listMetaReach V h (flMeta x) \<union> itemsReach V h (flItems x)"

definition listVal where
  "listVal V h x = (flTypeMeta x, listMetaVal V h (flMeta x), itemsVal V h (flItems x))"

text \<open>What is assumed of the foreign copies: that they are deep.\<close>

definition foreign_laws ::
  "('m, 's, 'l, 'e) foreign_copies \<Rightarrow> ('m, 's, 'l, 'e, 'mv, 'sv, 'lv) foreign_views \<Rightarrow> bool" where
  "foreign_laws C V \<longleftrightarrow>
     deep_copy (metaDeepCopyInto C) (metaReach V) (metaVal V) \<and>
     deep_copy (commonDeepCopyInto C) (commonReach V) (commonVal V) \<and>
     deep_copy (listMetaDeepCopyInto C) (listMetaReach V) (listMetaVal V) \<and>
     deep_copy (releasesDeepCopyInto C) releasesReach releasesVal"

section \<open>The generated functions keep the contract\<close>

lemma copy_both: "deep_copy c r v \<Longrightarrow> deep_copy c' r' v' \<Longrightarrow>
    deep_copy (copyBoth c c') (\<lambda>h p. r h (fst p) \<union> r' h (snd p)) (\<lambda>h p. (v h (fst p), v' h (snd p)))"
  by (rule deep_copies.both_copy [OF deep_copies.intro])

lemma copy_new: "deep_copy c r v \<Longrightarrow> (\<And>x. sel (Some (wrap x)) = x) \<Longrightarrow>
    deep_copy (newCopy wrap sel zero c)
      (\<lambda>h p. case p of None \<Rightarrow> {} | Some a \<Rightarrow> insert a (r h (sel (cells h a)))) (\<lambda>h. map_option (\<lambda>a. v h (sel (cells h a))))"
  by (rule deep_copy_cell.new_copy [OF deep_copy_cell.intro [OF _ deep_copy_cell_axioms.intro]])

interpretation capability: deep_copy capabilityDeepCopyInto "\<lambda>h x. {}" "\<lambda>h x. x"
  by unfold_locales (simp_all add: capabilityDeepCopyInto_def)

interpretation capability_pointer: deep_copy_cell capabilityDeepCopyInto "\<lambda>h x. {}" "\<lambda>h x. x" CapabilityCell loadCapability
    "\<lparr>managementState = []\<rparr>"
  by unfold_locales simp

interpretation capabilities: deep_copy_cell capabilitiesDeepCopyInto "\<lambda>h x. {}" "\<lambda>h x. x" CapabilitiesCell
    loadCapabilities zeroCapabilities
  by unfold_locales (simp_all add: capabilitiesDeepCopyInto_def)

interpretation oidc_pointer: deep_copy_cell copyFlat "\<lambda>h x. {}" "\<lambda>h x. x" OIDCCell loadOIDC "[]"
  by unfold_locales simp

interpretation capabilities_pointer: deep_copy_cell copyFlat "\<lambda>h x. {}" "\<lambda>h x. x" CapabilitiesCell loadCapabilities
    zeroCapabilities
  by unfold_locales simp

lemma insert_empty_reach: "(case p of None \<Rightarrow> {} | Some a \<Rightarrow> {a}) = atReach p"
  by (simp add: atReach_def split: option.split)

interpretation spec_pointers: deep_copies "newCopy OIDCCell loadOIDC [] copyFlat" "\<lambda>h. atReach"
    "\<lambda>h. map_option (\<lambda>a. loadOIDC (cells h a))" "newCopy CapabilitiesCell loadCapabilities zeroCapabilities copyFlat" "\<lambda>h. atReach"
    "\<lambda>h. map_option (\<lambda>a. loadCapabilities (cells h a))"
  using oidc_pointer.at.deep_copy_axioms capabilities_pointer.at.deep_copy_axioms
  by (intro deep_copies.intro) (simp_all add: insert_empty_reach)

interpretation spec: deep_copy specDeepCopyInto specReach specVal
proof -
  have "deep_copy specDeepCopyInto (\<lambda>h x. atReach (fst (spOIDC x, spCapabilities x)) \<union> atReach (snd (spOIDC x, spCapabilities x)))
      (\<lambda>h x. (\<lambda>_ p. \<lparr>specOIDC = fst p, specCapabilities = snd p\<rparr>) ()
        (map_option (\<lambda>a. loadOIDC (cells h a)) (fst (spOIDC x, spCapabilities x)),
         map_option (\<lambda>a. loadCapabilities (cells h a)) (snd (spOIDC x, spCapabilities x))))"
    by (rule spec_pointers.both.struct_copy [where part = "\<lambda>x. (spOIDC x, spCapabilities x)" and rest = "\<lambda>_. ()"
          and build = "\<lambda>x p. x\<lparr>spOIDC := fst p, spCapabilities := snd p\<rparr>"])
      (simp_all add: specDeepCopyInto_def copyBoth_def Let_def split_beta)
  then show "deep_copy specDeepCopyInto specReach specVal"
    by (simp add: specReach_def [abs_def] specVal_def [abs_def])
qed

lemma status_copy:
  assumes "foreign_laws C V"
  shows "deep_copy (statusDeepCopyInto C) (statusReach V) (statusVal V)"
proof -
  have "deep_copy (copyBoth (commonDeepCopyInto C) (releasesDeepCopyInto C))
      (\<lambda>h p. commonReach V h (fst p) \<union> releasesReach h (snd p)) (\<lambda>h p. (commonVal V h (fst p), releasesVal h (snd p)))"
    using assms by (intro copy_both) (simp_all add: foreign_laws_def)
  from deep_copy.struct_copy [OF this, where part = "\<lambda>x. (stCommon x, stReleases x)" and rest = "\<lambda>_. ()"
      and build = "\<lambda>x p. x\<lparr>stCommon := fst p, stReleases := snd p\<rparr>" and f = "\<lambda>_ p. p"
      and structInto = "statusDeepCopyInto C"]
  show ?thesis
    by (simp add: statusReach_def [abs_def] statusVal_def [abs_def] statusDeepCopyInto_def copyBoth_def Let_def split_beta)
qed

lemma feast_copy:
  assumes "foreign_laws C V"
  shows "deep_copy (feastDeepCopyInto C) (feastReach V) (feastVal V)"
proof -
  have "deep_copy (copyBoth (metaDeepCopyInto C) (copyBoth specDeepCopyInto (statusDeepCopyInto C)))
      (\<lambda>h p. metaReach V h (fst p) \<union> (specReach h (fst (snd p)) \<union> statusReach V h (snd (snd p))))
      (\<lambda>h p. (metaVal V h (fst p), specVal h (fst (snd p)), statusVal V h (snd (snd p))))"
    using assms status_copy [OF assms] spec.deep_copy_axioms by (intro copy_both) (simp_all add: foreign_laws_def)
  from deep_copy.struct_copy [OF this, where part = "\<lambda>x. (foMeta x, foSpec x, foStatus x)" and rest = foTypeMeta
      and build = "\<lambda>x p. x\<lparr>foMeta := fst p, foSpec := fst (snd p), foStatus := snd (snd p)\<rparr>" and f = Pair
      and structInto = "feastDeepCopyInto C"]
  show ?thesis
    by (simp add: feastReach_def [abs_def] feastVal_def [abs_def] feastDeepCopyInto_def copyBoth_def Let_def split_beta)
qed

lemma window_all: "length xs \<le> n \<Longrightarrow> window \<lparr>sliceArray = a, sliceOff = 0, sliceLen = n, sliceCap = c\<rparr> xs = xs"
  by (simp add: window_def)

lemma length_window: "length (window s xs) \<le> sliceLen s"
  by (simp add: window_def)

text \<open>The array of a list: where it is, and that the copies of the elements share nothing.\<close>

lemma items_run:
  assumes "foreign_laws C V" "itemsReach V h (Some s) \<subseteq> allocated h" "itemsDeepCopy C (Some s) h = (q, h')"
  obtains s' where "q = Some s'" "itemsReach V h' (Some s') \<subseteq> allocated h' - allocated h"
    and "map (feastVal V h') (items h' (Some s')) = map (feastVal V h) (items h (Some s))"
    and "\<forall>i j. i < j \<longrightarrow> j < length (items h' (Some s')) \<longrightarrow>
      feastReach V h' (items h' (Some s') ! i) \<inter> feastReach V h' (items h' (Some s') ! j) = {}"
proof -
  let ?c = "FeastArray (replicate (sliceLen s) (zeroFeast C))" and ?n = "nextAddr h"
  let ?h1 = "snd (alloc ?c h)" and ?xs = "items h (Some s)"
  define r where "r = copyEach (feastDeepCopyInto C) ?xs ?h1"
  define s' where "s' = \<lparr>sliceArray = ?n, sliceOff = 0, sliceLen = sliceLen s, sliceCap = sliceLen s\<rparr>"
  note F = feast_copy [OF assms(1)]
  from assms(2) have old: "sliceArray s \<noteq> ?n" "\<Union> (feastReach V h ` set ?xs) \<subseteq> allocated h"
    by (auto simp: itemsReach_def allocated_def)
  then have "q = Some s'" and h': "h' = put ?n (FeastArray (fst r)) (snd r)"
    using assms(3) by (simp_all add: itemsDeepCopy_def Let_def split_beta r_def s'_def items_def)
  have same: "feastReach V ?h1 x = feastReach V h x" "feastVal V ?h1 x = feastVal V h x" if "x \<in> set ?xs" for x
    using deep_copy.stays [OF F extends_alloc, of h x ?c] old(2) that by auto
  have "\<Union> (feastReach V ?h1 ` set ?xs) \<subseteq> allocated ?h1" using old(2) same(1) by fastforce
  from deep_copy.each_run [OF F this r_def [symmetric, THEN trans [OF _ prod.collapse [symmetric]]]]
  have run: "\<Union> (feastReach V (snd r) ` set (fst r)) \<subseteq> allocated (snd r) - allocated ?h1"
      "map (feastVal V (snd r)) (fst r) = map (feastVal V ?h1) ?xs"
      "\<forall>i j. i < j \<longrightarrow> j < length (fst r) \<longrightarrow> feastReach V (snd r) (fst r ! i) \<inter> feastReach V (snd r) (fst r ! j) = {}"
    by blast+
  have moved: "feastReach V h' x = feastReach V (snd r) x" "feastVal V h' x = feastVal V (snd r) x" if "x \<in> set (fst r)" for x
  proof -
    have "?n \<notin> feastReach V (snd r) x" using run(1) that by auto
    from deep_copy.written_elsewhere [OF F this]
    show "feastReach V h' x = feastReach V (snd r) x" "feastVal V h' x = feastVal V (snd r) x" by (simp_all add: h')
  qed
  have "length (fst r) \<le> sliceLen s" by (simp add: r_def items_def length_window)
  then have elements: "items h' (Some s') = fst r" by (simp add: items_def h' s'_def window_all)
  have "extends ?h1 (snd r)" unfolding r_def by (rule deep_copy.each_grows [OF F])
  then have "?n \<in> allocated h' - allocated h" by (simp add: h' extends_def allocated_def)
  moreover have "allocated h' = allocated (snd r)" by (simp add: h')
  moreover have "itemsReach V h' (Some s') = insert ?n (\<Union> (feastReach V (snd r) ` set (fst r)))"
    unfolding itemsReach_def elements using moved(1) by (simp add: s'_def)
  ultimately have "itemsReach V h' (Some s') \<subseteq> allocated h' - allocated h" using run(1) by auto
  moreover have "map (feastVal V h') (items h' (Some s')) = map (feastVal V h) ?xs"
    using run(2) moved(2) same(2) by (simp add: elements cong: map_cong)
  moreover have "feastReach V h' (items h' (Some s') ! i) \<inter> feastReach V h' (items h' (Some s') ! j) = {}"
    if "i < j" "j < length (items h' (Some s'))" for i j
    using run(3) that by (simp add: elements moved(1))
  ultimately show thesis using that \<open>q = Some s'\<close> by blast
qed

lemma items_grow:
  assumes "foreign_laws C V"
  shows "extends h (snd (itemsDeepCopy C s h))"
proof (cases s)
  case (Some t)
  have "extends h (put (nextAddr h) c (snd (copyEach (feastDeepCopyInto C) xs (snd (alloc d h)))))" for c d xs
    by (rule extends_put) (simp_all add: extends_trans [OF extends_alloc deep_copy.each_grows [OF feast_copy [OF assms]]])
  with Some show ?thesis by (simp add: itemsDeepCopy_def Let_def split_beta)
qed (simp add: itemsDeepCopy_def)

lemma items_copy:
  assumes "foreign_laws C V"
  shows "deep_copy (itemsDeepCopy C) (itemsReach V) (itemsVal V)"
proof
  note F = feast_copy [OF assms]
  fix h h' and s
  show "itemsReach V h' s = itemsReach V h s \<and> itemsVal V h' s = itemsVal V h s"
    if same: "\<And>a. a \<in> itemsReach V h s \<Longrightarrow> cells h' a = cells h a"
  proof -
    have elements: "items h' s = items h s" using same by (auto simp: items_def itemsReach_def split: option.split)
    have "feastReach V h' x = feastReach V h x \<and> feastVal V h' x = feastVal V h x" if "x \<in> set (items h s)" for x
      using that same by (intro deep_copy.framed [OF F]) (auto simp: itemsReach_def)
    then have "map (feastVal V h') (items h s) = map (feastVal V h) (items h s)"
      "feastReach V h' ` set (items h s) = feastReach V h ` set (items h s)" by simp_all
    then show ?thesis unfolding itemsReach_def itemsVal_def elements by (simp only: simp_thms)
  qed
  show "extends h (snd (itemsDeepCopy C s h))" by (rule items_grow [OF assms])
  assume old: "itemsReach V h s \<subseteq> allocated h"
  have "itemsReach V (snd (itemsDeepCopy C s h)) (fst (itemsDeepCopy C s h)) \<subseteq> allocated (snd (itemsDeepCopy C s h)) - allocated h \<and>
      itemsVal V (snd (itemsDeepCopy C s h)) (fst (itemsDeepCopy C s h)) = itemsVal V h s"
  proof (cases s)
    case (Some t)
    with old have "itemsReach V h (Some t) \<subseteq> allocated h" by simp
    then obtain t' where t': "fst (itemsDeepCopy C (Some t) h) = Some t'"
        "itemsReach V (snd (itemsDeepCopy C (Some t) h)) (Some t') \<subseteq> allocated (snd (itemsDeepCopy C (Some t) h)) - allocated h"
        "map (feastVal V (snd (itemsDeepCopy C (Some t) h))) (items (snd (itemsDeepCopy C (Some t) h)) (Some t')) =
          map (feastVal V h) (items h (Some t))"
      by (rule items_run [OF assms _ prod.collapse [symmetric]])
    show ?thesis unfolding Some t'(1) itemsVal_def option.map t'(3) using t'(2) by (simp only: simp_thms)
  qed (simp add: itemsDeepCopy_def itemsReach_def itemsVal_def items_def)
  then show "itemsReach V (snd (itemsDeepCopy C s h)) (fst (itemsDeepCopy C s h)) \<subseteq> allocated (snd (itemsDeepCopy C s h)) - allocated h"
    and "itemsVal V (snd (itemsDeepCopy C s h)) (fst (itemsDeepCopy C s h)) = itemsVal V h s" by blast+
qed

lemma list_copy:
  assumes "foreign_laws C V"
  shows "deep_copy (listDeepCopyInto C) (listReach V) (listVal V)"
proof -
  have "deep_copy (copyBoth (listMetaDeepCopyInto C) (itemsDeepCopy C))
      (\<lambda>h p. listMetaReach V h (fst p) \<union> itemsReach V h (snd p)) (\<lambda>h p. (listMetaVal V h (fst p), itemsVal V h (snd p)))"
    using assms items_copy [OF assms] by (intro copy_both) (simp_all add: foreign_laws_def)
  from deep_copy.struct_copy [OF this, where part = "\<lambda>x. (flMeta x, flItems x)" and rest = flTypeMeta
      and build = "\<lambda>x p. x\<lparr>flMeta := fst p, flItems := snd p\<rparr>" and f = Pair and structInto = "listDeepCopyInto C"]
  show ?thesis
    by (simp add: listReach_def [abs_def] listVal_def [abs_def] listDeepCopyInto_def copyBoth_def Let_def split_beta)
qed

section \<open>The write of the version in the store\<close>

definition slice_ok :: "('m, 's, 'l, 'e) object_store \<Rightarrow> slice option \<Rightarrow> bool" where
  "slice_ok h rs \<longleftrightarrow>
     (case rs of
        None \<Rightarrow> True
      | Some s \<Rightarrow>
          (case cells h (sliceArray s) of
             Some (ReleaseArray xs) \<Rightarrow> sliceOff s + sliceCap s \<le> length xs \<and> sliceLen s \<le> sliceCap s
           | _ \<Rightarrow> False))"

lemma slice_okE:
  assumes "slice_ok h (Some s)"
  obtains xs where "cells h (sliceArray s) = Some (ReleaseArray xs)" "sliceOff s + sliceCap s \<le> length xs" "sliceLen s \<le> sliceCap s"
  using assms by (auto simp: slice_ok_def split: option.splits cell.splits)

lemma releaseIndex_Some:
  "releaseIndex rs = Some i \<Longrightarrow> i < length rs \<and> setRelease v rs = rs[i := (rs ! i)\<lparr>releaseVersion := v\<rparr>]"
  by (induction rs arbitrary: i) (auto split: if_splits)

lemma releaseIndex_None: "releaseIndex rs = None \<Longrightarrow> setRelease v rs = rs @ [newRelease v]"
  by (induction rs) (auto simp: newRelease_def split: if_splits)

lemma window_update: "i < sliceLen s \<Longrightarrow> window s (xs[sliceOff s + i := y]) = (window s xs)[i := y]"
  by (simp add: window_def drop_update_swap take_update_swap)

lemma window_nth: "sliceOff s \<le> length xs \<Longrightarrow> i < length (window s xs) \<Longrightarrow> window s xs ! i = xs ! (sliceOff s + i)"
  by (simp add: window_def)

lemma window_extend:
  "sliceOff s + sliceLen s < length xs \<Longrightarrow>
    window (s\<lparr>sliceLen := Suc (sliceLen s)\<rparr>) (xs[sliceOff s + sliceLen s := y]) = window s xs @ [y]"
  by (simp add: window_def drop_update_swap take_Suc_conv_app_nth)

lemma appendRelease_elsewhere:
  "a \<in> allocated h \<Longrightarrow> a \<notin> releasesReach h rs \<Longrightarrow> cells (snd (appendRelease grow r rs h)) a = cells h a"
  by (cases rs) (auto simp: appendRelease_def Let_def releasesReach_def allocated_def split_beta)

lemma appendRelease_val:
  assumes "slice_ok h rs"
  shows "releasesVal (snd (appendRelease grow r rs h)) (Some (fst (appendRelease grow r rs h))) = releasesVal h rs @ [r]"
proof (cases rs)
  case None
  then show ?thesis by (simp add: appendRelease_def releasesVal_def Let_def split_beta window_def)
next
  case (Some s)
  with assms obtain xs where xs: "cells h (sliceArray s) = Some (ReleaseArray xs)" "sliceOff s + sliceCap s \<le> length xs"
      "sliceLen s \<le> sliceCap s" by (auto elim: slice_okE)
  then have "length (window s xs) = sliceLen s" by (simp add: window_def)
  with xs show ?thesis
    by (auto simp: Some appendRelease_def releasesVal_def Let_def split_beta window_extend) (simp add: window_def)
qed

lemma set_elsewhere:
  assumes "a \<in> allocated h" "a \<noteq> p" "a \<notin> releasesReach h (stReleases (foStatus (loadFeast C (cells h p))))"
  shows "cells (setPlatformReleaseAt C grow v p h) a = cells h a"
  using assms appendRelease_elsewhere [OF assms(1,3), of grow "newRelease v"]
  by (auto simp: setPlatformReleaseAt_def Let_def split_beta releasesReach_def split: option.split)

lemma set_in_place:
  assumes "cells h p = Some (FeastCell obj)" "slice_ok h (stReleases (foStatus obj))"
  obtains rs where "cells (setPlatformReleaseAt C grow v p h) p = Some (FeastCell (obj\<lparr>foStatus := (foStatus obj)\<lparr>stReleases := rs\<rparr>\<rparr>))"
    and "p \<in> allocated h \<Longrightarrow>
      releasesVal (setPlatformReleaseAt C grow v p h) rs = setRelease v (releasesVal h (stReleases (foStatus obj)))"
proof -
  note result = that
  let ?rs = "stReleases (foStatus obj)" and ?h' = "setPlatformReleaseAt C grow v p h"
  let ?app = "appendRelease grow (newRelease v) ?rs h"
  let ?add = "put p (FeastCell (obj\<lparr>foStatus := (foStatus obj)\<lparr>stReleases := Some (fst ?app)\<rparr>\<rparr>)) (snd ?app)"
  have appended: thesis if added: "?h' = ?add" "setRelease v (releasesVal h ?rs) = releasesVal h ?rs @ [newRelease v]"
  proof (rule result [of "Some (fst ?app)"])
    show "cells ?h' p = Some (FeastCell (obj\<lparr>foStatus := (foStatus obj)\<lparr>stReleases := Some (fst ?app)\<rparr>\<rparr>))"
      by (simp add: added(1))
    assume "p \<in> allocated h"
    then have "sliceArray (fst ?app) \<noteq> p"
      using assms by (auto simp: appendRelease_def slice_ok_def Let_def split_beta allocated_def split: option.split)
    then have "releasesVal ?add (Some (fst ?app)) = releasesVal (snd ?app) (Some (fst ?app))" by (simp add: releasesVal_def)
    then show "releasesVal ?h' (Some (fst ?app)) = setRelease v (releasesVal h ?rs)"
      unfolding added appendRelease_val [OF assms(2)] .
  qed
  show thesis
  proof (cases ?rs)
    case None
    then show ?thesis
      using assms(1) by (intro appended) (simp_all add: setPlatformReleaseAt_def Let_def split_beta releasesVal_def newRelease_def)
  next
    case (Some s)
    with assms(2) obtain xs where xs: "cells h (sliceArray s) = Some (ReleaseArray xs)" "sliceOff s + sliceCap s \<le> length xs"
      by (auto elim: slice_okE)
    show ?thesis
    proof (cases "releaseIndex (window s xs)")
      case None
      with Some xs assms(1) show ?thesis
        using releaseIndex_None [OF None, of v]
        by (intro appended) (simp_all add: setPlatformReleaseAt_def Let_def split_beta releasesVal_def)
    next
      case (Some i)
      note i = releaseIndex_Some [OF Some, of v]
      have "?h' = put (sliceArray s) (ReleaseArray (xs[sliceOff s + i := (xs ! (sliceOff s + i))\<lparr>releaseVersion := v\<rparr>])) h"
        using \<open>?rs = Some s\<close> Some xs(1) assms(1) by (simp add: setPlatformReleaseAt_def Let_def)
      moreover have "sliceArray s \<noteq> p" using xs(1) assms(1) by auto
      moreover have "i < sliceLen s" using i length_window [of s xs] by linarith
      ultimately show ?thesis
        using i xs assms(1) \<open>?rs = Some s\<close>
        by (intro result [of ?rs]) (simp_all add: releasesVal_def window_update window_nth)
    qed
  qed
qed

section \<open>The properties\<close>

text \<open>The resource of the other theories, as it is read off the store.\<close>

definition operatorAt ::
  "('m, 's, 'l, 'e) foreign_copies \<Rightarrow> ('m, 's, 'l, 'e, 'mv, 'sv, 'lv) foreign_views \<Rightarrow>
   ('m, 's, 'l, 'e) object_store \<Rightarrow> addr \<Rightarrow> feast_operator" where
  "operatorAt C V h p =
     (let x = loadFeast C (cells h p) in
      \<lparr>metaName = metaNameOf V (metaVal V h (foMeta x)), spec = specVal h (foSpec x),
       status = \<lparr>statusReleases = releasesVal h (stReleases (foStatus x))\<rparr>\<rparr>)"

lemma operatorAt_eqI:
  "feastVal V h (loadFeast C (cells h p)) = feastVal V h' (loadFeast C (cells h' q)) \<Longrightarrow> operatorAt C V h p = operatorAt C V h' q"
  by (simp add: operatorAt_def feastVal_def statusVal_def Let_def)

text \<open>A live object at an address: its parts are in the store, and its releases are its own.\<close>

definition liveAt ::
  "('m, 's, 'l, 'e, 'mv, 'sv, 'lv) foreign_views \<Rightarrow> ('m, 's, 'l, 'e) object_store \<Rightarrow> addr \<Rightarrow> ('m, 's) feast_struct \<Rightarrow> bool" where
  "liveAt V h p x \<longleftrightarrow>
     cells h p = Some (FeastCell x) \<and> insert p (feastReach V h x) \<subseteq> allocated h \<and>
     slice_ok h (stReleases (foStatus x)) \<and>
     (metaReach V h (foMeta x) \<union> specReach h (foSpec x)) \<inter> insert p (releasesReach h (stReleases (foStatus x))) = {}"

lemma live_extends:
  assumes "foreign_laws C V" "liveAt V h p x" "extends h h'"
  shows "liveAt V h' p x"
proof -
  from assms(2) have x: "cells h p = Some (FeastCell x)" "p \<in> allocated h" "feastReach V h x \<subseteq> allocated h"
    by (auto simp: liveAt_def)
  then have parts: "metaReach V h (foMeta x) \<subseteq> allocated h" by (auto simp: feastReach_def)
  have meta: "deep_copy (metaDeepCopyInto C) (metaReach V) (metaVal V)" using assms(1) by (simp add: foreign_laws_def)
  have "feastReach V h' x = feastReach V h x" "metaReach V h' (foMeta x) = metaReach V h (foMeta x)"
    using deep_copy.stays(1) [OF feast_copy [OF assms(1)] assms(3) x(3)] deep_copy.stays(1) [OF meta assms(3) parts] by simp_all
  moreover have "slice_ok h' (stReleases (foStatus x)) = slice_ok h (stReleases (foStatus x))"
    using x(3) extends_old [OF assms(3)]
    by (auto simp: slice_ok_def feastReach_def statusReach_def releasesReach_def split: option.split)
  ultimately show ?thesis
    using assms(2) extends_old [OF assms(3) x(2)] extends_allocated [OF assms(3)]
    by (auto simp: liveAt_def specReach_def releasesReach_def)
qed

lemma written_operator:
  assumes "foreign_laws C V" "liveAt V h p x"
  shows "operatorAt C V (setPlatformReleaseAt C grow v p h) p = setPlatformRelease v (operatorAt C V h p)"
proof -
  let ?h' = "setPlatformReleaseAt C grow v p h" and ?parts = "metaReach V h (foMeta x) \<union> specReach h (foSpec x)"
  from assms(2) have x: "cells h p = Some (FeastCell x)" "slice_ok h (stReleases (foStatus x))" "p \<in> allocated h"
      "?parts \<subseteq> allocated h" "?parts \<inter> insert p (releasesReach h (stReleases (foStatus x))) = {}"
    by (auto simp: liveAt_def feastReach_def)
  obtain rs where rs: "cells ?h' p = Some (FeastCell (x\<lparr>foStatus := (foStatus x)\<lparr>stReleases := rs\<rparr>\<rparr>))"
      "releasesVal ?h' rs = setRelease v (releasesVal h (stReleases (foStatus x)))"
    using set_in_place [OF x(1,2), of C grow v] x(3) by metis
  have same: "cells ?h' a = cells h a" if "a \<in> ?parts" for a
    using that x by (intro set_elsewhere) auto
  have "deep_copy (metaDeepCopyInto C) (metaReach V) (metaVal V)" using assms(1) by (simp add: foreign_laws_def)
  from deep_copy.framed [OF this, of h "foMeta x" ?h'] have "metaVal V ?h' (foMeta x) = metaVal V h (foMeta x)"
    using same by blast
  moreover from spec.framed [of h "foSpec x" ?h'] have "specVal ?h' (foSpec x) = specVal h (foSpec x)"
    using same by blast
  ultimately show ?thesis
    by (simp add: operatorAt_def x(1) rs setPlatformRelease_def setReleaseStatus_def)
qed

lemma feast_pointer_copy: "foreign_laws C V \<Longrightarrow> deep_copy (feastDeepCopy C)
    (\<lambda>h p. case p of None \<Rightarrow> {} | Some a \<Rightarrow> insert a (feastReach V h (loadFeast C (cells h a))))
    (\<lambda>h. map_option (\<lambda>a. feastVal V h (loadFeast C (cells h a))))"
  unfolding feastDeepCopy_def by (rule copy_new [OF feast_copy]) simp_all

lemma list_pointer_copy: "foreign_laws C V \<Longrightarrow> deep_copy (listDeepCopy C)
    (\<lambda>h p. case p of None \<Rightarrow> {} | Some a \<Rightarrow> insert a (listReach V h (loadList C (cells h a))))
    (\<lambda>h. map_option (\<lambda>a. listVal V h (loadList C (cells h a))))"
  unfolding listDeepCopy_def by (rule copy_new [OF list_copy]) simp_all

lemma copy_of_pointer:
  "newCopy wrap sel zero c (Some a) h = (Some (nextAddr h), snd (newCopy wrap sel zero c (Some a) h))"
  by (simp add: newCopy_def Let_def split_beta)

lemma nil_copies:
  "feastDeepCopy C None h = (None, h)" "listDeepCopy C None h = (None, h)" "specDeepCopy None h = (None, h)"
  "statusDeepCopy C None h = (None, h)" "capabilitiesDeepCopy None h = (None, h)" "capabilityDeepCopy None h = (None, h)"
  "feastDeepCopyObject C None h = (None, h)" "listDeepCopyObject C None h = (None, h)"
  by (simp_all add: feastDeepCopy_def listDeepCopy_def specDeepCopy_def statusDeepCopy_def capabilitiesDeepCopy_def
      capabilityDeepCopy_def newCopy_def feastDeepCopyObject_def listDeepCopyObject_def)

lemma list_object: "listDeepCopy C p h = (Some c, h1) \<Longrightarrow> listDeepCopyObject C p h = (Some (FeastListObject c), h1)"
  by (simp add: listDeepCopyObject_def)

text \<open>The copy of a live object: a new address, the same value, and neither side sees the other.\<close>

lemma feast_detached:
  assumes "foreign_laws C V" "liveAt V h p x"
  obtains c h1 where "feastDeepCopy C (Some p) h = (Some c, h1)" "c \<notin> allocated h" "extends h h1"
    and "insert c (feastReach V h1 (loadFeast C (cells h1 c))) \<subseteq> allocated h1 - allocated h"
    and "\<forall>h2. (\<forall>a \<in> allocated h1 - allocated h. cells h2 a = cells h1 a) \<longrightarrow>
      feastVal V h2 (loadFeast C (cells h2 c)) = feastVal V h x"
    and "\<forall>h2. (\<forall>a \<in> allocated h. cells h2 a = cells h a) \<longrightarrow>
      feastVal V h2 (loadFeast C (cells h2 p)) = feastVal V h x"
proof -
  note P = feast_pointer_copy [OF assms(1)]
  let ?c = "nextAddr h" and ?h1 = "snd (feastDeepCopy C (Some p) h)"
  have run: "feastDeepCopy C (Some p) h = (Some ?c, ?h1)" unfolding feastDeepCopy_def by (rule copy_of_pointer)
  from assms(2) have x: "cells h p = Some (FeastCell x)" "insert p (feastReach V h (loadFeast C (cells h p))) \<subseteq> allocated h"
    by (simp_all add: liveAt_def)
  then have old: "(case Some p of None \<Rightarrow> {} | Some a \<Rightarrow> insert a (feastReach V h (loadFeast C (cells h a)))) \<subseteq> allocated h"
    by simp
  from deep_copy.fresh [OF P old] have new: "insert ?c (feastReach V ?h1 (loadFeast C (cells ?h1 ?c))) \<subseteq> allocated ?h1 - allocated h"
    by (simp add: run [THEN arg_cong [where f = fst]])
  show thesis
  proof (rule that [OF run _ _ new])
    show "?c \<notin> allocated h" by (simp add: allocated_def)
    show "extends h ?h1" by (rule deep_copy.grows [OF P])
    show "\<forall>h2. (\<forall>a \<in> allocated ?h1 - allocated h. cells h2 a = cells ?h1 a) \<longrightarrow>
        feastVal V h2 (loadFeast C (cells h2 ?c)) = feastVal V h x"
      using deep_copy.detached [OF P old run] x(1) by simp
    show "\<forall>h2. (\<forall>a \<in> allocated h. cells h2 a = cells h a) \<longrightarrow> feastVal V h2 (loadFeast C (cells h2 p)) = feastVal V h x"
      using deep_copy.kept [OF P old] x(1) by simp
  qed
qed

text \<open>
  C23. A deep copy is a snapshot: \<^verbatim>\<open>DeepCopy\<close> of a live object gives a new object with the same value.
  Writing the platform version into the original afterwards, in place or by an append into the spare
  capacity of its array, has on the original the effect that \<open>setPlatformRelease\<close> has on values, and the
  copy still stands for the old value; writing it into the copy leaves the original as it was.
\<close>

theorem copy_is_snapshot:
  assumes "foreign_laws C V" "liveAt V h p x"
  shows "\<exists>c h1. feastDeepCopy C (Some p) h = (Some c, h1) \<and> c \<notin> allocated h \<and>
    operatorAt C V h1 c = operatorAt C V h p \<and>
    operatorAt C V (setPlatformReleaseAt C grow v p h1) p = setPlatformRelease v (operatorAt C V h p) \<and>
    operatorAt C V (setPlatformReleaseAt C grow v p h1) c = operatorAt C V h p \<and>
    operatorAt C V (setPlatformReleaseAt C grow v c h1) p = operatorAt C V h p"
proof -
  from feast_detached [OF assms] obtain c h1 where copy: "feastDeepCopy C (Some p) h = (Some c, h1)" "c \<notin> allocated h"
      "extends h h1" "insert c (feastReach V h1 (loadFeast C (cells h1 c))) \<subseteq> allocated h1 - allocated h"
    and detached: "\<forall>h2. (\<forall>a \<in> allocated h1 - allocated h. cells h2 a = cells h1 a) \<longrightarrow>
      feastVal V h2 (loadFeast C (cells h2 c)) = feastVal V h x"
    and kept: "\<forall>h2. (\<forall>a \<in> allocated h. cells h2 a = cells h a) \<longrightarrow>
      feastVal V h2 (loadFeast C (cells h2 p)) = feastVal V h x" .
  have there: "operatorAt C V h2 c = operatorAt C V h p"
    if "\<And>a. a \<in> allocated h1 - allocated h \<Longrightarrow> cells h2 a = cells h1 a" for h2
    using detached kept that by (intro operatorAt_eqI) simp
  have here: "operatorAt C V h2 p = operatorAt C V h p" if "\<And>a. a \<in> allocated h \<Longrightarrow> cells h2 a = cells h a" for h2
    using kept that by (intro operatorAt_eqI) simp
  have live: "liveAt V h1 p x"
    by (rule live_extends [OF assms copy(3)])
  then have owned: "insert p (releasesReach h1 (stReleases (foStatus (loadFeast C (cells h1 p))))) \<subseteq> allocated h"
    using assms(2) extends_old [OF copy(3)] by (auto simp: liveAt_def feastReach_def statusReach_def releasesReach_def)
  have "operatorAt C V (setPlatformReleaseAt C grow v p h1) p = setPlatformRelease v (operatorAt C V h p)"
    using written_operator [OF assms(1) live] here [OF extends_old [OF copy(3)]] by simp
  moreover have "operatorAt C V (setPlatformReleaseAt C grow v p h1) c = operatorAt C V h p"
    using owned by (intro there set_elsewhere) auto
  moreover have "operatorAt C V (setPlatformReleaseAt C grow v c h1) p = operatorAt C V h p"
  proof (rule here)
    fix a assume a: "a \<in> allocated h"
    then have "cells (setPlatformReleaseAt C grow v c h1) a = cells h1 a"
      using copy(4) extends_allocated [OF copy(3)]
      by (intro set_elsewhere) (auto simp: feastReach_def statusReach_def)
    with a show "cells (setPlatformReleaseAt C grow v c h1) a = cells h a" using extends_old [OF copy(3)] by simp
  qed
  ultimately show ?thesis using copy(1,2) there [of h1] by blast
qed

text \<open>The items of the copy of a list, where the copy has been put into its cell.\<close>

lemma list_items_apart:
  assumes "foreign_laws C V" "cells h p = Some (ListCell x)" "insert p (listReach V h x) \<subseteq> allocated h"
    and "listDeepCopy C (Some p) h = (Some c, h1)"
  obtains y where "cells h1 c = Some (ListCell y)"
    and "\<forall>i j. i < j \<longrightarrow> j < length (items h1 (flItems y)) \<longrightarrow>
      feastReach V h1 (items h1 (flItems y) ! i) \<inter> feastReach V h1 (items h1 (flItems y) ! j) = {}"
proof -
  note result = that
  let ?n = "nextAddr h" and ?h0 = "snd (alloc (ListCell (zeroList C)) h)"
  define ha where "ha = snd (listMetaDeepCopyInto C (flMeta x) ?h0)"
  define q where "q = fst (itemsDeepCopy C (flItems x) ha)"
  define hb where "hb = snd (itemsDeepCopy C (flItems x) ha)"
  define y where "y = x\<lparr>flMeta := fst (listMetaDeepCopyInto C (flMeta x) ?h0), flItems := q\<rparr>"
  have meta: "deep_copy (listMetaDeepCopyInto C) (listMetaReach V) (listMetaVal V)" using assms(1) by (simp add: foreign_laws_def)
  from assms(3) have p: "p \<noteq> ?n" "itemsReach V h (flItems x) \<subseteq> allocated h" by (auto simp: allocated_def listReach_def)
  have cell: "c = ?n" "h1 = put ?n (ListCell y) hb"
    using assms(2,4) p(1)
    by (auto simp: listDeepCopy_def newCopy_def listDeepCopyInto_def Let_def split_beta ha_def hb_def q_def y_def)
  have ext: "extends ?h0 ha" unfolding ha_def by (rule deep_copy.grows [OF meta])
  then have ext': "extends h ha" by (rule extends_trans [OF extends_alloc])
  have n: "?n \<in> allocated ha" using ext by (simp add: extends_def allocated_def)
  show thesis
  proof (cases "flItems x")
    case None
    then show ?thesis by (intro result [of y]) (simp_all add: cell y_def q_def itemsDeepCopy_def items_def)
  next
    case (Some s)
    note I = items_copy [OF assms(1)]
    have old: "itemsReach V ha (Some s) \<subseteq> allocated ha"
      using deep_copy.stays(1) [OF I ext' p(2)] p(2) extends_allocated [OF ext'] by (simp add: Some)
    have "itemsDeepCopy C (Some s) ha = (q, hb)" by (simp add: q_def hb_def Some)
    from items_run [OF assms(1) old this] obtain s' where s': "q = Some s'"
        "itemsReach V hb (Some s') \<subseteq> allocated hb - allocated ha"
        "\<forall>i j. i < j \<longrightarrow> j < length (items hb (Some s')) \<longrightarrow>
          feastReach V hb (items hb (Some s') ! i) \<inter> feastReach V hb (items hb (Some s') ! j) = {}"
      by metis
    from s'(2) n have "?n \<noteq> sliceArray s'" "\<And>z. z \<in> set (items hb (Some s')) \<Longrightarrow> ?n \<notin> feastReach V hb z"
      by (auto simp: itemsReach_def)
    then have same: "items h1 (flItems y) = items hb (Some s')"
        "\<And>z. z \<in> set (items hb (Some s')) \<Longrightarrow> feastReach V h1 z = feastReach V hb z"
      using deep_copy.written_elsewhere(1) [OF feast_copy [OF assms(1)]] by (simp_all add: cell y_def s'(1) items_def)
    show ?thesis
      by (rule result [of y]) (use s'(3) same in \<open>simp_all add: cell\<close>)
  qed
qed

text \<open>
  C24. A deep copy of a list: \<^verbatim>\<open>DeepCopyObject\<close> gives a list object at a new address that stands for the
  same list whatever happens afterwards to the cells there were before, the original stands for the
  same list whatever happens to the new cells, and no two items of the copy share a cell; of a nil
  pointer it gives the nil interface.
\<close>

theorem list_copy_detached:
  assumes "foreign_laws C V" "cells h p = Some (ListCell x)" "insert p (listReach V h x) \<subseteq> allocated h"
  shows "\<exists>c h1 y. listDeepCopyObject C (Some p) h = (Some (FeastListObject c), h1) \<and> c \<notin> allocated h \<and>
    cells h1 c = Some (ListCell y) \<and>
    (\<forall>h2. (\<forall>a \<in> allocated h1 - allocated h. cells h2 a = cells h1 a) \<longrightarrow>
      listVal V h2 (loadList C (cells h2 c)) = listVal V h x) \<and>
    (\<forall>h2. (\<forall>a \<in> allocated h. cells h2 a = cells h a) \<longrightarrow>
      listVal V h2 (loadList C (cells h2 p)) = listVal V h x) \<and>
    (\<forall>i j. i < j \<longrightarrow> j < length (items h1 (flItems y)) \<longrightarrow>
      feastReach V h1 (items h1 (flItems y) ! i) \<inter> feastReach V h1 (items h1 (flItems y) ! j) = {}) \<and>
    listDeepCopyObject C None h = (None, h)"
proof -
  note P = list_pointer_copy [OF assms(1)]
  let ?c = "nextAddr h" and ?h1 = "snd (listDeepCopy C (Some p) h)"
  have run: "listDeepCopy C (Some p) h = (Some ?c, ?h1)" unfolding listDeepCopy_def by (rule copy_of_pointer)
  then have "listDeepCopyObject C (Some p) h = (Some (FeastListObject ?c), ?h1)" by (rule list_object)
  moreover have "?c \<notin> allocated h" by (simp add: allocated_def)
  moreover from list_items_apart [OF assms run] obtain y where "cells ?h1 ?c = Some (ListCell y)"
      "\<forall>i j. i < j \<longrightarrow> j < length (items ?h1 (flItems y)) \<longrightarrow>
        feastReach V ?h1 (items ?h1 (flItems y) ! i) \<inter> feastReach V ?h1 (items ?h1 (flItems y) ! j) = {}" .
  moreover have old: "(case Some p of None \<Rightarrow> {} | Some a \<Rightarrow> insert a (listReach V h (loadList C (cells h a)))) \<subseteq> allocated h"
    using assms(2,3) by simp
  moreover have "\<forall>h2. (\<forall>a \<in> allocated ?h1 - allocated h. cells h2 a = cells ?h1 a) \<longrightarrow>
      listVal V h2 (loadList C (cells h2 ?c)) = listVal V h x"
    using deep_copy.detached [OF P old run] assms(2) by simp
  moreover have "\<forall>h2. (\<forall>a \<in> allocated h. cells h2 a = cells h a) \<longrightarrow> listVal V h2 (loadList C (cells h2 p)) = listVal V h x"
    using deep_copy.kept [OF P old] assms(2) by simp
  ultimately show ?thesis using nil_copies(8) [of C h] by blast
qed

section \<open>An instance\<close>

text \<open>
  Metadata of a name and a pointer to annotations, a common status and list metadata without
  pointers, and the copy of the releases that makes a new array of their number.
\<close>

definition releasesCopy ::
  "slice option \<Rightarrow> ('m, 's, 'l, 'e) object_store \<Rightarrow> slice option \<times> ('m, 's, 'l, 'e) object_store" where
  "releasesCopy rs h =
     (case rs of
        None \<Rightarrow> (None, h)
      | Some s \<Rightarrow>
          let xs = window s (loadReleases (cells h (sliceArray s))); (a, h1) = alloc (ReleaseArray xs) h
          in (Some \<lparr>sliceArray = a, sliceOff = 0, sliceLen = length xs, sliceCap = length xs\<rparr>, h1))"

interpretation releases: deep_copy releasesCopy releasesReach releasesVal
proof
  fix h h' :: "('m, 's, 'l, 'e) object_store" and rs
  show "releasesReach h' rs = releasesReach h rs \<and> releasesVal h' rs = releasesVal h rs"
    if "\<And>a. a \<in> releasesReach h rs \<Longrightarrow> cells h' a = cells h a"
    using that by (auto simp: releasesReach_def releasesVal_def split: option.split)
  show "extends h (snd (releasesCopy rs h))"
    by (simp add: releasesCopy_def Let_def split_beta split: option.split)
  show "releasesReach (snd (releasesCopy rs h)) (fst (releasesCopy rs h)) \<subseteq> allocated (snd (releasesCopy rs h)) - allocated h"
    by (cases rs) (simp_all add: releasesCopy_def releasesReach_def Let_def split_beta allocated_def)
  show "releasesVal (snd (releasesCopy rs h)) (fst (releasesCopy rs h)) = releasesVal h rs"
    by (cases rs) (simp_all add: releasesCopy_def releasesVal_def Let_def split_beta window_all)
qed

type_synonym demo_meta = "string \<times> addr option"

definition loadNote :: "(demo_meta, unit, unit, string) cell option \<Rightarrow> string" where
  "loadNote c = (case c of Some (OtherCell x) \<Rightarrow> x | _ \<Rightarrow> [])"

interpretation note_pointer: deep_copy_cell copyFlat "\<lambda>h x. {}" "\<lambda>h x. x" OtherCell loadNote "[]"
  by unfold_locales (simp add: loadNote_def)

definition demoCopies :: "(demo_meta, unit, unit, string) foreign_copies" where
  "demoCopies =
     \<lparr>emptyMeta = ([], None), emptyListMeta = (), emptyStatus = (),
      metaDeepCopyInto = copyBoth copyFlat (newCopy OtherCell loadNote [] copyFlat),
      listMetaDeepCopyInto = copyFlat, commonDeepCopyInto = copyFlat, releasesDeepCopyInto = releasesCopy\<rparr>"

definition demoViews :: "(demo_meta, unit, unit, string, string \<times> string option, unit, unit) foreign_views" where
  "demoViews =
     \<lparr>metaReach = \<lambda>h m. {} \<union> (case snd m of None \<Rightarrow> {} | Some a \<Rightarrow> insert a {}),
      metaVal = \<lambda>h m. (fst m, map_option (\<lambda>a. loadNote (cells h a)) (snd m)), metaNameOf = fst,
      commonReach = \<lambda>h x. {}, commonVal = \<lambda>h x. x, listMetaReach = \<lambda>h x. {}, listMetaVal = \<lambda>h x. x\<rparr>"

lemma demoCopies_laws: "foreign_laws demoCopies demoViews"
  unfolding foreign_laws_def demoCopies_def demoViews_def foreign_copies.simps foreign_views.simps
  by (intro conjI copy_both note_pointer.new_copy flat.deep_copy_axioms releases.deep_copy_axioms)

definition demoFeast :: "(demo_meta, unit) feast_struct" where
  "demoFeast =
     \<lparr>foTypeMeta = zeroTypeMeta, foMeta = (''default'', Some 1), foSpec = \<lparr>spOIDC = Some 2, spCapabilities = None\<rparr>,
      foStatus = \<lparr>stCommon = (), stReleases = Some \<lparr>sliceArray = 3, sliceOff = 0, sliceLen = 1, sliceCap = 2\<rparr>\<rparr>\<rparr>"

definition demoReleases :: "component_release list" where
  "demoReleases = [\<lparr>releaseName = ''feast'', releaseVersion = ''0.1''\<rparr>, \<lparr>releaseName = [], releaseVersion = []\<rparr>]"

definition demoStore :: "(demo_meta, unit, unit, string) object_store" where
  "demoStore =
     \<lparr>cells = [0 \<mapsto> FeastCell demoFeast, 1 \<mapsto> OtherCell ''note'', 2 \<mapsto> OIDCCell ''https://issuer'',
        3 \<mapsto> ReleaseArray demoReleases, 4 \<mapsto> FeastArray [demoFeast],
        5 \<mapsto> ListCell \<lparr>flTypeMeta = zeroTypeMeta, flMeta = (),
               flItems = Some \<lparr>sliceArray = 4, sliceOff = 0, sliceLen = 1, sliceCap = 1\<rparr>\<rparr>],
      nextAddr = 6\<rparr>"

lemmas demo_defs = demoStore_def demoFeast_def demoViews_def demoReleases_def allocated_def feastReach_def specReach_def
  statusReach_def releasesReach_def atReach_def

lemma copy_is_snapshot_witness:
  "\<exists>c h1. feastDeepCopy demoCopies (Some 0) demoStore = (Some c, h1) \<and>
    statusReleases (status (operatorAt demoCopies demoViews (setPlatformReleaseAt demoCopies id ''3.0'' 0 h1) 0)) =
      [\<lparr>releaseName = ''feast'', releaseVersion = ''0.1''\<rparr>, newRelease ''3.0''] \<and>
    statusReleases (status (operatorAt demoCopies demoViews (setPlatformReleaseAt demoCopies id ''3.0'' 0 h1) c)) =
      [\<lparr>releaseName = ''feast'', releaseVersion = ''0.1''\<rparr>]"
proof -
  have live: "liveAt demoViews demoStore 0 demoFeast"
    by (simp add: liveAt_def slice_ok_def demo_defs)
  have now: "statusReleases (status (operatorAt demoCopies demoViews demoStore 0)) =
      [\<lparr>releaseName = ''feast'', releaseVersion = ''0.1''\<rparr>]"
    by (simp add: operatorAt_def releasesVal_def window_def demo_defs Let_def)
  have later: "statusReleases (status (setPlatformRelease v obj)) = setRelease v (statusReleases (status obj))" for v obj
    by (simp add: setPlatformRelease_def)
  show ?thesis
    using copy_is_snapshot [OF demoCopies_laws live, of id "''3.0''"]
    by (auto simp: now later newRelease_def platformReleaseName_def)
qed

lemma list_copy_detached_witness:
  "\<exists>c h1 y. listDeepCopyObject demoCopies (Some 5) demoStore = (Some (FeastListObject c), h1) \<and> cells h1 c = Some (ListCell y)"
proof -
  obtain x where x: "cells demoStore 5 = Some (ListCell x)" "insert 5 (listReach demoViews demoStore x) \<subseteq> allocated demoStore"
    by (auto simp: demo_defs listReach_def itemsReach_def items_def window_def)
  from list_copy_detached [OF demoCopies_laws this] show ?thesis by blast
qed

end
