(* ===== verification/ConfigLoad.thy ===== *)
theory ConfigLoad
  imports Config GoStrings
begin

text \<open>
  The loading of the configuration, \<^verbatim>\<open>pkg/config/config.go\<close> from \<^verbatim>\<open>Load\<close> on. Viper is a library: its
  operations are the fields of a record, on an abstract type \<open>'v\<close> of stores and \<open>'m\<close> of nested settings
  maps. The process environment is a function that is empty where a variable is not set, and a
  directory is the list of its entries with a way to read them.
\<close>

section \<open>Parameters\<close>

datatype setting = SStr string | SBool bool

record ('v, 'm) viper_lib =
  viperNew :: 'v
  viperSetDefault :: "string \<Rightarrow> setting \<Rightarrow> 'v \<Rightarrow> 'v"
  viperSet :: "string \<Rightarrow> setting \<Rightarrow> 'v \<Rightarrow> 'v"
  viperSetConfigType :: "string \<Rightarrow> 'v \<Rightarrow> 'v"
  viperReadConfig :: "string \<Rightarrow> 'v \<Rightarrow> goerr + 'v"
  viperAllSettings :: "'v \<Rightarrow> 'm"
  viperMergeConfigMap :: "'m \<Rightarrow> 'v \<Rightarrow> goerr + 'v"
  viperSetEnvPrefix :: "string \<Rightarrow> 'v \<Rightarrow> 'v"
  viperSetEnvKeyReplacer :: "(string \<Rightarrow> string) \<Rightarrow> 'v \<Rightarrow> 'v"
  viperAutomaticEnv :: "'v \<Rightarrow> 'v"
  viperBindEnv :: "string \<Rightarrow> string list \<Rightarrow> 'v \<Rightarrow> goerr + 'v"
  viperAllKeys :: "'v \<Rightarrow> string list"
  viperUnmarshal :: "(string \<Rightarrow> string) \<Rightarrow> 'v \<Rightarrow> config \<Rightarrow> goerr + config"

record dir_entry =
  entryName :: string
  entryIsDir :: bool

record fsys =
  fsReadDir :: "goerr + dir_entry list"
  fsReadFile :: "string \<Rightarrow> goerr + string"

section \<open>Names\<close>

text \<open>\<open>filepath.Ext\<close>: from the last dot of the last path element on. The argument is reversed.\<close>

fun extOfRev :: "string \<Rightarrow> string \<Rightarrow> string" where
  "extOfRev acc [] = []"
| "extOfRev acc (c # s) =
     (if c = CHR ''/'' then [] else if c = CHR ''.'' then c # acc else extOfRev (c # acc) s)"

definition fileExt :: "string \<Rightarrow> string" where
  "fileExt name = extOfRev [] (rev name)"

definition structuredExtensions :: "string list" where
  "structuredExtensions = [''yaml'', ''yml'', ''json'']"

text \<open>\<open>strings.NewReplacer("-", "_", ".", "_")\<close>\<close>

definition envKeyReplacer :: "string \<Rightarrow> string" where
  "envKeyReplacer s = map (\<lambda>c. if c = CHR ''-'' \<or> c = CHR ''.'' then CHR ''_'' else c) s"

section \<open>Loading\<close>

definition settingDefaults :: "(string \<times> setting) list" where
  "settingDefaults =
     [(keyManifestsPath, SStr []),
      (keyApplicationsNS, SStr defaultApplicationsNS),
      (keyPlatformType, SStr defaultPlatformType),
      (keyPlatformVersion, SStr defaultPlatformVersion),
      (keyFeatureStoreEnabled, SBool defaultFeatureStoreEnabled),
      (keyDataRegistryEnabled, SBool defaultDataRegistryEnabled),
      (keyMetricsBindAddr, SStr defaultMetricsBindAddr),
      (keyHealthBindAddr, SStr defaultHealthBindAddr),
      (keyLeaderElectEnabled, SBool defaultLeaderElectEnabled),
      (keyLeaderElectID, SStr defaultLeaderElectID),
      (keyZapLevel, SStr defaultZapLevel),
      (keyPprofEnabled, SBool defaultPprofEnabled),
      (keyPprofBindAddr, SStr [])]"

definition setDefaults :: "('v, 'm) viper_lib \<Rightarrow> 'v \<Rightarrow> 'v" where
  "setDefaults L v = foldl (\<lambda>v (k, s). viperSetDefault L k s v) v settingDefaults"

fun bindKeys :: "('v, 'm) viper_lib \<Rightarrow> string list \<Rightarrow> 'v \<Rightarrow> goerr + 'v" where
  "bindKeys L [] v = Inr v"
| "bindKeys L (k # ks) v =
     (case viperBindEnv L k [] v of
        Inl e \<Rightarrow> Inl (Wrapped (''binding env for key '' @ k) e)
      | Inr v' \<Rightarrow> bindKeys L ks v')"

definition platformVersionEnvVar :: string where
  "platformVersionEnvVar = ''ODH_MODULE_OPERATOR_PLATFORM_VERSION''"

definition bindEnv :: "('v, 'm) viper_lib \<Rightarrow> 'v \<Rightarrow> goerr + 'v" where
  "bindEnv L v =
     (case viperBindEnv L keyPlatformVersion [platformVersionEnvVar]
             (viperAutomaticEnv L (viperSetEnvKeyReplacer L envKeyReplacer (viperSetEnvPrefix L envPrefix v))) of
        Inl e \<Rightarrow> Inl (Wrapped (''binding env for key '' @ keyPlatformVersion) e)
      | Inr v' \<Rightarrow> bindKeys L (viperAllKeys L v') v')"

definition mergeStructuredFile :: "('v, 'm) viper_lib \<Rightarrow> 'v \<Rightarrow> string \<Rightarrow> string \<Rightarrow> string \<Rightarrow> goerr + 'v" where
  "mergeStructuredFile L v name ext data =
     (case viperReadConfig L data (viperSetConfigType L ext (viperNew L)) of
        Inl e \<Rightarrow> Inl (Wrapped (''parsing config file '' @ name) e)
      | Inr fv \<Rightarrow>
          (case viperMergeConfigMap L (viperAllSettings L fv) v of
             Inl e \<Rightarrow> Inl (Wrapped (''merging config from '' @ name) e)
           | Inr v' \<Rightarrow> Inr v'))"

text \<open>The loop over the directory: directories, hidden and unreadable entries are skipped.\<close>

fun readEntries :: "('v, 'm) viper_lib \<Rightarrow> fsys \<Rightarrow> dir_entry list \<Rightarrow> 'v \<Rightarrow> goerr + 'v" where
  "readEntries L F [] tmp = Inr tmp"
| "readEntries L F (entry # entries) tmp =
     (if entryIsDir entry \<or> hasPrefix (entryName entry) ''.'' then readEntries L F entries tmp
      else
        (case fsReadFile F (entryName entry) of
           Inl _ \<Rightarrow> readEntries L F entries tmp
         | Inr data \<Rightarrow>
             let ext = trimPrefix (fileExt (entryName entry)) ''.'' in
             if ext \<in> set structuredExtensions
             then
               (case mergeStructuredFile L tmp (entryName entry) ext data of
                  Inl e \<Rightarrow> Inl e
                | Inr tmp' \<Rightarrow> readEntries L F entries tmp')
             else readEntries L F entries (viperSet L (entryName entry) (SStr (trimSpace data)) tmp)))"

definition readFS :: "('v, 'm) viper_lib \<Rightarrow> 'v \<Rightarrow> fsys \<Rightarrow> goerr + 'v" where
  "readFS L v F =
     (case fsReadDir F of
        Inl e \<Rightarrow> Inl (Wrapped ''reading config directory'' e)
      | Inr entries \<Rightarrow>
          (case readEntries L F entries (viperNew L) of
             Inl e \<Rightarrow> Inl e
           | Inr tmp \<Rightarrow>
               (case viperMergeConfigMap L (viperAllSettings L tmp) v of
                  Inl e \<Rightarrow> Inl (Wrapped ''merging config from filesystem'' e)
                | Inr v' \<Rightarrow> Inr v')))"

definition loadFromFS :: "('v, 'm) viper_lib \<Rightarrow> (string \<Rightarrow> string) \<Rightarrow> fsys option \<Rightarrow> goerr + config" where
  "loadFromFS L getenv fs =
     (let v = setDefaults L (viperNew L) in
      case (case fs of None \<Rightarrow> Inr v | Some F \<Rightarrow> readFS L v F) of
        Inl e \<Rightarrow> Inl (Wrapped ''loading config from filesystem'' e)
      | Inr v1 \<Rightarrow>
          (case bindEnv L v1 of
             Inl e \<Rightarrow> Inl (Wrapped ''binding env vars'' e)
           | Inr v2 \<Rightarrow>
               (case viperUnmarshal L getenv v2 zeroConfig of
                  Inl e \<Rightarrow> Inl (Wrapped ''unmarshaling config'' e)
                | Inr cfg \<Rightarrow> Inr cfg)))"

definition loadConfig :: "('v, 'm) viper_lib \<Rightarrow> (string \<Rightarrow> string) \<Rightarrow> (string \<Rightarrow> fsys) \<Rightarrow> goerr + config" where
  "loadConfig L getenv dirFS =
     loadFromFS L getenv (if getenv configPathEnvVar \<noteq> [] then Some (dirFS (getenv configPathEnvVar)) else None)"

end
