(* ===== verification/Manager.thy ===== *)
theory Manager
  imports Controller ConfigLoad
begin

text \<open>
  The start of the operator: \<^verbatim>\<open>pkg/manager/manager.go\<close>, \<^verbatim>\<open>cmd/operator/operator.go\<close> and
  \<^verbatim>\<open>pkg/version/version.go\<close>. The managers of controller-runtime and of the framework are values of an
  abstract type \<open>'g\<close>; the calls on them, the global settings of the ODH libraries and the client
  configuration are arguments. A pointer that may be nil is an option.
\<close>

section \<open>Build metadata\<close>

record build_info =
  buildVersion :: string
  buildCommit :: string
  buildBranch :: string
  buildRepo :: string

definition defaultBuild :: build_info where
  "defaultBuild =
     \<lparr>buildVersion = ''0.0.0-dev'', buildCommit = ''unknown'', buildBranch = ''unknown'', buildRepo = ''unknown''\<rparr>"

definition buildSource :: "build_info \<Rightarrow> string" where
  "buildSource b = buildRepo b @ ''@'' @ buildBranch b @ ''/'' @ buildCommit b"

section \<open>Options\<close>

definition healthCheckName :: string where "healthCheckName = ''healthz''"
definition readyCheckName :: string where "readyCheckName = ''readyz''"

text \<open>The types a scheme knows, by the package that adds them.\<close>

definition newScheme :: "string list" where
  "newScheme = [''clientgoscheme'', ''apiextensionsv1'', ''promv1'', ''componentsv1alpha1'']"

text \<open>What the cache keeps of a kind: every object, or those of some namespaces.\<close>

datatype cache_scope = Everything | InNamespaces "string list"

record ctrl_options =
  optScheme :: "string list"
  optMetricsBindAddress :: string
  optHealthProbeBindAddress :: string
  optPprofBindAddress :: string
  optLeaderElection :: bool
  optLeaderElectionID :: string
  optLeaderElectionReleaseOnCancel :: bool
  optStripUnusedFields :: bool
  optByObject :: "(string \<times> cache_scope) list"
  optClientCacheUnstructured :: bool
  optClientCacheDisableFor :: "string list"

definition managerOptions :: "config \<Rightarrow> ctrl_options" where
  "managerOptions cfg =
     (let nsCache = InNamespaces [cfgApplicationsNamespace cfg]; ctl = cfgController cfg in
      \<lparr>optScheme = newScheme,
       optMetricsBindAddress = metricsBindAddress (ctlMetrics ctl),
       optHealthProbeBindAddress = healthBindAddress (ctlHealth ctl),
       optPprofBindAddress = pprofBindAddress (ctlPprof ctl),
       optLeaderElection = leaderElectionEnabled (ctlLeaderElection ctl),
       optLeaderElectionID = leaderElectionID (ctlLeaderElection ctl),
       optLeaderElectionReleaseOnCancel = True,
       optStripUnusedFields = True,
       optByObject =
         [(''FeastOperator'', Everything), (''CustomResourceDefinition'', Everything),
          (''Deployment'', nsCache), (''Service'', nsCache), (''ServiceAccount'', nsCache),
          (''Role'', nsCache), (''RoleBinding'', nsCache)],
       optClientCacheUnstructured = True,
       optClientCacheDisableFor = [''ConfigMap'', ''Secret'']\<rparr>)"

text \<open>The functional options, of which a nil one is skipped.\<close>

fun applyOptions :: "(ctrl_options \<Rightarrow> ctrl_options) option list \<Rightarrow> ctrl_options \<Rightarrow> ctrl_options" where
  "applyOptions [] opts = opts"
| "applyOptions (None # fs) opts = applyOptions fs opts"
| "applyOptions (Some f # fs) opts = applyOptions fs (f opts)"

section \<open>The manager\<close>

record ('w, 'v, 'g, 'k) manager_lib =
  viperSetGlobal :: "string \<Rightarrow> string \<Rightarrow> 'w \<Rightarrow> 'w"
  setRHAIApplicationNamespace :: "string \<Rightarrow> 'w \<Rightarrow> 'w"
  newCtrlManager :: "'k \<Rightarrow> ctrl_options \<Rightarrow> ('w, 'g) call"
  odhManager :: "string \<Rightarrow> 'g \<Rightarrow> 'g"
  getEventRecorder :: "'g \<Rightarrow> string \<Rightarrow> event \<Rightarrow> 'w \<Rightarrow> 'w"
  buildReconciler :: "'g \<Rightarrow> ('w, 'v) reconciler \<Rightarrow> goerr + ('w, 'v) reconciler"
  addHealthzCheck :: "'g \<Rightarrow> string \<Rightarrow> 'w act"
  addReadyzCheck :: "'g \<Rightarrow> string \<Rightarrow> 'w act"
  startManager :: "'g \<Rightarrow> 'w act"
  setLogger :: "bool \<Rightarrow> 'w \<Rightarrow> 'w"

text \<open>The registration of the reconciler with a manager, whose result the caller drops.\<close>

definition registerReconciler ::
  "('w, 'v, 'g, 'k) manager_lib \<Rightarrow> 'w kube \<Rightarrow> 'u url_lib \<Rightarrow> 'v semver \<Rightarrow> ('w, 'v) framework \<Rightarrow> platforms \<Rightarrow> 'g \<Rightarrow>
   config \<Rightarrow> 'w act"
  where
  "registerReconciler L K U S F P mgr cfg w =
     (case newReconciler K U S F P (Some (getEventRecorder L mgr componentName)) (buildReconciler L mgr) cfg
             (configRelease S cfg) w of
        (Inl e, w') \<Rightarrow> (Some e, w')
      | (Inr _, w') \<Rightarrow> (None, w'))"

definition newManager ::
  "('w, 'v, 'g, 'k) manager_lib \<Rightarrow> 'w kube \<Rightarrow> 'u url_lib \<Rightarrow> 'v semver \<Rightarrow> ('w, 'v) framework \<Rightarrow> platforms \<Rightarrow>
   'k option \<Rightarrow> config option \<Rightarrow> (ctrl_options \<Rightarrow> ctrl_options) option list \<Rightarrow> ('w, 'g) call"
  where
  "newManager L K U S F P kubeConfig config opts w =
     (case (kubeConfig, config) of
        (None, _) \<Rightarrow> (Inl (Msg ''kubeconfig is nil''), w)
      | (Some _, None) \<Rightarrow> (Inl (Msg ''config is nil''), w)
      | (Some kc, Some cfg) \<Rightarrow>
          let w1 = setRHAIApplicationNamespace L (cfgApplicationsNamespace cfg)
                     (viperSetGlobal L ''rhai-applications-namespace'' (cfgApplicationsNamespace cfg) w) in
          (case newCtrlManager L kc (applyOptions opts (managerOptions cfg)) w1 of
             (Inl e, w2) \<Rightarrow> (Inl (Wrapped ''creating manager'' e), w2)
           | (Inr ctrlMgr, w2) \<Rightarrow>
               let mgr = odhManager L (cfgManifestsPath cfg) ctrlMgr in
               (case andThen (wrapErr ''creating feastoperator reconciler'' (registerReconciler L K U S F P mgr cfg))
                       (andThen (wrapErr ''setting up health check'' (addHealthzCheck L mgr healthCheckName))
                         (wrapErr ''setting up ready check'' (addReadyzCheck L mgr readyCheckName))) w2 of
                  (Some e, w3) \<Rightarrow> (Inl e, w3)
                | (None, w3) \<Rightarrow> (Inr mgr, w3))))"

text \<open>
  The command. \<open>ctrl.GetConfigOrDie\<close> ends the process where there is no client configuration; that
  is the error \<open>Panic\<close> here.
\<close>

definition runOperator ::
  "('w, 'v, 'g, 'k) manager_lib \<Rightarrow> 'w kube \<Rightarrow> 'u url_lib \<Rightarrow> 'v semver \<Rightarrow> ('w, 'v) framework \<Rightarrow> platforms \<Rightarrow>
   ('c, 'm) viper_lib \<Rightarrow> (string \<Rightarrow> string) \<Rightarrow> (string \<Rightarrow> fsys) \<Rightarrow> 'k option \<Rightarrow> 'w act"
  where
  "runOperator L K U S F P VL getenv dirFS kubeConfig w =
     (case loadConfig VL getenv dirFS of
        Inl e \<Rightarrow> (Some (Wrapped ''loading operator config'' e), w)
      | Inr cfg \<Rightarrow>
          let w1 = setLogger L False w in
          (case kubeConfig of
             None \<Rightarrow> (Some (Panic ''unable to get kubeconfig''), w1)
           | Some kc \<Rightarrow>
               (case newManager L K U S F P (Some kc) (Some cfg) [] w1 of
                  (Inl e, w2) \<Rightarrow> (Some e, w2)
                | (Inr mgr, w2) \<Rightarrow> startManager L mgr w2)))"

section \<open>Stages of a successful start\<close>

text \<open>The module that serves the requests of a started operator.\<close>

definition serves :: "('w, 'v, 'g, 'k) manager_lib \<Rightarrow> 'g \<Rightarrow> config \<Rightarrow> 'w module \<Rightarrow> bool" where
  "serves L mgr cfg m \<longleftrightarrow> mCfg m = cfg \<and> mRecorder m = Some (getEventRecorder L mgr componentName)"

lemma registerReconciler_ok:
  assumes "registerReconciler L K U S F P mgr cfg w = (None, w')"
  obtains m r where "serves L mgr cfg m" "manifestSourcePath (mManifestInfo m) = overlayFor P (cfgPlatformType cfg)"
    "buildReconciler L mgr
       \<lparr>rcWatches = watches K, rcActions = pipeline K U S F m, rcFinalizer = cleanupClusterResources K m,
        rcConditions = [''DeploymentsAvailable''], rcRelease = None\<rparr> = Inr r"
proof -
  obtain m0 where m0: "newModule K P cfg w = (Inr m0, w')" "\<exists>r. buildReconciler L mgr
       \<lparr>rcWatches = watches K, rcActions = pipeline K U S F (m0\<lparr>mRecorder := Some (getEventRecorder L mgr componentName)\<rparr>),
        rcFinalizer = cleanupClusterResources K (m0\<lparr>mRecorder := Some (getEventRecorder L mgr componentName)\<rparr>),
        rcConditions = [''DeploymentsAvailable''], rcRelease = None\<rparr> = Inr r"
    using assms by (auto simp: registerReconciler_def newReconciler_def Let_def split: prod.splits sum.splits)
  with newModule_ok [OF m0(1)] that [of "m0\<lparr>mRecorder := Some (getEventRecorder L mgr componentName)\<rparr>"]
  show thesis by (auto simp: serves_def)
qed

lemma newManager_ok:
  assumes "newManager L K U S F P kubeConfig config opts w = (Inr mgr, w')"
  obtains kc cfg ctrlMgr v1 v2 v3 where "kubeConfig = Some kc" "config = Some cfg"
    "newCtrlManager L kc (applyOptions opts (managerOptions cfg)) v1 = (Inr ctrlMgr, v2)"
    "mgr = odhManager L (cfgManifestsPath cfg) ctrlMgr"
    "registerReconciler L K U S F P mgr cfg v2 = (None, v3)"
  using assms
  by (auto simp: newManager_def Let_def split: option.splits prod.splits sum.splits elim!: andThen_okE)

end
