(* ===== verification/ConfigLaws.thy ===== *)
theory ConfigLaws
  imports ConfigLoad
begin

text \<open>
  What is assumed of viper, over a view of a store as layers: explicit settings, environment
  bindings, configuration and defaults, in the order of precedence that viper documents. Keys are
  lower case and flat, nested maps being joined by dots; this holds where no key is a path through
  another, which \<open>prefixFree\<close> states.
\<close>

section \<open>Layers\<close>

record layers =
  lyOverride :: "string \<Rightarrow> setting option"
  lyConfig :: "string \<Rightarrow> setting option"
  lyDefault :: "string \<Rightarrow> setting option"
  lyEnvNames :: "string \<Rightarrow> string list"
  lyPrefix :: string
  lyReplace :: "string \<Rightarrow> string"
  lyAutomatic :: bool

definition emptyLayers :: layers where
  "emptyLayers =
     \<lparr>lyOverride = Map.empty, lyConfig = Map.empty, lyDefault = Map.empty, lyEnvNames = (\<lambda>_. []),
      lyPrefix = [], lyReplace = (\<lambda>s. s), lyAutomatic = False\<rparr>"

definition layerKeys :: "layers \<Rightarrow> string set" where
  "layerKeys y = dom (lyOverride y) \<union> dom (lyConfig y) \<union> dom (lyDefault y)"

definition prefixFree :: "string set \<Rightarrow> bool" where
  "prefixFree A \<longleftrightarrow> (\<forall>k \<in> A. \<forall>k' \<in> A. \<not> hasPrefix k' (k @ ''.''))"

lemma prefixFree_subset: "prefixFree A \<Longrightarrow> B \<subseteq> A \<Longrightarrow> prefixFree B"
  by (auto simp: prefixFree_def)

definition orElse :: "'a option \<Rightarrow> 'a option \<Rightarrow> 'a option" where
  "orElse a b = (case a of Some x \<Rightarrow> Some x | None \<Rightarrow> b)"

lemma orElse_simps [simp]: "orElse None b = b" "orElse (Some x) b = Some x" "orElse a None = a"
  by (simp_all add: orElse_def split: option.splits)

lemma orElse_assoc: "orElse (orElse a b) c = orElse a (orElse b c)"
  by (cases a) simp_all

lemma orElse_None [simp]: "orElse a b = None \<longleftrightarrow> a = None \<and> b = None"
  by (cases a) simp_all

text \<open>\<open>strings.ToUpper\<close> on ASCII text, and the environment variable of a key.\<close>

definition toUpperChar :: "char \<Rightarrow> char" where
  "toUpperChar c =
     (let n = (of_char c :: nat) in if 97 \<le> n \<and> n \<le> 122 then char_of (n - 32) else c)"

definition toUpper :: "string \<Rightarrow> string" where
  "toUpper s = map toUpperChar s"

definition prefixedName :: "layers \<Rightarrow> string \<Rightarrow> string" where
  "prefixedName y k = toUpper (lyPrefix y @ ''_'' @ k)"

text \<open>The first variable that is set and not empty.\<close>

definition firstSet :: "(string \<Rightarrow> string) \<Rightarrow> string list \<Rightarrow> setting option" where
  "firstSet getenv names = map_option (\<lambda>n. SStr (getenv n)) (find (\<lambda>n. getenv n \<noteq> []) names)"

definition envLookup :: "(string \<Rightarrow> string) \<Rightarrow> layers \<Rightarrow> string \<Rightarrow> setting option" where
  "envLookup getenv y k =
     firstSet getenv (map (lyReplace y) ((if lyAutomatic y then [prefixedName y k] else []) @ lyEnvNames y k))"

definition effective :: "(string \<Rightarrow> string) \<Rightarrow> layers \<Rightarrow> string \<Rightarrow> setting option" where
  "effective getenv y k =
     orElse (lyOverride y k) (orElse (envLookup getenv y k) (orElse (lyConfig y k) (lyDefault y k)))"

text \<open>With automatic variables a set variable of a proper part of the path hides the key.\<close>

definition unshadowed :: "(string \<Rightarrow> string) \<Rightarrow> layers \<Rightarrow> bool" where
  "unshadowed getenv y \<longleftrightarrow>
     (\<forall>k \<in> layerKeys y. \<forall>p q. k = p @ ''.'' @ q \<longrightarrow> getenv (lyReplace y (prefixedName y p)) = [])"

section \<open>Decoding\<close>

text \<open>The fields of the configuration by key, and the weakly typed conversions of \<open>Unmarshal\<close>.\<close>

definition stringFields :: "(string \<times> (config \<Rightarrow> string)) list" where
  "stringFields =
     [(keyManifestsPath, cfgManifestsPath),
      (keyApplicationsNS, cfgApplicationsNamespace),
      (keyPlatformType, cfgPlatformType),
      (keyPlatformVersion, cfgPlatformVersion),
      (keyMetricsBindAddr, \<lambda>c. metricsBindAddress (ctlMetrics (cfgController c))),
      (keyHealthBindAddr, \<lambda>c. healthBindAddress (ctlHealth (cfgController c))),
      (keyLeaderElectID, \<lambda>c. leaderElectionID (ctlLeaderElection (cfgController c))),
      (keyZapLevel, \<lambda>c. zapLevel (ctlZap (cfgController c))),
      (keyPprofBindAddr, \<lambda>c. pprofBindAddress (ctlPprof (cfgController c)))]"

definition boolFields :: "(string \<times> (config \<Rightarrow> bool)) list" where
  "boolFields =
     [(keyFeatureStoreEnabled, cfgFeatureStoreEnabled),
      (keyDataRegistryEnabled, cfgDataRegistryEnabled),
      (keyLeaderElectEnabled, \<lambda>c. leaderElectionEnabled (ctlLeaderElection (cfgController c))),
      (keyPprofEnabled, \<lambda>c. pprofEnabled (ctlPprof (cfgController c)))]"

definition settingString :: "setting \<Rightarrow> string" where
  "settingString s = (case s of SStr t \<Rightarrow> t | SBool b \<Rightarrow> if b then ''1'' else ''0'')"

definition parseBool :: "string \<Rightarrow> bool option" where
  "parseBool s =
     (if s \<in> set [''1'', ''t'', ''T'', ''TRUE'', ''true'', ''True''] then Some True
      else if s \<in> set [''0'', ''f'', ''F'', ''FALSE'', ''false'', ''False''] then Some False
      else None)"

definition settingBool :: "setting \<Rightarrow> bool option" where
  "settingBool s = (case s of SBool b \<Rightarrow> Some b | SStr [] \<Rightarrow> Some False | SStr t \<Rightarrow> parseBool t)"

definition decodes :: "(string \<Rightarrow> setting option) \<Rightarrow> config \<Rightarrow> bool" where
  "decodes look cfg \<longleftrightarrow>
     (\<forall>(k, sel) \<in> set stringFields. \<forall>s. look (toLower k) = Some s \<longrightarrow> sel cfg = settingString s) \<and>
     (\<forall>(k, sel) \<in> set boolFields. \<forall>s. look (toLower k) = Some s \<longrightarrow> settingBool s = Some (sel cfg))"

section \<open>The laws\<close>

definition putDefault :: "string \<Rightarrow> setting \<Rightarrow> layers \<Rightarrow> layers" where
  "putDefault k s y = y\<lparr>lyDefault := (lyDefault y)(toLower k \<mapsto> s)\<rparr>"

definition putOverride :: "string \<Rightarrow> setting \<Rightarrow> layers \<Rightarrow> layers" where
  "putOverride k s y = y\<lparr>lyOverride := (lyOverride y)(toLower k \<mapsto> s)\<rparr>"

definition putConfig :: "(string \<Rightarrow> setting option) \<Rightarrow> layers \<Rightarrow> layers" where
  "putConfig m y = y\<lparr>lyConfig := (\<lambda>k. orElse (m k) (lyConfig y k))\<rparr>"

definition putEnvNames :: "string \<Rightarrow> string list \<Rightarrow> layers \<Rightarrow> layers" where
  "putEnvNames k names y =
     y\<lparr>lyEnvNames := (lyEnvNames y)(toLower k :=
         lyEnvNames y (toLower k) @ (if names = [] then [prefixedName y (toLower k)] else names))\<rparr>"

definition settingsOf :: "layers \<Rightarrow> string \<Rightarrow> setting option" where
  "settingsOf y k = orElse (lyOverride y k) (orElse (lyConfig y k) (lyDefault y k))"

text \<open>The laws of the stores without environment, of the environment, and of decoding.\<close>

definition store_laws ::
  "('v, 'm) viper_lib \<Rightarrow> ('v \<Rightarrow> layers) \<Rightarrow> ('m \<Rightarrow> string \<Rightarrow> setting option) \<Rightarrow> (string \<Rightarrow> string \<Rightarrow> string \<Rightarrow> setting option) \<Rightarrow> bool"
  where
  "store_laws L view flat parsed \<longleftrightarrow>
     view (viperNew L) = emptyLayers \<and>
     (\<forall>k s v. prefixFree (layerKeys (putDefault k s (view v))) \<longrightarrow> view (viperSetDefault L k s v) = putDefault k s (view v)) \<and>
     (\<forall>k s v. prefixFree (layerKeys (putOverride k s (view v))) \<longrightarrow> view (viperSet L k s v) = putOverride k s (view v)) \<and>
     (\<forall>ext data v. viperReadConfig L data (viperSetConfigType L ext (viperNew L)) = Inr v \<longrightarrow>
        prefixFree (dom (parsed ext data)) \<longrightarrow> view v = putConfig (parsed ext data) emptyLayers) \<and>
     (\<forall>v. lyEnvNames (view v) = (\<lambda>_. []) \<longrightarrow> \<not> lyAutomatic (view v) \<longrightarrow> prefixFree (layerKeys (view v)) \<longrightarrow>
        flat (viperAllSettings L v) = settingsOf (view v)) \<and>
     (\<forall>nested v v'. viperMergeConfigMap L nested v = Inr v' \<longrightarrow>
        prefixFree (layerKeys (putConfig (flat nested) (view v))) \<longrightarrow> view v' = putConfig (flat nested) (view v))"

definition env_laws :: "('v, 'm) viper_lib \<Rightarrow> ('v \<Rightarrow> layers) \<Rightarrow> bool" where
  "env_laws L view \<longleftrightarrow>
     (\<forall>p v. view (viperSetEnvPrefix L p v) = (view v)\<lparr>lyPrefix := p\<rparr>) \<and>
     (\<forall>f v. view (viperSetEnvKeyReplacer L f v) = (view v)\<lparr>lyReplace := f\<rparr>) \<and>
     (\<forall>v. view (viperAutomaticEnv L v) = (view v)\<lparr>lyAutomatic := True\<rparr>) \<and>
     (\<forall>k names v v'. viperBindEnv L k names v = Inr v' \<longrightarrow> view v' = putEnvNames k names (view v))"

definition decode_laws :: "('v, 'm) viper_lib \<Rightarrow> ('v \<Rightarrow> layers) \<Rightarrow> bool" where
  "decode_laws L view \<longleftrightarrow>
     (\<forall>getenv v c cfg. viperUnmarshal L getenv v c = Inr cfg \<longrightarrow> prefixFree (layerKeys (view v)) \<longrightarrow>
        unshadowed getenv (view v) \<longrightarrow> decodes (effective getenv (view v)) cfg)"

lemma store_lawsD:
  assumes "store_laws L view flat parsed"
  shows "view (viperNew L) = emptyLayers"
    "prefixFree (layerKeys (putDefault k s (view v))) \<Longrightarrow> view (viperSetDefault L k s v) = putDefault k s (view v)"
    "prefixFree (layerKeys (putOverride k s (view v))) \<Longrightarrow> view (viperSet L k s v) = putOverride k s (view v)"
    "viperReadConfig L data (viperSetConfigType L ext (viperNew L)) = Inr v \<Longrightarrow> prefixFree (dom (parsed ext data)) \<Longrightarrow>
       view v = putConfig (parsed ext data) emptyLayers"
    "lyEnvNames (view v) = (\<lambda>_. []) \<Longrightarrow> \<not> lyAutomatic (view v) \<Longrightarrow> prefixFree (layerKeys (view v)) \<Longrightarrow>
       flat (viperAllSettings L v) = settingsOf (view v)"
    "viperMergeConfigMap L nested v = Inr v' \<Longrightarrow> prefixFree (layerKeys (putConfig (flat nested) (view v))) \<Longrightarrow>
       view v' = putConfig (flat nested) (view v)"
  using assms unfolding store_laws_def by blast+

lemma env_lawsD:
  assumes "env_laws L view"
  shows "view (viperSetEnvPrefix L p v) = (view v)\<lparr>lyPrefix := p\<rparr>"
    "view (viperSetEnvKeyReplacer L f v) = (view v)\<lparr>lyReplace := f\<rparr>"
    "view (viperAutomaticEnv L v) = (view v)\<lparr>lyAutomatic := True\<rparr>"
    "viperBindEnv L k names v = Inr v' \<Longrightarrow> view v' = putEnvNames k names (view v)"
  using assms unfolding env_laws_def by blast+

section \<open>Keys of layers\<close>

lemma layerKeys_put [simp]:
  "layerKeys emptyLayers = {}"
  "layerKeys (putDefault k s y) = insert (toLower k) (layerKeys y)"
  "layerKeys (putOverride k s y) = insert (toLower k) (layerKeys y)"
  "layerKeys (putConfig m y) = dom m \<union> layerKeys y"
  "layerKeys (putEnvNames k names y) = layerKeys y"
  "layerKeys (y\<lparr>lyPrefix := p\<rparr>) = layerKeys y" "layerKeys (y\<lparr>lyReplace := f\<rparr>) = layerKeys y"
  "layerKeys (y\<lparr>lyAutomatic := b\<rparr>) = layerKeys y"
  by (auto simp: layerKeys_def emptyLayers_def putDefault_def putOverride_def putConfig_def putEnvNames_def
      orElse_def split: option.splits)

lemma dom_settingsOf [simp]: "dom (settingsOf y) = layerKeys y"
  by (auto simp: settingsOf_def layerKeys_def orElse_def split: option.splits)

end
