(* ===== verification/ConfigProofs.thy ===== *)
theory ConfigProofs
  imports ConfigLaws
begin

text \<open>
  The layers of the store after each stage of the loading: the defaults, the directory, the
  environment bindings.
\<close>

section \<open>What a directory says\<close>

definition entryData :: "fsys \<Rightarrow> dir_entry \<Rightarrow> string option" where
  "entryData F e =
     (if entryIsDir e \<or> hasPrefix (entryName e) ''.'' then None
      else (case fsReadFile F (entryName e) of Inl _ \<Rightarrow> None | Inr data \<Rightarrow> Some data))"

definition entryExt :: "dir_entry \<Rightarrow> string" where
  "entryExt e = trimPrefix (fileExt (entryName e)) ''.''"

text \<open>A plain file sets one key to its trimmed text; a structured one sets what it says.\<close>

definition plainSetting :: "fsys \<Rightarrow> string \<Rightarrow> dir_entry \<Rightarrow> setting option" where
  "plainSetting F k e =
     (case entryData F e of
        None \<Rightarrow> None
      | Some data \<Rightarrow>
          if entryExt e \<notin> set structuredExtensions \<and> toLower (entryName e) = k then Some (SStr (trimSpace data)) else None)"

definition structuredSetting :: "(string \<Rightarrow> string \<Rightarrow> string \<Rightarrow> setting option) \<Rightarrow> fsys \<Rightarrow> string \<Rightarrow> dir_entry \<Rightarrow> setting option" where
  "structuredSetting parsed F k e =
     (case entryData F e of
        None \<Rightarrow> None
      | Some data \<Rightarrow> if entryExt e \<in> set structuredExtensions then parsed (entryExt e) data k else None)"

text \<open>The last entry that sets the key.\<close>

fun lastOr :: "('a \<Rightarrow> 'b option) \<Rightarrow> 'a list \<Rightarrow> 'b option \<Rightarrow> 'b option" where
  "lastOr f [] acc = acc"
| "lastOr f (x # xs) acc = lastOr f xs (orElse (f x) acc)"

lemma lastOr_orElse: "lastOr f xs acc = orElse (lastOr f xs None) acc"
proof (induction xs arbitrary: acc)
  case (Cons x xs)
  from Cons.IH [of "orElse (f x) acc"] Cons.IH [of "f x"] show ?case by (simp add: orElse_assoc)
qed simp

lemma lastOr_None: "lastOr f xs None = None \<longleftrightarrow> (\<forall>x \<in> set xs. f x = None)"
proof (induction xs)
  case (Cons x xs)
  with lastOr_orElse [of f xs "f x"] show ?case by auto
qed simp

definition entryKeys :: "(string \<Rightarrow> string \<Rightarrow> string \<Rightarrow> setting option) \<Rightarrow> fsys \<Rightarrow> dir_entry \<Rightarrow> string set" where
  "entryKeys parsed F e = {k. plainSetting F k e \<noteq> None \<or> structuredSetting parsed F k e \<noteq> None}"

definition fileSetting :: "(string \<Rightarrow> string \<Rightarrow> string \<Rightarrow> setting option) \<Rightarrow> fsys option \<Rightarrow> string \<Rightarrow> setting option" where
  "fileSetting parsed fs k =
     (case fs of
        None \<Rightarrow> None
      | Some F \<Rightarrow>
          (case fsReadDir F of
             Inl _ \<Rightarrow> None
           | Inr entries \<Rightarrow>
               orElse (lastOr (plainSetting F k) entries None) (lastOr (structuredSetting parsed F k) entries None)))"

lemma fileSetting_keys:
  assumes "fsReadDir F = Inr entries"
  shows "dom (fileSetting parsed (Some F)) = (\<Union>e \<in> set entries. entryKeys parsed F e)"
proof -
  have "fileSetting parsed (Some F) k = None \<longleftrightarrow> k \<notin> (\<Union>e \<in> set entries. entryKeys parsed F e)" for k
    using assms by (auto simp: fileSetting_def entryKeys_def lastOr_None simp del: not_None_eq)
  then show ?thesis by (auto simp: dom_def simp del: not_None_eq)
qed

section \<open>Reading the directory\<close>

definition entryLayers :: "(string \<Rightarrow> string \<Rightarrow> string \<Rightarrow> setting option) \<Rightarrow> fsys \<Rightarrow> dir_entry \<Rightarrow> layers \<Rightarrow> layers" where
  "entryLayers parsed F e y =
     y\<lparr>lyOverride := (\<lambda>k. orElse (plainSetting F k e) (lyOverride y k)),
       lyConfig := (\<lambda>k. orElse (structuredSetting parsed F k e) (lyConfig y k))\<rparr>"

lemma entryLayers_keys: "layerKeys (entryLayers parsed F e y) = entryKeys parsed F e \<union> layerKeys y"
  by (auto simp: layerKeys_def entryLayers_def entryKeys_def)

lemma mergeStructuredFile_view:
  assumes laws: "store_laws L view flat parsed" and merge: "mergeStructuredFile L v name ext data = Inr v'"
    and free: "prefixFree (dom (parsed ext data) \<union> layerKeys (view v))"
  shows "view v' = putConfig (parsed ext data) (view v)"
proof -
  obtain fv where fv: "viperReadConfig L data (viperSetConfigType L ext (viperNew L)) = Inr fv"
    "viperMergeConfigMap L (viperAllSettings L fv) v = Inr v'"
    using merge by (auto simp: mergeStructuredFile_def split: sum.splits)
  have free': "prefixFree (dom (parsed ext data))" using free by (rule prefixFree_subset) blast
  have view: "view fv = putConfig (parsed ext data) emptyLayers" using store_lawsD(4) [OF laws fv(1) free'] .
  have "flat (viperAllSettings L fv) = settingsOf (view fv)"
    using free' by (intro store_lawsD(5) [OF laws]) (simp_all add: view, simp_all add: putConfig_def emptyLayers_def)
  then have "flat (viperAllSettings L fv) = parsed ext data"
    by (simp add: view putConfig_def emptyLayers_def settingsOf_def [abs_def])
  with store_lawsD(6) [OF laws fv(2)] free show ?thesis by simp
qed

lemma readEntries_step:
  assumes laws: "store_laws L view flat parsed" and read: "readEntries L F (e # entries) tmp = Inr tmp'"
    and free: "prefixFree (entryKeys parsed F e \<union> layerKeys (view tmp))"
  obtains tmp1 where "readEntries L F entries tmp1 = Inr tmp'" "view tmp1 = entryLayers parsed F e (view tmp)"
proof (cases "entryData F e")
  case None
  then have "readEntries L F entries tmp = Inr tmp'" using read by (auto simp: entryData_def split: if_splits sum.splits)
  moreover have "view tmp = entryLayers parsed F e (view tmp)"
    by (simp add: entryLayers_def plainSetting_def structuredSetting_def None)
  ultimately show thesis by (rule that)
next
  case (Some data)
  then have data: "\<not> (entryIsDir e \<or> hasPrefix (entryName e) ''.'')" "fsReadFile F (entryName e) = Inr data"
    by (auto simp: entryData_def split: if_splits sum.splits)
  show thesis
  proof (cases "entryExt e \<in> set structuredExtensions")
    case True
    with read data obtain tmp1 where "mergeStructuredFile L tmp (entryName e) (entryExt e) data = Inr tmp1"
      "readEntries L F entries tmp1 = Inr tmp'"
      by (auto simp: Let_def entryExt_def split: sum.splits)
    moreover have "entryKeys parsed F e = dom (parsed (entryExt e) data)"
      by (auto simp: entryKeys_def plainSetting_def structuredSetting_def Some True)
    ultimately have "view tmp1 = putConfig (parsed (entryExt e) data) (view tmp)"
      using mergeStructuredFile_view [OF laws] free by simp
    then have "view tmp1 = entryLayers parsed F e (view tmp)"
      by (simp add: entryLayers_def putConfig_def plainSetting_def structuredSetting_def Some True)
    with \<open>readEntries L F entries tmp1 = Inr tmp'\<close> show thesis by (rule that)
  next
    case False
    let ?tmp1 = "viperSet L (entryName e) (SStr (trimSpace data)) tmp"
    have "readEntries L F entries ?tmp1 = Inr tmp'" using read data False by (simp add: Let_def entryExt_def)
    moreover have "entryKeys parsed F e = {toLower (entryName e)}"
      by (auto simp: entryKeys_def plainSetting_def structuredSetting_def Some False)
    then have "view ?tmp1 = putOverride (entryName e) (SStr (trimSpace data)) (view tmp)"
      using free by (intro store_lawsD(3) [OF laws]) simp
    then have "view ?tmp1 = entryLayers parsed F e (view tmp)"
      by (auto simp: entryLayers_def putOverride_def plainSetting_def structuredSetting_def Some False fun_eq_iff)
    ultimately show thesis by (rule that)
  qed
qed

lemma readEntries_view:
  assumes laws: "store_laws L view flat parsed"
  shows "readEntries L F entries tmp = Inr tmp' \<Longrightarrow>
    prefixFree ((\<Union>e \<in> set entries. entryKeys parsed F e) \<union> layerKeys (view tmp)) \<Longrightarrow>
    view tmp' = (view tmp)\<lparr>lyOverride := (\<lambda>k. lastOr (plainSetting F k) entries (lyOverride (view tmp) k)),
      lyConfig := (\<lambda>k. lastOr (structuredSetting parsed F k) entries (lyConfig (view tmp) k))\<rparr>"
proof (induction entries arbitrary: tmp)
  case (Cons e entries)
  have "prefixFree (entryKeys parsed F e \<union> layerKeys (view tmp))"
    using Cons.prems(2) by (rule prefixFree_subset) auto
  with laws Cons.prems(1) obtain tmp1 where tmp1: "readEntries L F entries tmp1 = Inr tmp'"
    "view tmp1 = entryLayers parsed F e (view tmp)" by (rule readEntries_step)
  moreover have "prefixFree ((\<Union>e \<in> set entries. entryKeys parsed F e) \<union> layerKeys (view tmp1))"
    using Cons.prems(2) by (rule prefixFree_subset) (auto simp: tmp1(2) entryLayers_keys)
  ultimately show ?case using Cons.IH by (simp add: entryLayers_def)
qed simp

lemma readFS_view:
  assumes laws: "store_laws L view flat parsed" and read: "readFS L v F = Inr v'"
    and free: "prefixFree (dom (fileSetting parsed (Some F)) \<union> layerKeys (view v))"
  shows "view v' = putConfig (fileSetting parsed (Some F)) (view v)"
proof -
  obtain entries tmp where tmp: "fsReadDir F = Inr entries" "readEntries L F entries (viperNew L) = Inr tmp"
    "viperMergeConfigMap L (viperAllSettings L tmp) v = Inr v'"
    using read by (auto simp: readFS_def split: sum.splits)
  have keys: "dom (fileSetting parsed (Some F)) = (\<Union>e \<in> set entries. entryKeys parsed F e)"
    using tmp(1) by (rule fileSetting_keys)
  have "prefixFree (dom (fileSetting parsed (Some F)))" using free by (rule prefixFree_subset) blast
  then have view: "view tmp = emptyLayers\<lparr>lyOverride := (\<lambda>k. lastOr (plainSetting F k) entries None),
      lyConfig := (\<lambda>k. lastOr (structuredSetting parsed F k) entries None)\<rparr>"
    using readEntries_view [OF laws tmp(2)] by (simp add: keys store_lawsD(1) [OF laws] emptyLayers_def layerKeys_def)
  have "settingsOf (view tmp) = fileSetting parsed (Some F)"
    by (rule ext) (simp add: settingsOf_def view emptyLayers_def fileSetting_def tmp(1))
  moreover from this have "layerKeys (view tmp) = dom (fileSetting parsed (Some F))"
    using dom_settingsOf [of "view tmp"] by simp
  ultimately have "flat (viperAllSettings L tmp) = fileSetting parsed (Some F)"
    using store_lawsD(5) [OF laws, of tmp] \<open>prefixFree (dom (fileSetting parsed (Some F)))\<close>
    by (simp add: view emptyLayers_def)
  with store_lawsD(6) [OF laws tmp(3)] free show ?thesis by simp
qed

section \<open>Defaults\<close>

lemma foldl_defaults_view:
  assumes laws: "store_laws L view flat parsed"
  shows "prefixFree (toLower ` fst ` set ds \<union> layerKeys (view v)) \<Longrightarrow>
    view (foldl (\<lambda>v (k, s). viperSetDefault L k s v) v ds) = foldl (\<lambda>y (k, s). putDefault k s y) (view v) ds"
proof (induction ds arbitrary: v)
  case (Cons d ds)
  obtain k s where d: "d = (k, s)" by fastforce
  have "prefixFree (layerKeys (putDefault k s (view v)))"
    using Cons.prems by (rule prefixFree_subset) (auto simp: d)
  then have view: "view (viperSetDefault L k s v) = putDefault k s (view v)" by (rule store_lawsD(2) [OF laws])
  moreover have "prefixFree (toLower ` fst ` set ds \<union> layerKeys (view (viperSetDefault L k s v)))"
    using Cons.prems by (rule prefixFree_subset) (auto simp: d view)
  ultimately show ?case using Cons.IH by (simp add: d)
qed simp

definition settingKeys :: "string set" where
  "settingKeys = toLower ` fst ` set settingDefaults"

definition defaultLayers :: layers where
  "defaultLayers = foldl (\<lambda>y (k, s). putDefault k s y) emptyLayers settingDefaults"

lemma setDefaults_view:
  assumes "store_laws L view flat parsed" "prefixFree settingKeys"
  shows "view (setDefaults L (viperNew L)) = defaultLayers"
  using foldl_defaults_view [OF assms(1), of settingDefaults "viperNew L"] assms(2)
  by (simp add: setDefaults_def defaultLayers_def settingKeys_def store_lawsD(1) [OF assms(1)])

section \<open>The environment\<close>

lemma bindKeys_view:
  assumes "env_laws L view"
  shows "bindKeys L ks v = Inr v' \<Longrightarrow>
    \<exists>extra. view v' = (view v)\<lparr>lyEnvNames := (\<lambda>q. lyEnvNames (view v) q @ extra q)\<rparr> \<and>
      (\<forall>q. set (extra q) \<subseteq> {prefixedName (view v) q})"
proof (induction ks arbitrary: v)
  case Nil
  then show ?case by (intro exI [of _ "\<lambda>_. []"]) simp
next
  case (Cons k ks)
  then obtain v1 where v1: "viperBindEnv L k [] v = Inr v1" "bindKeys L ks v1 = Inr v'"
    by (auto split: sum.splits)
  have view: "view v1 = putEnvNames k [] (view v)" using env_lawsD(4) [OF assms v1(1)] .
  from Cons.IH [OF v1(2)] obtain extra where extra:
    "view v' = (view v1)\<lparr>lyEnvNames := (\<lambda>q. lyEnvNames (view v1) q @ extra q)\<rparr>"
    "\<forall>q. set (extra q) \<subseteq> {prefixedName (view v1) q}" by blast
  let ?extra = "\<lambda>q. (if q = toLower k then [prefixedName (view v) q] else []) @ extra q"
  have "view v' = (view v)\<lparr>lyEnvNames := (\<lambda>q. lyEnvNames (view v) q @ ?extra q)\<rparr>"
    using extra(1) by (auto simp: view putEnvNames_def fun_eq_iff)
  moreover have "prefixedName (view v1) q = prefixedName (view v) q" for q
    by (simp add: view putEnvNames_def prefixedName_def)
  with extra(2) have "\<forall>q. set (?extra q) \<subseteq> {prefixedName (view v) q}" by auto
  ultimately show ?case by (intro exI [of _ ?extra] conjI)
qed

text \<open>The variables of a key: the automatic one, and the explicit one of the platform version.\<close>

definition envName :: "string \<Rightarrow> string" where
  "envName k = envKeyReplacer (toUpper (envPrefix @ ''_'' @ k))"

definition envVars :: "string \<Rightarrow> string list" where
  "envVars k = envName k # (if k = toLower keyPlatformVersion then [platformVersionEnvVar] else [])"

lemma find_orElse: "find P (xs @ ys) = orElse (find P xs) (find P ys)"
  by (induction xs) simp_all

lemma firstSet_more:
  assumes "set ys \<subseteq> set xs"
  shows "firstSet getenv (xs @ ys) = firstSet getenv xs"
proof (cases "find (\<lambda>n. getenv n \<noteq> []) xs")
  case None
  with assms have "find (\<lambda>n. getenv n \<noteq> []) ys = None" by (auto simp: find_None_iff)
  then show ?thesis by (simp add: firstSet_def find_orElse)
qed (simp add: firstSet_def find_orElse)

lemma bindEnv_view:
  assumes laws: "env_laws L view" and bound: "bindEnv L v = Inr v'"
    and plain: "lyEnvNames (view v) = (\<lambda>_. [])"
  shows "\<exists>names. view v' = (view v)\<lparr>lyPrefix := envPrefix, lyReplace := envKeyReplacer, lyAutomatic := True, lyEnvNames := names\<rparr>"
    and "envLookup getenv (view v') k = firstSet getenv (envVars k)"
proof -
  let ?v = "viperAutomaticEnv L (viperSetEnvKeyReplacer L envKeyReplacer (viperSetEnvPrefix L envPrefix v))"
  let ?y = "(view v)\<lparr>lyPrefix := envPrefix, lyReplace := envKeyReplacer, lyAutomatic := True\<rparr>"
  obtain v1 where v1: "viperBindEnv L keyPlatformVersion [platformVersionEnvVar] ?v = Inr v1"
    "bindKeys L (viperAllKeys L v1) v1 = Inr v'"
    using bound by (auto simp: bindEnv_def split: sum.splits)
  have "view ?v = ?y" by (simp add: env_lawsD(1-3) [OF laws])
  then have view1: "view v1 = putEnvNames keyPlatformVersion [platformVersionEnvVar] ?y"
    using env_lawsD(4) [OF laws v1(1)] by simp
  from bindKeys_view [OF laws v1(2)] obtain extra where extra:
    "view v' = (view v1)\<lparr>lyEnvNames := (\<lambda>q. lyEnvNames (view v1) q @ extra q)\<rparr>"
    "\<forall>q. set (extra q) \<subseteq> {prefixedName (view v1) q}" by blast
  show "\<exists>names. view v' = (view v)\<lparr>lyPrefix := envPrefix, lyReplace := envKeyReplacer, lyAutomatic := True, lyEnvNames := names\<rparr>"
    using extra(1) by (auto simp: view1 putEnvNames_def)
  have pv: "envKeyReplacer platformVersionEnvVar = platformVersionEnvVar" by code_simp
  have name: "lyReplace (view v') (prefixedName (view v') k) = envName k" "lyAutomatic (view v')"
    by (simp_all add: extra(1) view1 putEnvNames_def envName_def prefixedName_def)
  have unbound: "lyEnvNames (view v) q = []" for q by (rule fun_cong [OF plain])
  have bound_names: "lyEnvNames (view v') k = (if k = toLower keyPlatformVersion then [platformVersionEnvVar] else []) @ extra k"
    by (simp add: extra(1) view1 putEnvNames_def unbound)
  have names: "map (lyReplace (view v')) (lyEnvNames (view v') k) =
      (if k = toLower keyPlatformVersion then [platformVersionEnvVar] else []) @ map envKeyReplacer (extra k)"
    unfolding bound_names by (simp add: pv extra(1) view1 putEnvNames_def)
  have "set (map envKeyReplacer (extra k)) \<subseteq> set (envVars k)"
    using extra(2) by (auto simp: view1 putEnvNames_def envName_def prefixedName_def envVars_def)
  then have "firstSet getenv (envVars k @ map envKeyReplacer (extra k)) = firstSet getenv (envVars k)"
    by (rule firstSet_more)
  then show "envLookup getenv (view v') k = firstSet getenv (envVars k)"
    unfolding envLookup_def map_append names by (simp add: name envVars_def)
qed

end
