(* ===== verification/ConfigProps.thy ===== *)
theory ConfigProps
  imports ConfigProofs
begin

text \<open>
  The precedence of the sources of the configuration, with a concrete viper that meets the laws.
\<close>

section \<open>The effective settings\<close>

lemma lowered_keys:
  "map (\<lambda>d. toLower (fst d)) settingDefaults =
     [''manifests-path'', ''applications-namespace'', ''platform-type'', ''platformversion'', ''feature-store-enabled'',
      ''data-registry-enabled'', ''controller.metrics.bind-address'', ''controller.health.bind-address'',
      ''controller.leader-election.enabled'', ''controller.leader-election.id'', ''controller.zap.level'',
      ''controller.pprof.enabled'', ''controller.pprof.bind-address'']"
  by code_simp

lemma settingKeys_list: "settingKeys = set (map (\<lambda>d. toLower (fst d)) settingDefaults)"
  by (simp add: settingKeys_def image_image)

lemma settingKeys_free: "prefixFree settingKeys"
  unfolding settingKeys_list lowered_keys prefixFree_def hasPrefix_def by simp

definition resolved ::
  "(string \<Rightarrow> string \<Rightarrow> string \<Rightarrow> setting option) \<Rightarrow> (string \<Rightarrow> string) \<Rightarrow> fsys option \<Rightarrow> string \<Rightarrow> setting option"
  where
  "resolved parsed getenv fs k =
     orElse (firstSet getenv (envVars (toLower k))) (orElse (fileSetting parsed fs (toLower k)) (map_of settingDefaults k))"

lemma defaultLayers_fields [simp]:
  "lyOverride defaultLayers = Map.empty" "lyConfig defaultLayers = Map.empty" "lyEnvNames defaultLayers = (\<lambda>_. [])"
proof -
  have "lyOverride (foldl (\<lambda>y (k, s). putDefault k s y) y ds) = lyOverride y \<and>
      lyConfig (foldl (\<lambda>y (k, s). putDefault k s y) y ds) = lyConfig y \<and>
      lyEnvNames (foldl (\<lambda>y (k, s). putDefault k s y) y ds) = lyEnvNames y" for y ds
    by (induction ds arbitrary: y) (auto simp: putDefault_def)
  then show "lyOverride defaultLayers = Map.empty" "lyConfig defaultLayers = Map.empty"
    "lyEnvNames defaultLayers = (\<lambda>_. [])"
    by (simp_all add: defaultLayers_def emptyLayers_def)
qed

lemma defaultLayers_keys: "layerKeys defaultLayers = settingKeys"
proof -
  have "layerKeys (foldl (\<lambda>y (k, s). putDefault k s y) y ds) = toLower ` fst ` set ds \<union> layerKeys y" for y ds
    by (induction ds arbitrary: y) auto
  then show ?thesis by (simp add: defaultLayers_def settingKeys_def)
qed

lemma defaults_distinct: "distinct (map (\<lambda>d. toLower (fst d)) settingDefaults)" "distinct (map fst settingDefaults)"
proof -
  show lowered: "distinct (map (\<lambda>d. toLower (fst d)) settingDefaults)" unfolding lowered_keys by simp
  have "distinct (map toLower (map fst settingDefaults))" using lowered by (simp add: comp_def)
  then show "distinct (map fst settingDefaults)" unfolding distinct_map [of toLower] by blast
qed

lemma lyDefault_foldl:
  "lyDefault (foldl (\<lambda>y (k, s). putDefault k s y) y ds) = lyDefault y ++ map_of (rev (map (\<lambda>(k, s). (toLower k, s)) ds))"
  by (induction ds arbitrary: y) (auto simp: putDefault_def)

lemma lyDefault_defaultLayers:
  assumes "(k, s) \<in> set settingDefaults"
  shows "lyDefault defaultLayers (toLower k) = Some s" "map_of settingDefaults k = Some s"
proof -
  let ?ds = "map (\<lambda>(k, s). (toLower k, s)) settingDefaults"
  have "distinct (map fst (rev ?ds))" using defaults_distinct(1)
    by (simp add: rev_map [symmetric] comp_def case_prod_beta)
  moreover have "(toLower k, s) \<in> set (rev ?ds)" using assms by force
  ultimately have "map_of (rev ?ds) (toLower k) = Some s" by (rule map_of_is_SomeI)
  then show "lyDefault defaultLayers (toLower k) = Some s"
    by (simp add: defaultLayers_def lyDefault_foldl emptyLayers_def)
  show "map_of settingDefaults k = Some s" using defaults_distinct(2) assms by (rule map_of_is_SomeI)
qed

lemma fields_have_defaults:
  "fst ` set stringFields \<union> fst ` set boolFields \<subseteq> fst ` set settingDefaults"
  by (simp add: stringFields_def boolFields_def settingDefaults_def)

lemma metrics_variable_unread:
  "\<forall>k \<in> settingKeys. ''ODH_MODULE_OPERATOR_METRICS_BIND_ADDRESS'' \<notin> set (envVars k)"
proof
  fix k assume "k \<in> settingKeys"
  then obtain k0 where k0: "k0 \<in> fst ` set settingDefaults" "k = toLower k0" by (auto simp: settingKeys_def)
  have "''ODH_MODULE_OPERATOR_METRICS_BIND_ADDRESS'' \<noteq> envName k"
  proof
    assume var: "''ODH_MODULE_OPERATOR_METRICS_BIND_ADDRESS'' = envName k"
    have "length (envName k) = 20 + length k0"
      by (simp add: envName_def envKeyReplacer_def toUpper_def envPrefix_def k0(2) toLower_def)
    then have "length k0 = 20" by (simp add: var [symmetric])
    with k0(1) have "k0 = keyZapLevel"
      by (auto simp: settingDefaults_def keyManifestsPath_def keyApplicationsNS_def keyPlatformVersion_def
          keyPlatformType_def keyMetricsBindAddr_def keyHealthBindAddr_def keyLeaderElectEnabled_def keyLeaderElectID_def
          keyPprofEnabled_def keyPprofBindAddr_def keyFeatureStoreEnabled_def keyDataRegistryEnabled_def)
    moreover have "envName (toLower keyZapLevel) ! 20 = CHR ''C''" by code_simp
    ultimately show False using var [symmetric] by (simp add: k0(2))
  qed
  then show "''ODH_MODULE_OPERATOR_METRICS_BIND_ADDRESS'' \<notin> set (envVars k)"
    by (simp add: envVars_def platformVersionEnvVar_def)
qed

text \<open>The store that is decoded.\<close>

definition loadedStore :: "('v, 'm) viper_lib \<Rightarrow> fsys option \<Rightarrow> goerr + 'v" where
  "loadedStore L fs =
     (case (case fs of None \<Rightarrow> Inr (setDefaults L (viperNew L)) | Some F \<Rightarrow> readFS L (setDefaults L (viperNew L)) F) of
        Inl e \<Rightarrow> Inl (Wrapped ''loading config from filesystem'' e)
      | Inr v \<Rightarrow> wrapSum ''binding env vars'' (bindEnv L v))"

lemma loadFromFS_store:
  "loadFromFS L getenv fs =
     (case loadedStore L fs of Inl e \<Rightarrow> Inl e | Inr v \<Rightarrow> wrapSum ''unmarshaling config'' (viperUnmarshal L getenv v zeroConfig))"
  by (simp add: loadFromFS_def loadedStore_def wrapSum_def Let_def split: sum.splits option.splits)

lemma loadedStore_view:
  assumes "store_laws L view flat parsed" "env_laws L view"
    and free: "prefixFree (dom (fileSetting parsed fs) \<union> settingKeys)"
    and loaded: "loadedStore L fs = Inr v"
  obtains names where
    "view v = (putConfig (fileSetting parsed fs) defaultLayers)
       \<lparr>lyPrefix := envPrefix, lyReplace := envKeyReplacer, lyAutomatic := True, lyEnvNames := names\<rparr>"
    "\<forall>getenv k. envLookup getenv (view v) k = firstSet getenv (envVars k)"
proof -
  let ?v = "setDefaults L (viperNew L)"
  have "prefixFree settingKeys" using free by (rule prefixFree_subset) blast
  then have defaults: "view ?v = defaultLayers" by (rule setDefaults_view [OF assms(1)])
  obtain v1 where v: "(case fs of None \<Rightarrow> Inr ?v | Some F \<Rightarrow> readFS L ?v F) = Inr v1" "bindEnv L v1 = Inr v"
    using loaded by (auto simp: loadedStore_def wrapSum_def split: sum.splits)
  have view1: "view v1 = putConfig (fileSetting parsed fs) defaultLayers"
  proof (cases fs)
    case None
    with v(1) defaults show ?thesis by (simp add: fileSetting_def putConfig_def)
  next
    case (Some F)
    with v(1) have "readFS L ?v F = Inr v1" by simp
    from readFS_view [OF assms(1) this] free show ?thesis by (simp add: defaults defaultLayers_keys Some)
  qed
  have plain: "lyEnvNames (view v1) = (\<lambda>_. [])" by (simp add: view1 putConfig_def)
  obtain names where "view v = (view v1)\<lparr>lyPrefix := envPrefix, lyReplace := envKeyReplacer, lyAutomatic := True, lyEnvNames := names\<rparr>"
    using bindEnv_view(1) [OF assms(2) v(2) plain] by blast
  with bindEnv_view(2) [OF assms(2) v(2) plain] that [of names] show thesis by (simp add: view1)
qed

lemma loaded_effective:
  assumes "store_laws L view flat parsed" "env_laws L view"
    and free: "prefixFree (dom (fileSetting parsed fs) \<union> settingKeys)"
    and loaded: "loadedStore L fs = Inr v" and field: "k \<in> fst ` set stringFields \<union> fst ` set boolFields"
  shows "effective getenv (view v) (toLower k) = resolved parsed getenv fs k" "resolved parsed getenv fs k \<noteq> None"
proof -
  from assms(1-4) obtain names where v: "view v = (putConfig (fileSetting parsed fs) defaultLayers)
       \<lparr>lyPrefix := envPrefix, lyReplace := envKeyReplacer, lyAutomatic := True, lyEnvNames := names\<rparr>"
    "\<forall>getenv k. envLookup getenv (view v) k = firstSet getenv (envVars k)"
    by (rule loadedStore_view)
  from field fields_have_defaults obtain s where "(k, s) \<in> set settingDefaults" by force
  note default = lyDefault_defaultLayers [OF this]
  show "effective getenv (view v) (toLower k) = resolved parsed getenv fs k"
    unfolding effective_def v(2) [rule_format] by (simp add: resolved_def v(1) putConfig_def default)
  show "resolved parsed getenv fs k \<noteq> None" by (simp add: resolved_def default del: not_None_eq)
qed

text \<open>
  C25. Every field of a loaded configuration comes from the first of its sources that has it: its
  environment variable (the platform version has two), the last plain file of its name, the last
  structured file that sets it, its default; plain files win over structured ones whatever their order
  in the directory. The variable that the metrics patch of the manifests sets is none of them.
\<close>

theorem config_precedence:
  assumes "store_laws L view flat parsed" "env_laws L view" "decode_laws L view"
    and "prefixFree (dom (fileSetting parsed fs) \<union> settingKeys)"
    and "\<And>k p q. k \<in> dom (fileSetting parsed fs) \<union> settingKeys \<Longrightarrow> k = p @ ''.'' @ q \<Longrightarrow> getenv (envName p) = []"
    and "loadFromFS L getenv fs = Inr cfg"
  shows "(\<forall>(k, sel) \<in> set stringFields. map_option settingString (resolved parsed getenv fs k) = Some (sel cfg)) \<and>
    (\<forall>(k, sel) \<in> set boolFields. Option.bind (resolved parsed getenv fs k) settingBool = Some (sel cfg)) \<and>
    (\<forall>k \<in> settingKeys. ''ODH_MODULE_OPERATOR_METRICS_BIND_ADDRESS'' \<notin> set (envVars k))"
proof -
  obtain v where loaded: "loadedStore L fs = Inr v" "viperUnmarshal L getenv v zeroConfig = Inr cfg"
    using assms(6) by (auto simp: loadFromFS_store wrapSum_def split: sum.splits)
  from assms(1,2,4) loaded(1) obtain names where v: "view v = (putConfig (fileSetting parsed fs) defaultLayers)
       \<lparr>lyPrefix := envPrefix, lyReplace := envKeyReplacer, lyAutomatic := True, lyEnvNames := names\<rparr>"
    by (rule loadedStore_view)
  have "layerKeys (view v) = layerKeys (putConfig (fileSetting parsed fs) defaultLayers)"
    by (simp add: v layerKeys_def)
  then have keys: "layerKeys (view v) = dom (fileSetting parsed fs) \<union> settingKeys" by (simp add: defaultLayers_keys)
  have "lyReplace (view v) (prefixedName (view v) p) = envName p" for p
    by (simp add: v envName_def prefixedName_def)
  with assms(5) have "unshadowed getenv (view v)" by (auto simp: unshadowed_def keys)
  with assms(3,4) loaded(2) have "decodes (effective getenv (view v)) cfg" by (auto simp: decode_laws_def keys)
  with loaded_effective [OF assms(1,2,4) loaded(1), of _ getenv]
  have "\<forall>(k, sel) \<in> set stringFields. map_option settingString (resolved parsed getenv fs k) = Some (sel cfg)"
    "\<forall>(k, sel) \<in> set boolFields. Option.bind (resolved parsed getenv fs k) settingBool = Some (sel cfg)"
    by (force simp: decodes_def)+
  with metrics_variable_unread show ?thesis by blast
qed

section \<open>A concrete viper\<close>

text \<open>A store is its layers, with the type of the file it is about to read.\<close>

definition demoParsed :: "string \<Rightarrow> string \<Rightarrow> string \<Rightarrow> setting option" where
  "demoParsed ext data k =
     (if data = ''level: debug'' \<and> k = keyZapLevel then Some (SStr ''debug'')
      else if data = ''level: debug'' \<and> k = keyPlatformType then Some (SStr ''OpenDataHub'') else None)"

definition stringAt :: "(string \<Rightarrow> setting option) \<Rightarrow> string \<Rightarrow> string" where
  "stringAt look k = (case look (toLower k) of Some s \<Rightarrow> settingString s | None \<Rightarrow> [])"

definition boolAt :: "(string \<Rightarrow> setting option) \<Rightarrow> string \<Rightarrow> bool option" where
  "boolAt look k = (case look (toLower k) of Some s \<Rightarrow> settingBool s | None \<Rightarrow> Some False)"

definition demoDecode :: "(string \<Rightarrow> setting option) \<Rightarrow> goerr + config" where
  "demoDecode look =
     (case (boolAt look keyFeatureStoreEnabled, boolAt look keyDataRegistryEnabled,
            boolAt look keyLeaderElectEnabled, boolAt look keyPprofEnabled) of
        (Some fs, Some dr, Some le, Some pp) \<Rightarrow>
          Inr \<lparr>cfgManifestsPath = stringAt look keyManifestsPath, cfgApplicationsNamespace = stringAt look keyApplicationsNS,
               cfgPlatformType = stringAt look keyPlatformType, cfgPlatformVersion = stringAt look keyPlatformVersion,
               cfgFeatureStoreEnabled = fs, cfgDataRegistryEnabled = dr,
               cfgController =
                 \<lparr>ctlMetrics = \<lparr>metricsBindAddress = stringAt look keyMetricsBindAddr\<rparr>,
                  ctlHealth = \<lparr>healthBindAddress = stringAt look keyHealthBindAddr\<rparr>,
                  ctlLeaderElection = \<lparr>leaderElectionEnabled = le, leaderElectionID = stringAt look keyLeaderElectID\<rparr>,
                  ctlZap = \<lparr>zapLevel = stringAt look keyZapLevel\<rparr>,
                  ctlPprof = \<lparr>pprofEnabled = pp, pprofBindAddress = stringAt look keyPprofBindAddr\<rparr>\<rparr>\<rparr>
      | _ \<Rightarrow> Inl (Msg ''cannot parse as bool''))"

lemma look_at:
  "look (toLower k) = Some s \<Longrightarrow> stringAt look k = settingString s"
  "look (toLower k) = Some s \<Longrightarrow> boolAt look k = settingBool s"
  by (simp_all add: stringAt_def boolAt_def)

lemma demoDecode_decodes:
  assumes "demoDecode look = Inr cfg"
  shows "decodes look cfg"
proof -
  obtain fs dr le pp where bools: "boolAt look keyFeatureStoreEnabled = Some fs" "boolAt look keyDataRegistryEnabled = Some dr"
    "boolAt look keyLeaderElectEnabled = Some le" "boolAt look keyPprofEnabled = Some pp"
    using assms unfolding demoDecode_def by (auto split: option.splits)
  with assms have "\<forall>(k, sel) \<in> set stringFields. sel cfg = stringAt look k"
    "\<forall>(k, sel) \<in> set boolFields. boolAt look k = Some (sel cfg)"
    by (auto simp: demoDecode_def stringFields_def boolFields_def)
  then show ?thesis by (force simp: decodes_def look_at)
qed

definition demoViper :: "(layers \<times> string, string \<Rightarrow> setting option) viper_lib" where
  "demoViper =
     \<lparr>viperNew = (emptyLayers, []),
      viperSetDefault = (\<lambda>k s v. (putDefault k s (fst v), snd v)),
      viperSet = (\<lambda>k s v. (putOverride k s (fst v), snd v)),
      viperSetConfigType = (\<lambda>ext v. (fst v, ext)),
      viperReadConfig = (\<lambda>data v. Inr ((fst v)\<lparr>lyConfig := demoParsed (snd v) data\<rparr>, snd v)),
      viperAllSettings = (\<lambda>v. settingsOf (fst v)),
      viperMergeConfigMap = (\<lambda>m v. Inr (putConfig m (fst v), snd v)),
      viperSetEnvPrefix = (\<lambda>p v. ((fst v)\<lparr>lyPrefix := p\<rparr>, snd v)),
      viperSetEnvKeyReplacer = (\<lambda>f v. ((fst v)\<lparr>lyReplace := f\<rparr>, snd v)),
      viperAutomaticEnv = (\<lambda>v. ((fst v)\<lparr>lyAutomatic := True\<rparr>, snd v)),
      viperBindEnv = (\<lambda>k names v. Inr (putEnvNames k names (fst v), snd v)),
      viperAllKeys = (\<lambda>v. map (\<lambda>d. toLower (fst d)) settingDefaults),
      viperUnmarshal = (\<lambda>getenv v c. demoDecode (effective getenv (fst v)))\<rparr>"

lemma demo_store_laws: "store_laws demoViper fst id demoParsed"
  by (auto simp: store_laws_def demoViper_def putConfig_def emptyLayers_def)

lemma demo_env_laws: "env_laws demoViper fst"
  by (simp add: env_laws_def demoViper_def)

lemma demo_decode_laws: "decode_laws demoViper fst"
  by (simp add: decode_laws_def demoViper_def demoDecode_decodes)

definition demoFS :: fsys where
  "demoFS =
     \<lparr>fsReadDir = Inr [\<lparr>entryName = ''..data'', entryIsDir = True\<rparr>, \<lparr>entryName = ''config.yaml'', entryIsDir = False\<rparr>,
                       \<lparr>entryName = ''platform-type'', entryIsDir = False\<rparr>],
      fsReadFile = (\<lambda>n. if n = ''config.yaml'' then Inr ''level: debug''
                        else if n = ''platform-type'' then Inr ''OpenShift AI'' else Inl (Msg ''no such file''))\<rparr>"

definition demoEnviron :: "string \<Rightarrow> string" where
  "demoEnviron n = (if n = platformVersionEnvVar then ''3.0.0'' else [])"

text \<open>Nothing fails but the decoding of a Boolean.\<close>

lemma demo_readEntries: "\<exists>tmp'. readEntries demoViper F entries tmp = Inr tmp'"
  by (induction demoViper F entries tmp rule: readEntries.induct)
    (auto simp: Let_def mergeStructuredFile_def demoViper_def split: sum.splits)

lemma demo_bindKeys: "\<exists>v'. bindKeys demoViper ks v = Inr v'"
  by (induction ks arbitrary: v) (auto simp: demoViper_def)

lemma demo_store: "\<exists>v. loadedStore demoViper (Some demoFS) = Inr v"
proof -
  obtain tmp where tmp: "readEntries demoViper demoFS [\<lparr>entryName = ''..data'', entryIsDir = True\<rparr>,
      \<lparr>entryName = ''config.yaml'', entryIsDir = False\<rparr>, \<lparr>entryName = ''platform-type'', entryIsDir = False\<rparr>]
      (viperNew demoViper) = Inr tmp"
    using demo_readEntries by blast
  have "viperMergeConfigMap demoViper nested v = Inr (putConfig nested (fst v), snd v)" for nested v
    by (simp add: demoViper_def)
  with tmp obtain v where v: "readFS demoViper (setDefaults demoViper (viperNew demoViper)) demoFS = Inr v"
    by (simp add: readFS_def demoFS_def)
  have "\<exists>v'. bindEnv demoViper v = Inr v'"
    using demo_bindKeys by (auto simp: bindEnv_def demoViper_def split: sum.splits)
  with v show ?thesis by (auto simp: loadedStore_def wrapSum_def)
qed

lemma demo_files:
  "fileSetting demoParsed (Some demoFS) =
     (\<lambda>k. if k = keyPlatformType then Some (SStr ''OpenShift AI'') else if k = keyZapLevel then Some (SStr ''debug'') else None)"
proof
  fix k
  have "entryExt \<lparr>entryName = ''config.yaml'', entryIsDir = False\<rparr> = ''yaml''"
    "entryExt \<lparr>entryName = ''platform-type'', entryIsDir = False\<rparr> = []"
    "toLower ''platform-type'' = keyPlatformType" "trimSpace ''OpenShift AI'' = ''OpenShift AI''"
    by code_simp+
  then show "fileSetting demoParsed (Some demoFS) k =
     (if k = keyPlatformType then Some (SStr ''OpenShift AI'') else if k = keyZapLevel then Some (SStr ''debug'') else None)"
    by (auto simp: fileSetting_def demoFS_def plainSetting_def structuredSetting_def entryData_def demoParsed_def
        structuredExtensions_def hasPrefix_def keyPlatformType_def keyZapLevel_def)
qed

text \<open>A variable of a key tells the length and the first letter of the key.\<close>

lemma envName_facts: "length (envName k) = 20 + length k" "k \<noteq> [] \<Longrightarrow> envName k ! 20 = hd (envKeyReplacer (toUpper k))"
  by (simp_all add: envName_def envKeyReplacer_def toUpper_def envPrefix_def nth_append hd_map neq_Nil_conv)
    (auto simp: neq_Nil_conv)

lemma demo_free: "dom (fileSetting demoParsed (Some demoFS)) \<union> settingKeys = settingKeys"
  unfolding demo_files settingKeys_list lowered_keys
  by (auto simp: keyPlatformType_def keyZapLevel_def split: if_splits)

lemma demo_unshadowed:
  assumes "k \<in> settingKeys" "k = p @ ''.'' @ q"
  shows "demoEnviron (envName p) = []"
proof -
  have "CHR ''.'' \<in> set k" using assms(2) by simp
  with assms(1) have c: "hd k = CHR ''c''" unfolding settingKeys_list lowered_keys by auto
  with assms(2) have "p \<noteq> []" "hd p = CHR ''c''" by (cases p; simp)+
  moreover have "toUpperChar (CHR ''c'') = CHR ''C''" by code_simp
  ultimately have "envName p ! 20 = CHR ''C''"
    using envName_facts(2) [of p] by (cases p) (simp_all add: envKeyReplacer_def toUpper_def)
  then have "envName p \<noteq> platformVersionEnvVar" by (auto simp: platformVersionEnvVar_def)
  then show ?thesis by (simp add: demoEnviron_def)
qed

lemma demo_names: "k \<in> settingKeys \<Longrightarrow> envName k \<noteq> platformVersionEnvVar"
proof
  assume k: "k \<in> settingKeys" and "envName k = platformVersionEnvVar"
  then have "length k = 16" using envName_facts(1) [of k] by (simp add: platformVersionEnvVar_def)
  with k show False unfolding settingKeys_list lowered_keys by auto
qed

lemma lower_inj: "inj_on toLower (fst ` set settingDefaults)"
  using defaults_distinct(1) unfolding distinct_map inj_on_def by blast

lemma demo_resolved:
  assumes "(k, s) \<in> set settingDefaults"
  shows "resolved demoParsed demoEnviron (Some demoFS) k =
    (if k = keyPlatformVersion then Some (SStr ''3.0.0'')
     else orElse (fileSetting demoParsed (Some demoFS) (toLower k)) (Some s))"
proof -
  have k: "k \<in> fst ` set settingDefaults" "keyPlatformVersion \<in> fst ` set settingDefaults"
    using assms by (force simp: settingDefaults_def)+
  then have "toLower k \<in> settingKeys" by (simp add: settingKeys_def)
  moreover have "toLower k = toLower keyPlatformVersion \<longleftrightarrow> k = keyPlatformVersion"
    using inj_on_eq_iff [OF lower_inj k] .
  ultimately show ?thesis
    using demo_names lyDefault_defaultLayers(2) [OF assms]
    by (simp add: resolved_def envVars_def firstSet_def demoEnviron_def)
qed

lemma demo_file_lookup:
  assumes "k \<in> fst ` set settingDefaults"
  shows "fileSetting demoParsed (Some demoFS) (toLower k) =
    (if k = keyPlatformType then Some (SStr ''OpenShift AI'') else if k = keyZapLevel then Some (SStr ''debug'') else None)"
proof -
  have "toLower keyPlatformType = keyPlatformType" "toLower keyZapLevel = keyZapLevel" by code_simp+
  moreover have "keyPlatformType \<in> fst ` set settingDefaults" "keyZapLevel \<in> fst ` set settingDefaults"
    by (simp_all add: settingDefaults_def)
  ultimately have "toLower k = keyPlatformType \<longleftrightarrow> k = keyPlatformType" "toLower k = keyZapLevel \<longleftrightarrow> k = keyZapLevel"
    using inj_on_eq_iff [OF lower_inj assms, of keyPlatformType] inj_on_eq_iff [OF lower_inj assms, of keyZapLevel]
    by simp_all
  then show ?thesis unfolding demo_files by simp
qed

lemma demo_loads: "\<exists>cfg. loadFromFS demoViper demoEnviron (Some demoFS) = Inr cfg"
proof -
  obtain v where v: "loadedStore demoViper (Some demoFS) = Inr v" using demo_store by blast
  have free: "prefixFree (dom (fileSetting demoParsed (Some demoFS)) \<union> settingKeys)"
    unfolding demo_free by (rule settingKeys_free)
  have bool: "boolAt (effective demoEnviron (fst v)) k = Some b"
    if "k \<in> fst ` set boolFields" "(k, SBool b) \<in> set settingDefaults" for k b
  proof -
    have "k \<noteq> keyPlatformVersion" "k \<noteq> keyPlatformType" "k \<noteq> keyZapLevel"
      using that(1) by (auto simp: boolFields_def keyFeatureStoreEnabled_def keyDataRegistryEnabled_def
          keyLeaderElectEnabled_def keyPprofEnabled_def keyPlatformVersion_def keyPlatformType_def keyZapLevel_def)
    moreover have "k \<in> fst ` set settingDefaults" using that(2) by force
    ultimately have "effective demoEnviron (fst v) (toLower k) = Some (SBool b)"
      using loaded_effective(1) [OF demo_store_laws demo_env_laws free v, of k demoEnviron] that(1) demo_resolved [OF that(2)]
      by (simp add: demo_file_lookup)
    then show ?thesis by (simp add: look_at(2) settingBool_def)
  qed
  have "\<exists>cfg. demoDecode (effective demoEnviron (fst v)) = Inr cfg"
    unfolding demoDecode_def
    by (simp add: bool [of _ defaultFeatureStoreEnabled] bool [of _ defaultDataRegistryEnabled]
        bool [of _ defaultLeaderElectEnabled] bool [of _ defaultPprofEnabled] boolFields_def settingDefaults_def)
  moreover have "viperUnmarshal demoViper demoEnviron v zeroConfig = demoDecode (effective demoEnviron (fst v))"
    by (simp add: demoViper_def)
  ultimately show ?thesis by (auto simp: loadFromFS_store v wrapSum_def)
qed

lemma config_precedence_witness:
  "\<exists>cfg. loadFromFS demoViper demoEnviron (Some demoFS) = Inr cfg \<and> cfgPlatformVersion cfg = ''3.0.0'' \<and>
     cfgPlatformType cfg = ''OpenShift AI'' \<and> zapLevel (ctlZap (cfgController cfg)) = ''debug'' \<and>
     cfgApplicationsNamespace cfg = ''opendatahub''"
proof -
  obtain cfg where cfg: "loadFromFS demoViper demoEnviron (Some demoFS) = Inr cfg" using demo_loads by blast
  have "prefixFree (dom (fileSetting demoParsed (Some demoFS)) \<union> settingKeys)"
    unfolding demo_free by (rule settingKeys_free)
  from config_precedence [OF demo_store_laws demo_env_laws demo_decode_laws this _ cfg] demo_unshadowed
  have fields: "\<forall>(k, sel) \<in> set stringFields.
      map_option settingString (resolved demoParsed demoEnviron (Some demoFS) k) = Some (sel cfg)"
    unfolding demo_free by blast
  have distinct: "keyPlatformType \<noteq> keyPlatformVersion" "keyZapLevel \<noteq> keyPlatformVersion" "keyZapLevel \<noteq> keyPlatformType"
    "keyApplicationsNS \<noteq> keyPlatformVersion" "keyApplicationsNS \<noteq> keyPlatformType" "keyApplicationsNS \<noteq> keyZapLevel"
    by (simp_all add: keyPlatformType_def keyPlatformVersion_def keyZapLevel_def keyApplicationsNS_def)
  have member: "(keyPlatformVersion, SStr defaultPlatformVersion) \<in> set settingDefaults"
    "(keyPlatformType, SStr defaultPlatformType) \<in> set settingDefaults" "(keyZapLevel, SStr defaultZapLevel) \<in> set settingDefaults"
    "(keyApplicationsNS, SStr defaultApplicationsNS) \<in> set settingDefaults"
    by (simp_all add: settingDefaults_def)
  then have keys: "keyPlatformType \<in> fst ` set settingDefaults" "keyZapLevel \<in> fst ` set settingDefaults"
    "keyApplicationsNS \<in> fst ` set settingDefaults" by force+
  from fields have "cfgPlatformVersion cfg = ''3.0.0''" "cfgPlatformType cfg = ''OpenShift AI''"
    "zapLevel (ctlZap (cfgController cfg)) = ''debug''" "cfgApplicationsNamespace cfg = ''opendatahub''"
    using demo_resolved [OF member(1)] demo_resolved [OF member(2)] demo_resolved [OF member(3)] demo_resolved [OF member(4)]
    by (simp_all add: stringFields_def demo_file_lookup keys distinct settingString_def defaultApplicationsNS_def)
  with cfg show ?thesis by blast
qed

end
