(* ===== verification/StartProps.thy ===== *)
theory StartProps
  imports Manager ConfigProps PipelineProps
begin

text \<open>The start of the operator: one namespace for the cache, the handlers and the garbage collection.\<close>

text \<open>
  C26. An operator that starts has loaded its configuration, and it serves exactly that one: the
  reconciler that is registered before the health checks runs the pipeline and the finalizer of a
  module with this configuration, and the applications namespace of the configuration is the one the
  cache is restricted to, the one of the capabilities ConfigMap and of the deployment, and the one
  that garbage collection cleans. The manager depends neither on the zap level nor on the pprof
  switch: a pprof address is served even when pprof is off.
\<close>

theorem operator_start:
  assumes "runOperator L K U S F P VL getenv dirFS kubeConfig w = (None, w')"
  shows "\<exists>cfg kc ctrlMgr v1 v2 v3 m r.
    loadConfig VL getenv dirFS = Inr cfg \<and> kubeConfig = Some kc \<and>
    newCtrlManager L kc (managerOptions cfg) v1 = (Inr ctrlMgr, v2) \<and>
    serves L (odhManager L (cfgManifestsPath cfg) ctrlMgr) cfg m \<and>
    buildReconciler L (odhManager L (cfgManifestsPath cfg) ctrlMgr)
      \<lparr>rcWatches = watches K, rcActions = pipeline K U S F m, rcFinalizer = cleanupClusterResources K m,
       rcConditions = [''DeploymentsAvailable''], rcRelease = None\<rparr> = Inr r \<and>
    startManager L (odhManager L (cfgManifestsPath cfg) ctrlMgr) v3 = (None, w') \<and>
    (\<forall>kind \<in> {''Deployment'', ''Service'', ''ServiceAccount'', ''Role'', ''RoleBinding''}.
       map_of (optByObject (managerOptions cfg)) kind = Some (InNamespaces [cfgApplicationsNamespace cfg])) \<and>
    keyNamespace (capabilitiesKey m) = cfgApplicationsNamespace cfg \<and>
    keyNamespace (deploymentKey m) = cfgApplicationsNamespace cfg \<and>
    last (pipeline K U S F m) = gcAction F (cfgApplicationsNamespace cfg) \<and>
    (\<forall>level pprof. managerOptions (cfg\<lparr>cfgController := (cfgController cfg)\<lparr>ctlZap := \<lparr>zapLevel = level\<rparr>,
       ctlPprof := (ctlPprof (cfgController cfg))\<lparr>pprofEnabled := pprof\<rparr>\<rparr>\<rparr>) = managerOptions cfg)"
proof -
  obtain cfg kc mgr v where start: "loadConfig VL getenv dirFS = Inr cfg" "kubeConfig = Some kc"
    "newManager L K U S F P (Some kc) (Some cfg) [] (setLogger L False w) = (Inr mgr, v)" "startManager L mgr v = (None, w')"
    using assms by (auto simp: runOperator_def Let_def split: sum.splits option.splits prod.splits)
  from start(3) obtain kc' cfg' ctrlMgr v1 v2 v3 where new: "Some kc = Some kc'" "Some cfg = Some cfg'"
    "newCtrlManager L kc' (applyOptions [] (managerOptions cfg')) v1 = (Inr ctrlMgr, v2)"
    "mgr = odhManager L (cfgManifestsPath cfg') ctrlMgr" "registerReconciler L K U S F P mgr cfg' v2 = (None, v3)"
    by (rule newManager_ok)
  from new(5) obtain m r where m: "serves L mgr cfg' m" "buildReconciler L mgr
       \<lparr>rcWatches = watches K, rcActions = pipeline K U S F m, rcFinalizer = cleanupClusterResources K m,
        rcConditions = [''DeploymentsAvailable''], rcRelease = None\<rparr> = Inr r"
    by (rule registerReconciler_ok)
  have cfg: "mCfg m = cfg" using m(1) new(2) by (simp add: serves_def)
  have cache: "\<forall>kind \<in> {''Deployment'', ''Service'', ''ServiceAccount'', ''Role'', ''RoleBinding''}.
       map_of (optByObject (managerOptions cfg)) kind = Some (InNamespaces [cfgApplicationsNamespace cfg])"
    by (simp add: managerOptions_def Let_def)
  have names: "keyNamespace (capabilitiesKey m) = cfgApplicationsNamespace cfg"
    "keyNamespace (deploymentKey m) = cfgApplicationsNamespace cfg"
    "last (pipeline K U S F m) = gcAction F (cfgApplicationsNamespace cfg)"
    by (simp_all add: capabilitiesKey_def deploymentKey_def pipeline_def cfg)
  have switches: "\<forall>level pprof. managerOptions (cfg\<lparr>cfgController := (cfgController cfg)\<lparr>ctlZap := \<lparr>zapLevel = level\<rparr>,
       ctlPprof := (ctlPprof (cfgController cfg))\<lparr>pprofEnabled := pprof\<rparr>\<rparr>\<rparr>) = managerOptions cfg"
    by (simp add: managerOptions_def Let_def)
  from start new m cache names switches show ?thesis by (intro exI conjI) auto
qed

section \<open>A concrete start\<close>

definition constantViper :: "(layers \<times> string, string \<Rightarrow> setting option) viper_lib" where
  "constantViper = demoViper\<lparr>viperUnmarshal := (\<lambda>getenv v c. Inr demoConfig)\<rparr>"

definition demoManagers :: "(demo, unit, unit, unit) manager_lib" where
  "demoManagers =
     \<lparr>viperSetGlobal = (\<lambda>_ _ w. w), setRHAIApplicationNamespace = (\<lambda>_ w. w), newCtrlManager = (\<lambda>_ _ w. (Inr (), w)),
      odhManager = (\<lambda>_ g. g), getEventRecorder = (\<lambda>_ _. demoRecord), buildReconciler = (\<lambda>_ r. Inr r),
      addHealthzCheck = (\<lambda>_ _ w. (None, w)), addReadyzCheck = (\<lambda>_ _ w. (None, w)), startManager = (\<lambda>_ w. (None, w)),
      setLogger = (\<lambda>_ w. w)\<rparr>"

lemma constant_bind: "\<exists>v'. bindKeys constantViper ks v = Inr v'"
  by (induction ks arbitrary: v) (auto simp: constantViper_def demoViper_def)

lemma constant_load: "loadConfig constantViper (\<lambda>_. []) dirFS = Inr demoConfig"
proof -
  have "\<exists>v'. bindEnv constantViper v = Inr v'" for v
    using constant_bind by (auto simp: bindEnv_def constantViper_def demoViper_def split: sum.splits)
  then obtain v' where "bindEnv constantViper (setDefaults constantViper (viperNew constantViper)) = Inr v'" by blast
  then show ?thesis by (simp add: loadConfig_def loadFromFS_def Let_def) (simp add: constantViper_def)
qed

lemma operator_start_witness:
  "\<exists>m. runOperator demoManagers demoKube demoUrl demoSemver demoFramework
      \<lparr>selfManagedRhoai = ''OpenShift AI Self-Managed'', managedRhoai = ''OpenShift AI Cloud Service''\<rparr>
      constantViper (\<lambda>_. []) (\<lambda>_. demoFS) (Some ()) heldWorld = (None, heldWorld) \<and>
     mCfg m = demoConfig \<and> mRecorder m = Some demoRecord \<and>
     keyNamespace (capabilitiesKey m) = ''opendatahub'' \<and>
     last (pipeline demoKube demoUrl demoSemver demoFramework m) = gcAction demoFramework ''opendatahub''"
proof -
  have run: "runOperator demoManagers demoKube demoUrl demoSemver demoFramework
      \<lparr>selfManagedRhoai = ''OpenShift AI Self-Managed'', managedRhoai = ''OpenShift AI Cloud Service''\<rparr>
      constantViper (\<lambda>_. []) (\<lambda>_. demoFS) (Some ()) heldWorld = (None, heldWorld)"
    by (simp add: runOperator_def constant_load newManager_def registerReconciler_def newReconciler_def newModule_def
        demoManagers_def demoKube_def Let_def wrapErr_def andThen_def)
  from operator_start [OF run] obtain m where "mCfg m = demoConfig" "mRecorder m = Some demoRecord"
    "keyNamespace (capabilitiesKey m) = ''opendatahub''"
    "last (pipeline demoKube demoUrl demoSemver demoFramework m) = gcAction demoFramework ''opendatahub''"
    by (auto simp: constant_load serves_def demoManagers_def demoConfig_def)
  with run show ?thesis by blast
qed

end
