(* ===== verification/VerifyRbac.thy ===== *)
theory VerifyRbac
  imports GoStrings
begin

text \<open>
  \<^verbatim>\<open>hack/verify-rbac/main.go\<close>: the check that the role of the module operator covers what the
  operand needs, and that the chart is in step with it. Reading and parsing files are arguments, as is
  the order in which Go ranges over a map; an outcome is the exit code with what was printed.
\<close>

section \<open>Permissions\<close>

datatype permission = Permission (permGroup: string) (permResource: string) (permVerb: string)

definition permissionString :: "permission \<Rightarrow> string" where
  "permissionString p =
     (let group = (if permGroup p = [] then [dquote, dquote] else permGroup p) in
      ''groups='' @ group @ '' resources='' @ permResource p @ '' verbs='' @ permVerb p)"

text \<open>The order of \<open>sort.Slice\<close> in \<open>printMissing\<close>.\<close>

definition permissionLess :: "permission \<Rightarrow> permission \<Rightarrow> bool" where
  "permissionLess p q \<longleftrightarrow>
     (if permGroup p \<noteq> permGroup q then permGroup p < permGroup q
      else if permResource p \<noteq> permResource q then permResource p < permResource q
      else permVerb p < permVerb q)"

instantiation permission :: linorder
begin

definition less_permission :: "permission \<Rightarrow> permission \<Rightarrow> bool" where
  "less_permission p q \<longleftrightarrow> permissionLess p q"

definition less_eq_permission :: "permission \<Rightarrow> permission \<Rightarrow> bool" where
  "less_eq_permission p q \<longleftrightarrow> p = q \<or> p < q"

instance
proof
  fix p q r :: permission
  show "p < q \<longleftrightarrow> p \<le> q \<and> \<not> q \<le> p"
    by (cases p; cases q) (auto simp: less_permission_def permissionLess_def less_eq_permission_def split: if_splits)
  show "p \<le> p" by (simp add: less_eq_permission_def)
  show "p \<le> q \<Longrightarrow> q \<le> r \<Longrightarrow> p \<le> r"
    by (cases p; cases q; cases r) (auto simp: less_permission_def permissionLess_def less_eq_permission_def split: if_splits)
  show "p \<le> q \<Longrightarrow> q \<le> p \<Longrightarrow> p = q"
    by (cases p; cases q) (auto simp: less_permission_def permissionLess_def less_eq_permission_def split: if_splits)
  show "p \<le> q \<or> q \<le> p"
    by (cases p; cases q) (auto simp: less_permission_def permissionLess_def less_eq_permission_def split: if_splits)
qed

end

record policy_rule =
  ruleAPIGroups :: "string list"
  ruleResources :: "string list"
  ruleVerbs :: "string list"
  ruleResourceNames :: "string list"

record cluster_role =
  roleName :: string
  roleRules :: "policy_rule list"

text \<open>The map of permissions is a set, filled by three nested loops.\<close>

definition rulePermissions :: "policy_rule \<Rightarrow> permission list" where
  "rulePermissions rule =
     concat (map (\<lambda>group. concat (map (\<lambda>resource. map (Permission group resource) (ruleVerbs rule))
       (ruleResources rule))) (ruleAPIGroups rule))"

definition extractPermissions :: "cluster_role \<Rightarrow> permission set" where
  "extractPermissions role = set (concat (map rulePermissions (roleRules role)))"

lemma extractPermissions_iff:
  "Permission g r v \<in> extractPermissions role \<longleftrightarrow>
     (\<exists>rule \<in> set (roleRules role). g \<in> set (ruleAPIGroups rule) \<and> r \<in> set (ruleResources rule) \<and> v \<in> set (ruleVerbs rule))"
  by (auto simp: extractPermissions_def rulePermissions_def)

lemma finite_extractPermissions [simp]: "finite (extractPermissions role)"
  by (simp add: extractPermissions_def)

section \<open>Loading\<close>

text \<open>An error here is its text.\<close>

record rbac_env =
  readFile :: "string \<Rightarrow> string + string"
  unmarshalRole :: "string \<Rightarrow> string + cluster_role"
  rangePerms :: "permission set \<Rightarrow> permission list"

definition loadClusterRole :: "rbac_env \<Rightarrow> string \<Rightarrow> string + cluster_role" where
  "loadClusterRole E path =
     (case readFile E path of
        Inl e \<Rightarrow> Inl (''failed to read '' @ path @ '': '' @ e)
      | Inr data \<Rightarrow>
          (case unmarshalRole E data of
             Inl e \<Rightarrow> Inl (''failed to parse '' @ path @ '': '' @ e)
           | Inr role \<Rightarrow> Inr role))"

text \<open>\<open>strings.Split\<close> at a separator of several characters.\<close>

function splitAt :: "string \<Rightarrow> string \<Rightarrow> string \<Rightarrow> string list" where
  "splitAt sep acc [] = [acc]"
| "splitAt sep acc (c # s) =
     (if sep \<noteq> [] \<and> hasPrefix (c # s) sep then acc # splitAt sep [] (drop (length sep) (c # s))
      else splitAt sep (acc @ [c]) s)"
  by pat_completeness auto

termination
  by (relation "measure (\<lambda>(sep, acc, s). length s)") (auto simp: neq_Nil_conv)

fun findRole :: "rbac_env \<Rightarrow> string \<Rightarrow> string list \<Rightarrow> cluster_role option" where
  "findRole E name [] = None"
| "findRole E name (doc # docs) =
     (let doc' = trimSpace doc in
      if doc' = [] then findRole E name docs
      else
        (case unmarshalRole E doc' of
           Inl _ \<Rightarrow> findRole E name docs
         | Inr role \<Rightarrow> if roleName role = name then Some role else findRole E name docs))"

definition documentSeparator :: string where
  "documentSeparator = [nl] @ ''---'' @ [nl]"

definition loadClusterRoleByName :: "rbac_env \<Rightarrow> string \<Rightarrow> string \<Rightarrow> string + cluster_role" where
  "loadClusterRoleByName E path name =
     (case readFile E path of
        Inl e \<Rightarrow> Inl (''failed to read '' @ path @ '': '' @ e)
      | Inr data \<Rightarrow>
          (case findRole E name (splitAt documentSeparator [] data) of
             Some role \<Rightarrow> Inr role
           | None \<Rightarrow> Inl (''ClusterRole '' @ goQuote name @ '' not found in '' @ path)))"

section \<open>Reporting\<close>

definition permKey :: "permission \<Rightarrow> string" where
  "permKey p = permGroup p @ ''/'' @ permResource p"

text \<open>The verb \<open>%-30s\<close>; groups and resources are ASCII, so bytes are characters.\<close>

definition padRight30 :: "string \<Rightarrow> string" where
  "padRight30 s = s @ replicate (30 - length s) sp"

definition missingLine :: "permission list \<Rightarrow> permission \<Rightarrow> string" where
  "missingLine missing p =
     (let group = (if permGroup p = [] then [dquote, dquote] else permGroup p);
          verbs = map permVerb (filter (\<lambda>q. permKey q = permKey p) missing) in
      ''  groups='' @ padRight30 group @ '' resources='' @ padRight30 (permResource p) @ '' verbs='' @
      join '';'' verbs @ [nl])"

text \<open>The second loop: a key is printed at its first permission and then deleted from the map.\<close>

fun missingLines :: "permission list \<Rightarrow> string list \<Rightarrow> permission list \<Rightarrow> string list" where
  "missingLines missing printed [] = []"
| "missingLines missing printed (p # ps) =
     (if permKey p \<in> set printed then missingLines missing printed ps
      else missingLine missing p # missingLines missing (permKey p # printed) ps)"

definition printMissing :: "string \<Rightarrow> string \<Rightarrow> permission list \<Rightarrow> string" where
  "printMissing target source missing =
     (let sorted = sort missing in
      ''FAIL: '' @ target @ '' is missing '' @ formatNat (length sorted) @ '' permission(s) required by '' @
      source @ '':'' @ [nl, nl] @ concat (missingLines sorted [] sorted))"

section \<open>The program\<close>

record outcome =
  exitCode :: int
  stdout :: string
  stderr :: string

definition namespacePermissions :: "permission list" where
  "namespacePermissions = map (Permission [] ''namespaces'') [''create'', ''patch'']"

text \<open>The loop over the keys of one map that are not keys of another.\<close>

definition missingFrom :: "rbac_env \<Rightarrow> permission set \<Rightarrow> permission set \<Rightarrow> permission list" where
  "missingFrom E needed granted = filter (\<lambda>p. p \<notin> granted) (rangePerms E needed)"

definition chartCheck :: "rbac_env \<Rightarrow> permission set \<Rightarrow> string \<Rightarrow> string \<Rightarrow> string \<Rightarrow> outcome" where
  "chartCheck E modulePerms chartPath role out =
     (case loadClusterRoleByName E chartPath role of
        Inl e \<Rightarrow> \<lparr>exitCode = 1, stdout = out, stderr = ''Error: '' @ e @ [nl]\<rparr>
      | Inr chartRole \<Rightarrow>
          let chartMissing = missingFrom E modulePerms (extractPermissions chartRole) in
          if chartMissing \<noteq> []
          then \<lparr>exitCode = 1, stdout = out,
                stderr = printMissing (''chart ClusterRole '' @ goQuote role) ''the source role'' chartMissing @
                         [nl] @ ''Regenerate the chart with: make helm'' @ [nl]\<rparr>
          else \<lparr>exitCode = 0,
                stdout = out @ ''OK: chart ClusterRole '' @ goQuote role @ '' is in sync with the source role.'' @ [nl],
                stderr = []\<rparr>)"

definition verifyRbacMain :: "rbac_env \<Rightarrow> string list \<Rightarrow> outcome" where
  "verifyRbacMain E args =
     (if length args < 3 \<or> length args > 5
      then \<lparr>exitCode = 2, stdout = [],
            stderr = ''Usage: '' @ (if args = [] then [] else args ! 0) @
              '' <module-operator-role.yaml> <operand-role.yaml> [<chart-clusterrole.yaml> <role-name>]'' @ [nl]\<rparr>
      else
        (case loadClusterRole E (args ! 1) of
           Inl e \<Rightarrow> \<lparr>exitCode = 1, stdout = [], stderr = ''Error: '' @ e @ [nl]\<rparr>
         | Inr moduleRole \<Rightarrow>
        (case loadClusterRole E (args ! 2) of
           Inl e \<Rightarrow> \<lparr>exitCode = 1, stdout = [], stderr = ''Error: '' @ e @ [nl]\<rparr>
         | Inr operandRole \<Rightarrow>
             let modulePerms = extractPermissions moduleRole;
                 operandPerms = extractPermissions operandRole;
                 missingNamespacePerms = filter (\<lambda>p. p \<notin> operandPerms) namespacePermissions in
             if missingNamespacePerms \<noteq> []
             then \<lparr>exitCode = 1, stdout = [],
                   stderr = printMissing ''bundled operand RBAC'' ''Data Registry namespace reconciliation''
                     missingNamespacePerms\<rparr>
             else
               let missing = missingFrom E operandPerms modulePerms in
               if missing \<noteq> []
               then \<lparr>exitCode = 1, stdout = [],
                     stderr = printMissing ''module operator RBAC'' ''the operand'' missing @ [nl] @
                       ''Add the missing permissions to the kubebuilder:rbac annotations in:'' @ [nl] @
                       ''  internal/controller/feastoperator/feastoperator_controller.go'' @ [nl] @
                       ''Then run: make manifests'' @ [nl]\<rparr>
               else
                 let out = ''OK: module operator RBAC covers all operand permissions.'' @ [nl] in
                 if length args = 5 then chartCheck E modulePerms (args ! 3) (args ! 4) out
                 else \<lparr>exitCode = 0, stdout = out, stderr = []\<rparr>)))"

section \<open>Map order\<close>

text \<open>What ranging over a map of permissions may yield.\<close>

definition enumerates :: "rbac_env \<Rightarrow> bool" where
  "enumerates E \<longleftrightarrow> (\<forall>S. finite S \<longrightarrow> distinct (rangePerms E S) \<and> set (rangePerms E S) = S)"

lemma missingFrom_set:
  assumes "enumerates E" "finite needed"
  shows "set (missingFrom E needed granted) = needed - granted" "distinct (missingFrom E needed granted)"
  using assms by (auto simp: enumerates_def missingFrom_def)

lemma missingFrom_empty:
  assumes "enumerates E" "finite needed"
  shows "missingFrom E needed granted = [] \<longleftrightarrow> needed \<subseteq> granted"
  using missingFrom_set(1) [OF assms, of granted] by (metis Diff_eq_empty_iff set_empty)

lemma sort_missing:
  assumes "enumerates E" "enumerates E'" "finite needed"
  shows "sort (missingFrom E needed granted) = sort (missingFrom E' needed granted)"
  using missingFrom_set [OF assms(1,3)] missingFrom_set [OF assms(2,3)]
  by (metis sorted_distinct_set_unique sorted_sort distinct_sort set_sort)

lemma printMissing_order:
  assumes "enumerates E" "enumerates E'" "finite needed"
  shows "printMissing t s (missingFrom E needed granted) = printMissing t s (missingFrom E' needed granted)"
  by (simp only: printMissing_def sort_missing [OF assms])

lemma findRole_cong: "unmarshalRole E = unmarshalRole E' \<Longrightarrow> findRole E name docs = findRole E' name docs"
  by (induction docs) (simp_all add: Let_def split: sum.splits)

text \<open>The search is a find over the roles that the documents parse to.\<close>

definition parsedRoles :: "rbac_env \<Rightarrow> string list \<Rightarrow> cluster_role list" where
  "parsedRoles E docs =
     List.map_filter (\<lambda>doc.
       if trimSpace doc = [] then None
       else (case unmarshalRole E (trimSpace doc) of Inl _ \<Rightarrow> None | Inr role \<Rightarrow> Some role)) docs"

lemma findRole_find: "findRole E name docs = find (\<lambda>role. roleName role = name) (parsedRoles E docs)"
  by (induction docs) (simp_all add: parsedRoles_def List.map_filter_simps Let_def split: sum.splits)

section \<open>The verdict\<close>

text \<open>What the check is about, without the reporting.\<close>

definition covers :: "rbac_env \<Rightarrow> string list \<Rightarrow> bool" where
  "covers E args \<longleftrightarrow>
     (\<exists>modRole opRole. loadClusterRole E (args ! 1) = Inr modRole \<and> loadClusterRole E (args ! 2) = Inr opRole \<and>
        set namespacePermissions \<subseteq> extractPermissions opRole \<and>
        extractPermissions opRole \<subseteq> extractPermissions modRole \<and>
        (length args = 5 \<longrightarrow>
           (\<exists>chartRole. loadClusterRoleByName E (args ! 3) (args ! 4) = Inr chartRole \<and>
              extractPermissions modRole \<subseteq> extractPermissions chartRole)))"

lemma filter_empty_subset: "filter (\<lambda>p. p \<notin> A) xs = [] \<longleftrightarrow> set xs \<subseteq> A"
  by (auto simp: filter_empty_conv)

lemma chartCheck_exit:
  assumes "enumerates E" "finite needed"
  shows "exitCode (chartCheck E needed path role out) =
    (if \<exists>r. loadClusterRoleByName E path role = Inr r \<and> needed \<subseteq> extractPermissions r then 0 else 1)"
  by (auto simp: chartCheck_def Let_def missingFrom_empty [OF assms] split: sum.splits)

lemma verifyRbac_exit:
  assumes "enumerates E"
  shows "exitCode (verifyRbacMain E args) =
    (if length args < 3 \<or> 5 < length args then 2 else if covers E args then 0 else 1)"
proof (cases "length args < 3 \<or> 5 < length args")
  case False
  show ?thesis
  proof (cases "loadClusterRole E (args ! 1)")
    case mod: (Inr modRole)
    show ?thesis
    proof (cases "loadClusterRole E (args ! 2)")
      case (Inr opRole)
      with False mod show ?thesis
        by (auto simp: verifyRbacMain_def Let_def covers_def filter_empty_subset
            missingFrom_empty [OF assms] chartCheck_exit [OF assms])
    qed (use False mod in \<open>auto simp: verifyRbacMain_def covers_def\<close>)
  qed (use False in \<open>auto simp: verifyRbacMain_def covers_def\<close>)
qed (simp add: verifyRbacMain_def)

end
