(* ===== verification/RbacProps.thy ===== *)
theory RbacProps
  imports VerifyRbac
begin

text \<open>The properties of the RBAC check, with a concrete file system to run it on.\<close>

section \<open>A concrete environment\<close>

definition narrowRule :: policy_rule where
  "narrowRule = \<lparr>ruleAPIGroups = [''rbac.authorization.k8s.io''], ruleResources = [''clusterroles''],
     ruleVerbs = [''bind''], ruleResourceNames = [''system:auth-delegator'']\<rparr>"

definition namespaceRule :: policy_rule where
  "namespaceRule = \<lparr>ruleAPIGroups = [[]], ruleResources = [''namespaces''], ruleVerbs = [''create'', ''patch''],
     ruleResourceNames = []\<rparr>"

definition demoRoles :: "string \<Rightarrow> string + cluster_role" where
  "demoRoles data =
     (if data = ''module'' then Inr \<lparr>roleName = ''manager-role'', roleRules = [namespaceRule, narrowRule]\<rparr>
      else if data = ''operand'' then Inr \<lparr>roleName = ''operand-role'', roleRules = [namespaceRule]\<rparr>
      else if data = ''operand-bind''
      then Inr \<lparr>roleName = ''operand-role'', roleRules = [namespaceRule, narrowRule\<lparr>ruleResourceNames := []\<rparr>]\<rparr>
      else Inl ''not a role'')"

definition demoEnv :: rbac_env where
  "demoEnv = \<lparr>readFile = Inr, unmarshalRole = demoRoles, rangePerms = sorted_list_of_set\<rparr>"

definition reverseEnv :: rbac_env where
  "reverseEnv = demoEnv\<lparr>rangePerms := \<lambda>S. rev (sorted_list_of_set S)\<rparr>"

lemma demo_enumerates: "enumerates demoEnv" "enumerates reverseEnv"
  by (simp_all add: enumerates_def demoEnv_def reverseEnv_def)

section \<open>The properties\<close>

text \<open>
  C27. The exit code is the verdict: 2 for a wrong number of arguments, otherwise 0 exactly when both
  roles load, the operand's role has the two namespace permissions, every permission of the operand
  is one of the module operator, and, with all five arguments, the named role of the chart has every
  permission of the module operator; 1 in every other case.
\<close>

theorem exit_code_is_verdict:
  assumes "enumerates E"
  shows "exitCode (verifyRbacMain E args) =
    (if length args < 3 \<or> 5 < length args then 2
     else if \<exists>modRole opRole. loadClusterRole E (args ! 1) = Inr modRole \<and> loadClusterRole E (args ! 2) = Inr opRole \<and>
            Permission [] ''namespaces'' ''create'' \<in> extractPermissions opRole \<and>
            Permission [] ''namespaces'' ''patch'' \<in> extractPermissions opRole \<and>
            extractPermissions opRole \<subseteq> extractPermissions modRole \<and>
            (length args = 5 \<longrightarrow>
               (\<exists>chartRole. loadClusterRoleByName E (args ! 3) (args ! 4) = Inr chartRole \<and>
                  extractPermissions modRole \<subseteq> extractPermissions chartRole))
     then 0 else 1)"
  unfolding verifyRbac_exit [OF assms] covers_def namespacePermissions_def by simp

lemma exit_code_is_verdict_witness:
  "exitCode (verifyRbacMain demoEnv [''verify'', ''module'', ''operand'']) = 0"
proof -
  have "extractPermissions \<lparr>roleName = ''operand-role'', roleRules = [namespaceRule]\<rparr> \<subseteq>
    extractPermissions \<lparr>roleName = ''manager-role'', roleRules = [namespaceRule, narrowRule]\<rparr>"
    by (auto simp: extractPermissions_def)
  then show ?thesis
    unfolding exit_code_is_verdict [OF demo_enumerates(1)]
    by (simp add: loadClusterRole_def demoEnv_def demoRoles_def extractPermissions_iff namespaceRule_def)
qed

text \<open>
  C28. The whole outcome, exit code and printed text, does not depend on the order in which Go ranges
  over its maps.
\<close>

theorem outcome_deterministic:
  assumes "enumerates E" "enumerates E'" "readFile E' = readFile E" "unmarshalRole E' = unmarshalRole E"
  shows "verifyRbacMain E' args = verifyRbacMain E args"
proof -
  have load: "loadClusterRole E' path = loadClusterRole E path" for path
    unfolding loadClusterRole_def assms(3,4) ..
  have byName: "loadClusterRoleByName E' path name = loadClusterRoleByName E path name" for path name
    unfolding loadClusterRoleByName_def assms(3) findRole_cong [OF assms(4)] ..
  have empty: "missingFrom E' (extractPermissions role) granted = [] \<longleftrightarrow> missingFrom E (extractPermissions role) granted = []"
    for role granted using assms(1,2) by (simp add: missingFrom_empty)
  have shown: "printMissing t s (missingFrom E' (extractPermissions role) granted) =
      printMissing t s (missingFrom E (extractPermissions role) granted)" for t s role granted
    using assms(1,2) by (simp add: printMissing_order [of E' E])
  have chart: "chartCheck E' (extractPermissions role) path name out = chartCheck E (extractPermissions role) path name out"
    for role path name out
    unfolding chartCheck_def Let_def byName empty shown ..
  show ?thesis unfolding verifyRbacMain_def Let_def load empty shown chart ..
qed

lemma outcome_deterministic_witness:
  "verifyRbacMain reverseEnv [''verify'', ''module'', ''operand-bind''] = verifyRbacMain demoEnv [''verify'', ''module'', ''operand-bind'']"
  using outcome_deterministic [OF demo_enumerates] by (simp add: reverseEnv_def demoEnv_def)

lemma missingLines_firsts:
  "\<exists>ps. missingLines missing printed qs = map (missingLine missing) ps \<and> set ps \<subseteq> set qs \<and>
     distinct (map permKey ps) \<and> permKey ` set ps = permKey ` set qs - set printed"
proof (induction qs arbitrary: printed)
  case (Cons q qs)
  show ?case
  proof (cases "permKey q \<in> set printed")
    case True
    with Cons.IH [of printed] show ?thesis by fastforce
  next
    case False
    from Cons.IH [of "permKey q # printed"] obtain ps
      where ps: "missingLines missing (permKey q # printed) qs = map (missingLine missing) ps" "set ps \<subseteq> set qs"
        "distinct (map permKey ps)" "permKey ` set ps = permKey ` set qs - set (permKey q # printed)" by blast
    with False show ?thesis by (intro exI [of _ "q # ps"]) auto
  qed
qed simp

text \<open>
  The report is complete and does not repeat itself: for every missing permission there is
  exactly one line of its API group and resource, which lists the verbs of all missing permissions of
  that group and resource, and there are no other lines.
\<close>

lemma report_complete:
  "\<exists>ps. printMissing target source missing =
     ''FAIL: '' @ target @ '' is missing '' @ formatNat (length missing) @ '' permission(s) required by '' @ source @ '':'' @ [nl, nl] @
     concat (map (missingLine (sort missing)) ps) \<and>
     distinct (map permKey ps) \<and> set ps \<subseteq> set missing \<and> permKey ` set ps = permKey ` set missing"
  using missingLines_firsts [of "sort missing" "[]" "sort missing"]
  by (auto simp: printMissing_def Let_def)

text \<open>
  The check does not look at \<open>resourceNames\<close>: two roles that differ only there have the same
  permissions. So a module operator that may bind a single cluster role is accepted for an operand
  that needs to bind every one.
\<close>

lemma resource_names_ignored:
  "extractPermissions (role\<lparr>roleRules := map (ruleResourceNames_update f) (roleRules role)\<rparr>) = extractPermissions role \<and>
   exitCode (verifyRbacMain demoEnv [''verify'', ''module'', ''operand-bind'']) = 0"
proof -
  have "rulePermissions \<circ> ruleResourceNames_update f = rulePermissions"
    by (rule ext) (simp add: rulePermissions_def)
  then have same: "extractPermissions (role\<lparr>roleRules := map (ruleResourceNames_update f) (roleRules role)\<rparr>) = extractPermissions role"
    for role f by (simp add: extractPermissions_def rulePermissions_def)
  let ?op = "\<lparr>roleName = ''operand-role'', roleRules = [namespaceRule, narrowRule\<lparr>ruleResourceNames := []\<rparr>]\<rparr>"
  have "extractPermissions ?op \<subseteq> extractPermissions \<lparr>roleName = ''manager-role'', roleRules = [namespaceRule, narrowRule]\<rparr>"
    by (auto simp: extractPermissions_def rulePermissions_def)
  then have "exitCode (verifyRbacMain demoEnv [''verify'', ''module'', ''operand-bind'']) = 0"
    unfolding verifyRbac_exit [OF demo_enumerates(1)] covers_def namespacePermissions_def
    by (simp add: loadClusterRole_def demoEnv_def demoRoles_def extractPermissions_iff namespaceRule_def narrowRule_def)
  with same show ?thesis by blast
qed

end
