(* ===== verification/ChartLines.thy ===== *)
theory ChartLines
  imports GoStrings
begin

text \<open>
  The rewriting of rendered manifests into Helm templates in \<^verbatim>\<open>cmd/chartgen/chart.go\<close>. Each function
  splits the YAML text into lines, rewrites lines, and joins them. Where the rewriting of a line does
  not depend on the lines before it, it is an instance of the locale \<open>line_rewrite\<close>.
\<close>

section \<open>Constants\<close>

definition yamlFieldNamespace :: string where "yamlFieldNamespace = ''namespace:''"
definition yamlFieldServiceAccountName :: string where "yamlFieldServiceAccountName = ''serviceAccountName:''"
definition yamlFieldSubjects :: string where "yamlFieldSubjects = ''subjects:''"
definition yamlFieldName :: string where "yamlFieldName = ''name:''"
definition yamlFieldImage :: string where "yamlFieldImage = ''image:''"
definition yamlFieldImagePullPolicy :: string where "yamlFieldImagePullPolicy = ''imagePullPolicy:''"
definition yamlFieldReplicas :: string where "yamlFieldReplicas = ''replicas:''"
definition yamlFieldResources :: string where "yamlFieldResources = ''resources:''"
definition yamlFieldData :: string where "yamlFieldData = ''data:''"
definition yamlFieldEnv :: string where "yamlFieldEnv = ''env:''"
definition yamlFieldMetadata :: string where "yamlFieldMetadata = ''metadata:''"

definition tplReleaseNamespace :: string where
  "tplReleaseNamespace = ''namespace: {{ default .Release.Namespace .Values.namespace }}''"

definition tplServiceAccountName :: string where
  \<open>tplServiceAccountName = ''{{ default (include "chart.fullname" .) .Values.serviceAccount.name }}''\<close>

definition annotationCertManagerInjectCAFrom :: string where
  "annotationCertManagerInjectCAFrom = ''cert-manager.io/inject-ca-from''"

section \<open>Lines\<close>

definition mapLines :: "(string \<Rightarrow> string) \<Rightarrow> string \<Rightarrow> string" where
  "mapLines f raw = joinLines (map f (splitLines raw))"

definition flatLines :: "(string \<Rightarrow> string list) \<Rightarrow> string \<Rightarrow> string" where
  "flatLines f raw = joinLines (concat (map f (splitLines raw)))"

text \<open>The test of a line for a field with a hard-coded value.\<close>

definition isField :: "string \<Rightarrow> string \<Rightarrow> bool" where
  "isField field line \<longleftrightarrow> hasPrefix (trimSpace line) field \<and> \<not> contains (trimSpace line) ''{{''"

text \<open>A rewriting of single lines: it makes no new lines, and doing it twice is doing it once.\<close>

locale line_rewrite =
  fixes f :: "string \<Rightarrow> string"
  assumes one_line: "nl \<notin> set line \<Longrightarrow> nl \<notin> set (f line)"
    and again: "f (f line) = f line"
begin

lemma lines_of: "splitLines (mapLines f raw) = map f (splitLines raw)"
  unfolding mapLines_def
  by (rule splitOn_join) (auto intro!: one_line dest: splitOn_no_sep)

lemma idempotent: "mapLines f (mapLines f raw) = mapLines f raw"
proof -
  have "mapLines f (mapLines f raw) = joinLines (map f (splitLines (mapLines f raw)))" by (rule mapLines_def)
  also have "\<dots> = joinLines (map f (map f (splitLines raw)))" by (simp only: lines_of)
  finally show ?thesis by (simp add: again o_def mapLines_def)
qed

lemma same_count: "length (splitLines (mapLines f raw)) = length (splitLines raw)"
  by (simp add: lines_of)

end

section \<open>Fields with a template for their value\<close>

definition namespaceLine :: "string \<Rightarrow> string" where
  "namespaceLine line =
     (if isField yamlFieldNamespace line then indentOf line @ tplReleaseNamespace else line)"

definition replaceNamespace :: "string \<Rightarrow> string" where
  "replaceNamespace raw = mapLines namespaceLine raw"

definition replicasLine :: "string \<Rightarrow> string" where
  "replicasLine line =
     (if isField yamlFieldReplicas line then indentOf line @ ''replicas: {{ .Values.replicas }}'' else line)"

definition replaceReplicas :: "string \<Rightarrow> string" where
  "replaceReplicas raw = mapLines replicasLine raw"

definition serviceAccountLine :: "string \<Rightarrow> string" where
  "serviceAccountLine line =
     (if isField yamlFieldServiceAccountName line
      then indentOf line @ yamlFieldServiceAccountName @ '' '' @ tplServiceAccountName else line)"

definition replaceServiceAccountName :: "string \<Rightarrow> string" where
  "replaceServiceAccountName raw = mapLines serviceAccountLine raw"

definition subjectNameLine :: "string \<Rightarrow> string" where
  "subjectNameLine line =
     (if isField yamlFieldName line then indentOf line @ yamlFieldName @ '' '' @ tplServiceAccountName else line)"

section \<open>Lines that become several, or none\<close>

definition imageTemplate :: string where
  \<open>imageTemplate = ''image: "{{ include "chart.imageRef" . }}"''\<close>

definition pullPolicyTemplate :: string where
  "pullPolicyTemplate = ''imagePullPolicy: Always''"

definition imageLines :: "string \<Rightarrow> string list" where
  "imageLines line =
     (if isField yamlFieldImage line
      then [indentOf line @ imageTemplate, indentOf line @ pullPolicyTemplate]
      else if hasPrefix (trimSpace line) yamlFieldImagePullPolicy then []
      else [line])"

definition replaceImageField :: "string \<Rightarrow> string" where
  "replaceImageField raw = flatLines imageLines raw"

definition pullSecretLines :: "string \<Rightarrow> string list" where
  "pullSecretLines line =
     line # (if hasPrefix (trimSpace line) yamlFieldServiceAccountName
             then [indentOf line @ ''{{- with .Values.imagePullSecret }}'',
                   indentOf line @ ''imagePullSecrets:'',
                   indentOf line @ ''  - name: {{ . }}'',
                   indentOf line @ ''{{- end }}'']
             else [])"

definition addImagePullSecrets :: "string \<Rightarrow> string" where
  "addImagePullSecrets raw = flatLines pullSecretLines raw"

definition envLines :: "string \<Rightarrow> string list" where
  "envLines line =
     line # (if trimSpace line \<noteq> yamlFieldEnv then []
             else [indentOf line @ ''{{- range $key, $val := .Values.extraEnvs }}'',
                   indentOf line @ ''- name: {{ $key | quote }}'',
                   indentOf line @ ''  value: {{ $val | quote }}'',
                   indentOf line @ ''{{- end }}''])"

definition injectExtraEnvs :: "string \<Rightarrow> string" where
  "injectExtraEnvs raw = flatLines envLines raw"

section \<open>Blocks\<close>

text \<open>The inner loop over the original block.\<close>

definition skipBlock :: "nat \<Rightarrow> string list \<Rightarrow> string list" where
  "skipBlock baseIndent ls = dropWhile (\<lambda>line. trimSpace line = [] \<or> length (indentOf line) \<ge> baseIndent) ls"

function resourceLines :: "string list \<Rightarrow> string list" where
  "resourceLines [] = []"
| "resourceLines (line # ls) =
     (if trimSpace line = yamlFieldResources
      then (indentOf line @ ''resources:'') #
           (indentOf line @ ''  {{- toYaml .Values.resources | nindent '' @ formatNat (length (indentOf line) + 2) @ '' }}'') #
           resourceLines (skipBlock (length (indentOf line) + 2) ls)
      else line # resourceLines ls)"
  by pat_completeness auto

termination
  by (relation "measure length") (auto simp: skipBlock_def le_imp_less_Suc length_dropWhile_le)

definition replaceResources :: "string \<Rightarrow> string" where
  "replaceResources raw = joinLines (resourceLines (splitLines raw))"

text \<open>A line that is not indented and not blank ends a section.\<close>

definition topLevel :: "string \<Rightarrow> bool" where
  "topLevel line \<longleftrightarrow> \<not> hasPrefix line [sp] \<and> \<not> hasPrefix line [tab] \<and> trimSpace line \<noteq> []"

fun accountLines :: "string \<Rightarrow> bool \<Rightarrow> string list \<Rightarrow> string list" where
  "accountLines originalName inMetadata [] = []"
| "accountLines originalName inMetadata (line # ls) =
     (let trimmed = trimSpace line; indent = indentOf line;
          inMeta = (if trimmed = yamlFieldMetadata then True else if topLevel line then False else inMetadata) in
      (if inMeta \<and> hasPrefix trimmed yamlFieldName \<and> contains trimmed originalName
       then [indent @ yamlFieldName @ '' '' @ tplServiceAccountName,
             indent @ ''{{- with .Values.serviceAccount.annotations }}'',
             indent @ ''annotations:'',
             indent @ ''  {{- toYaml . | nindent '' @ formatNat (length indent + 2) @ '' }}'',
             indent @ ''{{- end }}'']
       else [line]) @ accountLines originalName inMeta ls)"

definition replaceServiceAccountMetadata :: "string \<Rightarrow> string \<Rightarrow> string" where
  "replaceServiceAccountMetadata raw originalName = joinLines (accountLines originalName False (splitLines raw))"

text \<open>The loop of the two functions on \<open>subjects\<close>; they differ in the line they rewrite.\<close>

fun subjectsLines :: "(string \<Rightarrow> string) \<Rightarrow> bool \<Rightarrow> string list \<Rightarrow> string list" where
  "subjectsLines f inSubjects [] = []"
| "subjectsLines f inSubjects (line # ls) =
     (if trimSpace line = yamlFieldSubjects then line # subjectsLines f True ls
      else
        let stays = (inSubjects \<and> \<not> (topLevel line \<and> \<not> hasPrefix (trimSpace line) ''-'')) in
        (if stays then f line else line) # subjectsLines f stays ls)"

definition replaceSubjectsNamespace :: "string \<Rightarrow> string" where
  "replaceSubjectsNamespace raw = joinLines (subjectsLines namespaceLine False (splitLines raw))"

definition replaceSubjectsServiceAccount :: "string \<Rightarrow> string" where
  "replaceSubjectsServiceAccount raw = joinLines (subjectsLines subjectNameLine False (splitLines raw))"

text \<open>The namespace in the value of the cert-manager annotation.\<close>

definition annotationLine :: "string \<Rightarrow> string" where
  "annotationLine line =
     (if contains line annotationCertManagerInjectCAFrom
      then
        (case splitN (CHR '':'') 2 line of
           [key, rest] \<Rightarrow>
             (case splitN (CHR ''/'') 2 (trimSpace rest) of
                [_, name] \<Rightarrow> indentOf line @ trimSpace key @ '': {{ .Values.namespace }}/'' @ name
              | _ \<Rightarrow> line)
         | _ \<Rightarrow> line)
      else line)"

definition replaceWebhookNamespace :: "string \<Rightarrow> string" where
  "replaceWebhookNamespace raw = mapLines annotationLine (replaceNamespace raw)"

text \<open>The DNS names of a certificate, \<^verbatim>\<open>service.namespace.svc\<close> and longer.\<close>

definition dnsLine :: "string \<Rightarrow> string" where
  "dnsLine line =
     (case splitN (CHR ''.'') 3 (trimPrefix (trimSpace line) ''- '') of
        [svc, _, domain] \<Rightarrow> indentOf line @ ''- '' @ svc @ ''.{{ .Values.namespace }}.'' @ domain
      | _ \<Rightarrow> line)"

fun dnsLines :: "bool \<Rightarrow> string list \<Rightarrow> string list" where
  "dnsLines inDNSNames [] = []"
| "dnsLines inDNSNames (line # ls) =
     (let trimmed = trimSpace line in
      if trimmed = ''dnsNames:'' then line # dnsLines True ls
      else
        let stays = (inDNSNames \<and> \<not> (\<not> hasPrefix trimmed ''-'' \<and> trimmed \<noteq> [])) in
        (if stays \<and> hasPrefix trimmed ''- '' \<and> contains trimmed ''.svc'' then dnsLine line else line) #
        dnsLines stays ls)"

definition replaceCertificateDNSNames :: "string \<Rightarrow> string" where
  "replaceCertificateDNSNames raw = joinLines (dnsLines False (splitLines raw))"

text \<open>The data section of a ConfigMap.\<close>

definition dataDirectives :: "string \<Rightarrow> string list" where
  "dataDirectives indent =
     [indent @ ''{{- if or .Values.imagePullSecret .Values.config }}'',
      indent @ ''data:'',
      indent @ ''  {{- with .Values.imagePullSecret }}'',
      indent @ ''  imagePullSecret: {{ . }}'',
      indent @ ''  {{- end }}'',
      indent @ ''  {{- range $key, $val := .Values.config }}'',
      indent @ ''  {{ $key }}: {{ $val | quote }}'',
      indent @ ''  {{- end }}'',
      indent @ ''{{- end }}'']"

text \<open>The loop, with the values of \<open>inData\<close> and \<open>hasData\<close>; the second is returned with the lines.\<close>

fun configLines :: "bool \<Rightarrow> bool \<Rightarrow> string list \<Rightarrow> string list \<times> bool" where
  "configLines inData hasData [] = ([], hasData)"
| "configLines inData hasData (line # ls) =
     (let trimmed = trimSpace line in
      if trimmed = yamlFieldData
      then (case configLines True True ls of (rest, h) \<Rightarrow> (dataDirectives (indentOf line) @ rest, h))
      else if inData \<and> \<not> (trimmed \<noteq> [] \<and> \<not> hasPrefix line [sp, sp])
      then configLines True hasData ls
      else (case configLines False hasData ls of (rest, h) \<Rightarrow> (line # rest, h)))"

definition injectConfigMapValues :: "string \<Rightarrow> string" where
  "injectConfigMapValues raw =
     (case configLines False False (splitLines raw) of
        (result, hasData) \<Rightarrow> joinLines (if hasData then result else result @ dataDirectives []))"

section \<open>The line rewritings are instances\<close>

lemma contains_append: "contains (a @ t @ b) t"
  by (simp add: contains_def)

lemma contains_braces: "contains t ''{{'' \<Longrightarrow> \<not> isField field (indentOf line @ t)" if "solid t" for t
  using that by (simp add: isField_def trimSpace_template)

lemma templates_solid:
  "solid tplReleaseNamespace" "solid ''replicas: {{ .Values.replicas }}''"
  "solid (yamlFieldServiceAccountName @ '' '' @ tplServiceAccountName)" "solid (yamlFieldName @ '' '' @ tplServiceAccountName)"
  "solid imageTemplate" "solid pullPolicyTemplate"
  by (simp_all add: imageTemplate_def pullPolicyTemplate_def solid_def visible_def tplReleaseNamespace_def tplServiceAccountName_def
      yamlFieldServiceAccountName_def yamlFieldName_def)

lemma templates_braces:
  "contains tplReleaseNamespace ''{{''" "contains ''replicas: {{ .Values.replicas }}'' ''{{''"
  "contains (yamlFieldServiceAccountName @ '' '' @ tplServiceAccountName) ''{{''"
  "contains (yamlFieldName @ '' '' @ tplServiceAccountName) ''{{''" "contains imageTemplate ''{{''"
  by (simp_all add: imageTemplate_def contains_def sublist_code tplReleaseNamespace_def tplServiceAccountName_def
      yamlFieldServiceAccountName_def yamlFieldName_def)

lemma templates_one_line:
  "nl \<notin> set tplReleaseNamespace" "nl \<notin> set ''replicas: {{ .Values.replicas }}''"
  "nl \<notin> set (yamlFieldServiceAccountName @ '' '' @ tplServiceAccountName)" "nl \<notin> set (yamlFieldName @ '' '' @ tplServiceAccountName)"
  by (simp_all add: tplReleaseNamespace_def tplServiceAccountName_def yamlFieldServiceAccountName_def yamlFieldName_def)

text \<open>One proof for the four of them.\<close>

lemma template_rewrite:
  assumes "solid t" "contains t ''{{''" "nl \<notin> set t"
  shows "line_rewrite (\<lambda>line. if isField field line then indentOf line @ t else line)"
proof
  fix line
  show "nl \<notin> set (if isField field line then indentOf line @ t else line)" if "nl \<notin> set line"
    using that assms(3) indentOf_blanks [of nl line] by auto
  show "(if isField field (if isField field line then indentOf line @ t else line)
      then indentOf (if isField field line then indentOf line @ t else line) @ t
      else (if isField field line then indentOf line @ t else line)) =
    (if isField field line then indentOf line @ t else line)"
    using contains_braces [OF assms(1,2)] by simp
qed

interpretation ns: line_rewrite namespaceLine
  using template_rewrite [OF templates_solid(1) templates_braces(1) templates_one_line(1)]
  unfolding namespaceLine_def [abs_def] .

interpretation reps: line_rewrite replicasLine
  using template_rewrite [OF templates_solid(2) templates_braces(2) templates_one_line(2)]
  unfolding replicasLine_def [abs_def] .

interpretation sa: line_rewrite serviceAccountLine
  using template_rewrite [OF templates_solid(3) templates_braces(3) templates_one_line(3)]
  unfolding serviceAccountLine_def [abs_def] .

interpretation subj: line_rewrite subjectNameLine
  using template_rewrite [OF templates_solid(4) templates_braces(4) templates_one_line(4)]
  unfolding subjectNameLine_def [abs_def] .

text \<open>After a rewriting no line has the field with a hard-coded value.\<close>

lemma namespaceLine_clean: "\<not> isField yamlFieldNamespace (namespaceLine line)"
  using contains_braces [OF templates_solid(1) templates_braces(1)] by (simp add: namespaceLine_def)

lemma replicasLine_clean: "\<not> isField yamlFieldReplicas (replicasLine line)"
  using contains_braces [OF templates_solid(2) templates_braces(2)] by (simp add: replicasLine_def)

lemma serviceAccountLine_clean: "\<not> isField yamlFieldServiceAccountName (serviceAccountLine line)"
  using contains_braces [OF templates_solid(3) templates_braces(3)] by (simp add: serviceAccountLine_def)

section \<open>Rewritings that add or drop lines\<close>

lemma flatLines_lines:
  assumes "\<And>line l. nl \<notin> set line \<Longrightarrow> l \<in> set (f line) \<Longrightarrow> nl \<notin> set l"
    and "concat (map f (splitLines raw)) \<noteq> []"
  shows "splitLines (flatLines f raw) = concat (map f (splitLines raw))"
  unfolding flatLines_def using assms by (intro splitOn_join) (auto dest!: splitOn_no_sep)

lemma subjectsLines_id:
  assumes "\<And>line. line \<in> set ls \<Longrightarrow> f line = line"
  shows "subjectsLines f inS ls = ls"
  using assms by (induction ls arbitrary: inS) (simp_all add: Let_def)

lemma skipBlock_split:
  assumes "\<And>line. line \<in> set block \<Longrightarrow> trimSpace line = [] \<or> n \<le> length (indentOf line)"
    and "rest = [] \<or> trimSpace (hd rest) \<noteq> [] \<and> length (indentOf (hd rest)) < n"
  shows "skipBlock n (block @ rest) = rest"
proof -
  have "skipBlock n (block @ rest) = skipBlock n rest"
    unfolding skipBlock_def using assms(1) by (intro dropWhile_append2) auto
  also have "\<dots> = rest" using assms(2) by (cases rest) (auto simp: skipBlock_def)
  finally show ?thesis .
qed

lemma resourceLines_none:
  "(\<And>line. line \<in> set ls \<Longrightarrow> trimSpace line \<noteq> yamlFieldResources) \<Longrightarrow> resourceLines (ls @ rest) = ls @ resourceLines rest"
  by (induction ls) simp_all

lemma configLines_dropped:
  assumes "\<And>line. line \<in> set entries \<Longrightarrow> trimSpace line \<noteq> yamlFieldData \<and> (trimSpace line = [] \<or> hasPrefix line [sp, sp])"
  shows "configLines True h (entries @ rest) = configLines True h rest"
  using assms by (induction entries) (simp_all add: Let_def)

lemma configLines_kept:
  assumes "\<And>line. line \<in> set ls \<Longrightarrow> trimSpace line \<noteq> yamlFieldData"
  shows "configLines False h (ls @ rest) = (case configLines False h rest of (r, h') \<Rightarrow> (ls @ r, h'))"
  using assms by (induction ls) (simp_all add: Let_def split: prod.splits)

end
