(* ===== verification/ChartValues.thy ===== *)
theory ChartValues
  imports Prelude GoStrings "HOL-Library.Word"
begin

text \<open>
  \<^verbatim>\<open>cmd/chartgen/values.go\<close>: the values of the Helm chart, their defaults, and their extraction from
  the first Deployment. Objects are values of an abstract type \<open>'o\<close>; the accessors of
  \<^verbatim>\<open>unstructured\<close>, the YAML and JSON libraries and the printing of quantities are arguments.
\<close>

section \<open>Decoded values\<close>

text \<open>
  A decoded YAML value. A number decoded into \<^verbatim>\<open>any\<close> is a float64, here its integral significand and
  binary exponent: \<open>Float64 m e\<close> is \<open>m * 2 ^ e\<close> with \<open>\<bar>m\<bar> \<le> 2 ^ 53\<close>.
\<close>

datatype float64 = Float64 int int

datatype json =
    JNull
  | JBool bool
  | JString string
  | JFloat float64
  | JInt int
  | JList "json list"
  | JObject "(string \<times> json) list"

definition field :: "(string \<times> json) list \<Rightarrow> string \<Rightarrow> json option" where
  "field m k = map_of m k"

text \<open>The type assertions \<open>v.(string)\<close> and \<open>v.(map[string]any)\<close> with the second result.\<close>

definition asString :: "json option \<Rightarrow> string option" where
  "asString v = (case v of Some (JString s) \<Rightarrow> Some s | _ \<Rightarrow> None)"

definition asObject :: "json option \<Rightarrow> (string \<times> json) list option" where
  "asObject v = (case v of Some (JObject m) \<Rightarrow> Some m | _ \<Rightarrow> None)"

text \<open>
  \<open>int64(f * 1000)\<close>: the product is rounded to 53 bits, half to even, then cut towards zero. Outside
  the range of int64 the result is the one of amd64.
\<close>

fun bitLength :: "nat \<Rightarrow> nat" where
  "bitLength n = (if n = 0 then 0 else Suc (bitLength (n div 2)))"

declare bitLength.simps [simp del]

definition roundHalfEven :: "nat \<Rightarrow> nat \<Rightarrow> nat" where
  "roundHalfEven n d =
     (let q = n div d; r = n mod d in
      if 2 * r < d then q else if 2 * r > d then q + 1 else if even q then q else q + 1)"

definition milliOf :: "float64 \<Rightarrow> int" where
  "milliOf f =
     (case f of Float64 m e \<Rightarrow>
        let p = nat (abs m) * 1000;
            shift = bitLength p - 53;
            q = roundHalfEven p (2 ^ shift);
            x = e + int shift;
            t = (if 0 \<le> x then int q * 2 ^ nat x else int q div 2 ^ nat (- x));
            v = (if m < 0 then - t else t)
        in if - (2 ^ 63) \<le> v \<and> v < 2 ^ 63 then v else - (2 ^ 63))"

section \<open>Values\<close>

definition defaultImageRepository :: string where "defaultImageRepository = ''controller''"
definition defaultImageTag :: string where "defaultImageTag = ''latest''"
definition defaultLimitsCPU :: string where "defaultLimitsCPU = ''500m''"
definition defaultLimitsMemory :: string where "defaultLimitsMemory = ''128Mi''"
definition defaultRequestsCPU :: string where "defaultRequestsCPU = ''10m''"
definition defaultRequestsMemory :: string where "defaultRequestsMemory = ''64Mi''"
definition resourceKeyLimits :: string where "resourceKeyLimits = ''limits''"
definition resourceKeyRequests :: string where "resourceKeyRequests = ''requests''"
definition resourceKeyCPU :: string where "resourceKeyCPU = ''cpu''"
definition resourceKeyMemory :: string where "resourceKeyMemory = ''memory''"

record image_spec =
  imageRepository :: string
  imageTag :: string
  imageFullRef :: string

record resource_list =
  resCPU :: string
  resMemory :: string

record resource_spec =
  resLimits :: resource_list
  resRequests :: resource_list

record service_account_spec =
  saName :: string
  saAnnotations :: gomap

record chart_values =
  valNamespace :: string
  valNameOverride :: string
  valFullnameOverride :: string
  valImage :: image_spec
  valReplicas :: int
  valResources :: resource_spec
  valLeaderElect :: bool
  valServiceAccount :: service_account_spec
  valImagePullSecret :: string
  valConfig :: gomap
  valExtraEnvs :: gomap
  valUpgradeGates :: gomap

definition defaultValues :: chart_values where
  "defaultValues =
     \<lparr>valNamespace = [], valNameOverride = [], valFullnameOverride = [],
      valImage = \<lparr>imageRepository = defaultImageRepository, imageTag = defaultImageTag, imageFullRef = []\<rparr>,
      valReplicas = 1,
      valResources =
        \<lparr>resLimits = \<lparr>resCPU = defaultLimitsCPU, resMemory = defaultLimitsMemory\<rparr>,
         resRequests = \<lparr>resCPU = defaultRequestsCPU, resMemory = defaultRequestsMemory\<rparr>\<rparr>,
      valLeaderElect = True,
      valServiceAccount = \<lparr>saName = [], saAnnotations = Some fmempty\<rparr>,
      valImagePullSecret = [], valConfig = Some fmempty, valExtraEnvs = Some fmempty,
      valUpgradeGates = Some fmempty\<rparr>"

section \<open>Extraction\<close>

record gvk =
  gvkGroup :: string
  gvkVersion :: string
  gvkKind :: string

record gvk_constants =
  kNamespace :: gvk
  kDeployment :: gvk
  kServiceAccount :: gvk
  kConfigMap :: gvk
  kClusterRoleBinding :: gvk
  kRoleBinding :: gvk
  kMutatingWebhook :: gvk
  kValidatingWebhook :: gvk
  kCertificate :: gvk

text \<open>What the code uses of \<^verbatim>\<open>unstructured.Unstructured\<close> and of the encoding libraries.\<close>

record 'o objlib =
  objGVK :: "'o \<Rightarrow> gvk"
  objLabels :: "'o \<Rightarrow> gomap"
  setObjLabels :: "gomap \<Rightarrow> 'o \<Rightarrow> 'o"
  objNamespace :: "'o \<Rightarrow> string"
  objName :: "'o \<Rightarrow> string"
  objKind :: "'o \<Rightarrow> string"
  nestedSlice :: "'o \<Rightarrow> string list \<Rightarrow> json list \<times> bool"
  nestedInt64 :: "'o \<Rightarrow> string list \<Rightarrow> int \<times> bool"
  marshalObject :: "'o \<Rightarrow> goerr + string"
  unmarshalObject :: "string \<Rightarrow> goerr + 'o option"
  milliQuantity :: "int \<Rightarrow> string"
  marshalValues :: "chart_values \<Rightarrow> goerr + string"
  valuesSchema :: "goerr + string"

text \<open>The loop from the end of the image reference; the argument is the part still to be read, reversed.\<close>

fun scanTag :: "string \<Rightarrow> string \<Rightarrow> (string \<times> string) option" where
  "scanTag read_part [] = None"
| "scanTag read_part (c # rest) =
     (if c = CHR '':'' then Some (rev rest, read_part)
      else if c = CHR ''/'' then None
      else scanTag (c # read_part) rest)"

definition splitImageTag :: "string \<Rightarrow> string \<times> string" where
  "splitImageTag img =
     (case (if 0 < int (length img) - 1 then scanTag [] (rev img) else None) of
        Some parts \<Rightarrow> parts
      | None \<Rightarrow> (img, defaultImageTag))"

text \<open>One of the two blocks. The assertion \<open>cpu.(float64)\<close> panics on any other type.\<close>

definition extractList :: "'o objlib \<Rightarrow> (string \<times> json) list option \<Rightarrow> goerr + resource_list" where
  "extractList L block =
     (case block of
        None \<Rightarrow> Inr \<lparr>resCPU = [], resMemory = []\<rparr>
      | Some m \<Rightarrow>
          let memory = (case asString (field m resourceKeyMemory) of Some s \<Rightarrow> s | None \<Rightarrow> []) in
          (case field m resourceKeyCPU of
             Some (JString cpu) \<Rightarrow> Inr \<lparr>resCPU = cpu, resMemory = memory\<rparr>
           | Some (JFloat cpu) \<Rightarrow> Inr \<lparr>resCPU = milliQuantity L (milliOf cpu), resMemory = memory\<rparr>
           | Some _ \<Rightarrow> Inl (Panic ''interface conversion: interface {} is not float64'')
           | None \<Rightarrow> Inr \<lparr>resCPU = [], resMemory = memory\<rparr>))"

definition extractResources :: "'o objlib \<Rightarrow> (string \<times> json) list \<Rightarrow> goerr + resource_spec" where
  "extractResources L res =
     (case extractList L (asObject (field res resourceKeyLimits)) of
        Inl e \<Rightarrow> Inl e
      | Inr limits \<Rightarrow>
          (case extractList L (asObject (field res resourceKeyRequests)) of
             Inl e \<Rightarrow> Inl e
           | Inr requests \<Rightarrow> Inr \<lparr>resLimits = limits, resRequests = requests\<rparr>))"

definition int32 :: "int \<Rightarrow> int" where
  "int32 i = sint (word_of_int i :: 32 word)"

text \<open>The image and the resources of the first container, if it is an object.\<close>

definition extractContainer :: "'o objlib \<Rightarrow> json \<Rightarrow> chart_values \<Rightarrow> goerr + chart_values" where
  "extractContainer L container values =
     (case asObject (Some container) of
        None \<Rightarrow> Inr values
      | Some c \<Rightarrow>
          let values1 =
                (case asString (field c ''image'') of
                   Some img \<Rightarrow>
                     values\<lparr>valImage := (valImage values)\<lparr>imageRepository := fst (splitImageTag img),
                                                        imageTag := snd (splitImageTag img)\<rparr>\<rparr>
                 | None \<Rightarrow> values) in
          (case asObject (field c ''resources'') of
             None \<Rightarrow> Inr values1
           | Some res \<Rightarrow>
               (case extractResources L res of
                  Inl e \<Rightarrow> Inl e
                | Inr spec \<Rightarrow> Inr (values1\<lparr>valResources := spec\<rparr>))))"

definition extractFrom :: "'o objlib \<Rightarrow> 'o \<Rightarrow> chart_values \<Rightarrow> goerr + chart_values" where
  "extractFrom L r values =
     (case (case nestedSlice L r [''spec'', ''template'', ''spec'', ''containers''] of
              (c # _, True) \<Rightarrow> extractContainer L c values
            | _ \<Rightarrow> Inr values) of
        Inl e \<Rightarrow> Inl e
      | Inr values1 \<Rightarrow>
          (case nestedInt64 L r [''spec'', ''replicas''] of
             (replicas, found) \<Rightarrow> Inr (if found then values1\<lparr>valReplicas := int32 replicas\<rparr> else values1)))"

text \<open>Only the first Deployment is looked at.\<close>

definition extractDefaults :: "'o objlib \<Rightarrow> gvk_constants \<Rightarrow> 'o list \<Rightarrow> goerr + chart_values" where
  "extractDefaults L G resources =
     (case find (\<lambda>r. objGVK L r = kDeployment G) resources of
        None \<Rightarrow> Inr defaultValues
      | Some r \<Rightarrow> extractFrom L r defaultValues)"

section \<open>Lemmas\<close>

lemma scanTag_tag:
  "CHR '':'' \<notin> set tag \<Longrightarrow> CHR ''/'' \<notin> set tag \<Longrightarrow>
     scanTag acc (rev tag @ CHR '':'' # rest) = Some (rev rest, tag @ acc)"
proof (induction tag arbitrary: acc rule: rev_induct)
  case (snoc c tag)
  then show ?case by auto
qed simp

lemma scanTag_none:
  "CHR '':'' \<notin> set name \<Longrightarrow> scanTag acc (rev name @ CHR ''/'' # rest) = None"
  "CHR '':'' \<notin> set name \<Longrightarrow> scanTag acc (rev name) = None"
proof -
  have "CHR '':'' \<notin> set xs \<Longrightarrow> scanTag acc (xs @ CHR ''/'' # rest) = None" for xs acc
    by (induction xs arbitrary: acc) auto
  from this [of "rev name" acc] show "CHR '':'' \<notin> set name \<Longrightarrow> scanTag acc (rev name @ CHR ''/'' # rest) = None" by simp
  have "CHR '':'' \<notin> set xs \<Longrightarrow> scanTag acc xs = None" for xs acc
    by (induction xs arbitrary: acc) auto
  from this [of "rev name" acc] show "CHR '':'' \<notin> set name \<Longrightarrow> scanTag acc (rev name) = None" by simp
qed

end
