(* ===== verification/ChartGen.thy ===== *)
theory ChartGen
  imports ChartLines ChartValues
begin

text \<open>
  \<^verbatim>\<open>cmd/chartgen/chartgen.go\<close>, \<^verbatim>\<open>helpers.go\<close> and the dispatch in \<^verbatim>\<open>chart.go\<close>: decoding, grouping by
  kind, rendering and writing the chart. The file system is a parameter, and so is the order in which
  Go ranges over the map of groups.
\<close>

section \<open>Rendering\<close>

definition stripLabelKeys :: "string list" where
  "stripLabelKeys = [''app.kubernetes.io/managed-by'']"

definition stripLabels :: "'o objlib \<Rightarrow> 'o \<Rightarrow> 'o" where
  "stripLabels L obj =
     (let labels = objLabels L obj in
      if gm_make labels = fmempty then obj
      else
        let labels' = foldl (\<lambda>m k. gm_delete k m) labels stripLabelKeys in
        if gm_make labels' = fmempty then setObjLabels L None obj else setObjLabels L labels' obj)"

definition marshalResource :: "'o objlib \<Rightarrow> 'o \<Rightarrow> goerr + string" where
  "marshalResource L obj =
     (case marshalObject L obj of
        Inl e \<Rightarrow> Inl (Wrapped ''marshaling resource'' e)
      | Inr data \<Rightarrow> Inr (trimSpace data))"

text \<open>The transformations of the text, kind by kind; each runs on a marshaled resource.\<close>

definition onRaw :: "(string \<Rightarrow> string) \<Rightarrow> goerr + string \<Rightarrow> goerr + string" where
  "onRaw f r = (case r of Inl e \<Rightarrow> Inl e | Inr raw \<Rightarrow> Inr (f raw))"

definition deploymentText :: "string \<Rightarrow> string" where
  "deploymentText raw =
     injectExtraEnvs (addImagePullSecrets (replaceServiceAccountName (replaceResources
       (replaceReplicas (replaceImageField (replaceNamespace raw))))))"

definition transformDeployment :: "'o objlib \<Rightarrow> 'o \<Rightarrow> goerr + string" where
  "transformDeployment L obj = onRaw deploymentText (marshalResource L obj)"

definition transformServiceAccount :: "'o objlib \<Rightarrow> 'o \<Rightarrow> goerr + string" where
  "transformServiceAccount L obj =
     onRaw (\<lambda>raw. replaceServiceAccountMetadata (replaceNamespace raw) (objName L obj)) (marshalResource L obj)"

definition transformConfigMap :: "'o objlib \<Rightarrow> 'o \<Rightarrow> goerr + string" where
  "transformConfigMap L obj = onRaw (\<lambda>raw. injectConfigMapValues (replaceNamespace raw)) (marshalResource L obj)"

definition transformRoleBinding :: "'o objlib \<Rightarrow> 'o \<Rightarrow> goerr + string" where
  "transformRoleBinding L obj =
     onRaw (\<lambda>raw. replaceSubjectsServiceAccount (replaceSubjectsNamespace (replaceNamespace raw)))
       (marshalResource L obj)"

definition transformWebhook :: "'o objlib \<Rightarrow> 'o \<Rightarrow> goerr + string" where
  "transformWebhook L obj = onRaw replaceWebhookNamespace (marshalResource L obj)"

definition transformCertificate :: "'o objlib \<Rightarrow> 'o \<Rightarrow> goerr + string" where
  "transformCertificate L obj =
     onRaw (\<lambda>raw. replaceCertificateDNSNames (replaceNamespace raw)) (marshalResource L obj)"

definition transformGeneric :: "'o objlib \<Rightarrow> 'o \<Rightarrow> goerr + string" where
  "transformGeneric L obj =
     onRaw (\<lambda>raw. if objNamespace L obj \<noteq> [] then replaceNamespace raw else raw) (marshalResource L obj)"

definition transformResource :: "'o objlib \<Rightarrow> gvk_constants \<Rightarrow> gvk \<Rightarrow> 'o \<Rightarrow> goerr + string" where
  "transformResource L G g obj0 =
     (let obj = stripLabels L obj0 in
      if g = kDeployment G then transformDeployment L obj
      else if g = kServiceAccount G then transformServiceAccount L obj
      else if g = kConfigMap G then transformConfigMap L obj
      else if g = kClusterRoleBinding G \<or> g = kRoleBinding G then transformRoleBinding L obj
      else if g = kMutatingWebhook G \<or> g = kValidatingWebhook G then transformWebhook L obj
      else if g = kCertificate G then transformCertificate L obj
      else transformGeneric L obj)"

text \<open>A loop that collects results and returns at the first error.\<close>

fun collect :: "('a \<Rightarrow> goerr + 'b) \<Rightarrow> 'a list \<Rightarrow> goerr + 'b list" where
  "collect f [] = Inr []"
| "collect f (x # xs) =
     (case f x of
        Inl e \<Rightarrow> Inl e
      | Inr y \<Rightarrow> (case collect f xs of Inl e \<Rightarrow> Inl e | Inr ys \<Rightarrow> Inr (y # ys)))"

definition documentBreak :: string where
  "documentBreak = [nl] @ ''---'' @ [nl]"

definition renderGroup :: "'o objlib \<Rightarrow> gvk_constants \<Rightarrow> gvk \<Rightarrow> 'o list \<Rightarrow> goerr + string" where
  "renderGroup L G g resources =
     (case collect (\<lambda>r. wrapSum (''transforming '' @ gvkKind g @ ''/'' @ objName L r) (transformResource L G g r)) resources of
        Inl e \<Rightarrow> Inl e
      | Inr parts \<Rightarrow> Inr (join documentBreak parts))"

definition renderPlainGroup :: "'o objlib \<Rightarrow> 'o list \<Rightarrow> goerr + string" where
  "renderPlainGroup L resources =
     (case collect (\<lambda>r. wrapSum (''rendering '' @ objKind L r @ ''/'' @ objName L r)
                          (transformGeneric L (stripLabels L r))) resources of
        Inl e \<Rightarrow> Inl e
      | Inr parts \<Rightarrow> Inr (join documentBreak parts))"

section \<open>Decoding and grouping\<close>

text \<open>The reader yields documents until the end of the input or an error.\<close>

fun decodeResources :: "'o objlib \<Rightarrow> (goerr + string) list \<Rightarrow> goerr + 'o list" where
  "decodeResources L [] = Inr []"
| "decodeResources L (Inl e # docs) = Inl (Wrapped ''reading YAML document'' e)"
| "decodeResources L (Inr doc # docs) =
     (let data = trimSpace doc in
      if data = [] then decodeResources L docs
      else
        (case unmarshalObject L data of
           Inl e \<Rightarrow> Inl (Wrapped ''unmarshaling resource'' e)
         | Inr None \<Rightarrow> decodeResources L docs
         | Inr (Some obj) \<Rightarrow> (case decodeResources L docs of Inl e \<Rightarrow> Inl e | Inr objs \<Rightarrow> Inr (obj # objs))))"

text \<open>The map from kinds to lists, as an association list in the order of first insertion.\<close>

fun insertGroup :: "gvk \<Rightarrow> 'o \<Rightarrow> (gvk \<times> 'o list) list \<Rightarrow> (gvk \<times> 'o list) list" where
  "insertGroup g r [] = [(g, [r])]"
| "insertGroup g r ((h, rs) # groups) =
     (if h = g then (h, rs @ [r]) # groups else (h, rs) # insertGroup g r groups)"

definition groupByGVK :: "'o objlib \<Rightarrow> gvk_constants \<Rightarrow> 'o list \<Rightarrow> (gvk \<times> 'o list) list" where
  "groupByGVK L G resources =
     foldl (\<lambda>groups r. if objGVK L r = kNamespace G then groups else insertGroup (objGVK L r) r groups) [] resources"

definition isCRD :: "gvk \<Rightarrow> bool" where
  "isCRD g \<longleftrightarrow> gvkGroup g = ''apiextensions.k8s.io'' \<and> gvkKind g = ''CustomResourceDefinition''"

definition coreAPIGroup :: string where
  "coreAPIGroup = ''core''"

definition gvkToFilename :: "gvk \<Rightarrow> string" where
  "gvkToFilename g =
     (let group = (if toLower (gvkGroup g) = [] then coreAPIGroup else toLower (gvkGroup g)) in
      group @ ''_'' @ toLower (gvkVersion g) @ ''_'' @ toLower (gvkKind g) @ ''.yaml'')"

section \<open>Writing\<close>

text \<open>The file system: its operations return an error or change the world.\<close>

record 'w files =
  mkdirAll :: "string \<Rightarrow> 'w act"
  isMissing :: "string \<Rightarrow> 'w \<Rightarrow> bool"
  writeFile :: "string \<Rightarrow> string \<Rightarrow> 'w act"
  joinPath :: "string \<Rightarrow> string \<Rightarrow> string"
  printErr :: "string \<Rightarrow> 'w \<Rightarrow> 'w"

definition templatesDirName :: string where "templatesDirName = ''templates''"
definition crdsDirName :: string where "crdsDirName = ''crds''"
definition chartYAMLFilename :: string where "chartYAMLFilename = ''Chart.yaml''"
definition helpersTplFilename :: string where "helpersTplFilename = ''_helpers.tpl''"
definition valuesYAMLFilename :: string where "valuesYAMLFilename = ''values.yaml''"
definition valuesSchemaFile :: string where "valuesSchemaFile = ''values.schema.json''"

definition chartYAML :: "string \<Rightarrow> string \<Rightarrow> string" where
  "chartYAML name version =
     ''apiVersion: v2'' @ [nl] @ ''name: '' @ name @ [nl] @
     ''description: ODH FeastOperator Operator Helm chart'' @ [nl] @
     ''version: '' @ version @ [nl] @
     ''appVersion: '' @ [dquote] @ version @ [dquote] @ [nl] @
     ''type: application'' @ [nl]"

definition writeChartYAML :: "'w files \<Rightarrow> string \<Rightarrow> string \<Rightarrow> string \<Rightarrow> 'w act" where
  "writeChartYAML F path name version = writeFile F path (chartYAML name version)"

definition helpersLines :: "string list" where
  \<open>helpersLines =
     [''{{/*'', ''Chart name, truncated to 63 chars.'', ''*/}}'', ''{{- define "chart.name" -}}'',
      ''{{- default .Chart.Name .Values.nameOverride | trunc 63 | trimSuffix "-" }}'', ''{{- end }}'', '''',
      ''{{/*'', ''Release fullname, truncated to 63 chars.'', ''*/}}'', ''{{- define "chart.fullname" -}}'',
      ''{{- default .Release.Name .Values.fullnameOverride | trunc 63 | trimSuffix "-" }}'', ''{{- end }}'', '''',
      ''{{/*'', ''Standard labels.'', ''*/}}'', ''{{- define "chart.labels" -}}'',
      ''app.kubernetes.io/name: {{ include "chart.name" . }}'',
      ''app.kubernetes.io/instance: {{ .Release.Name }}'',
      ''app.kubernetes.io/managed-by: {{ .Release.Service }}'',
      ''helm.sh/chart: {{ .Chart.Name }}-{{ .Chart.Version }}'', ''{{- end }}'', '''',
      ''{{/*'', ''Selector labels (subset of standard labels for matchLabels).'', ''*/}}'',
      ''{{- define "chart.selectorLabels" -}}'', ''app.kubernetes.io/name: {{ include "chart.name" . }}'',
      ''app.kubernetes.io/instance: {{ .Release.Name }}'', ''{{- end }}'', '''',
      ''{{/*'', ''Canonical image reference. Prefer fullRef when explicitly set.'', ''*/}}'',
      ''{{- define "chart.imageRef" -}}'', ''{{- if .Values.image.fullRef -}}'', ''{{- .Values.image.fullRef -}}'',
      ''{{- else -}}'', ''{{- printf "%s:%s" .Values.image.repository .Values.image.tag -}}'', ''{{- end -}}'',
      ''{{- end }}'', '''']\<close>

definition helpersTpl :: string where
  "helpersTpl = joinLines helpersLines"

definition writeHelpersTpl :: "'w files \<Rightarrow> string \<Rightarrow> 'w act" where
  "writeHelpersTpl F path = writeFile F path helpersTpl"

definition writeValuesYAML :: "'w files \<Rightarrow> 'o objlib \<Rightarrow> chart_values \<Rightarrow> string \<Rightarrow> 'w act" where
  "writeValuesYAML F L v path w =
     (case marshalValues L v of
        Inl e \<Rightarrow> (Some (Wrapped ''marshaling values'' e), w)
      | Inr data \<Rightarrow> writeFile F path data w)"

definition writeValuesSchema :: "'w files \<Rightarrow> 'o objlib \<Rightarrow> string \<Rightarrow> 'w act" where
  "writeValuesSchema F L path w =
     (case valuesSchema L of
        Inl e \<Rightarrow> (Some (Wrapped ''marshaling schema'' e), w)
      | Inr data \<Rightarrow> writeFile F path data w)"

definition groupPath :: "'w files \<Rightarrow> string \<Rightarrow> gvk \<Rightarrow> string" where
  "groupPath F outputDir g =
     joinPath F (joinPath F outputDir (if isCRD g then crdsDirName else templatesDirName)) (gvkToFilename g)"

definition renderAny :: "'o objlib \<Rightarrow> gvk_constants \<Rightarrow> gvk \<times> 'o list \<Rightarrow> goerr + string" where
  "renderAny L G p = (case p of (g, res) \<Rightarrow> if isCRD g then renderPlainGroup L res else renderGroup L G g res)"

definition writeGroup :: "'w files \<Rightarrow> 'o objlib \<Rightarrow> gvk_constants \<Rightarrow> string \<Rightarrow> gvk \<times> 'o list \<Rightarrow> 'w act" where
  "writeGroup F L G outputDir p w =
     (case renderAny L G p of
        Inl e \<Rightarrow> (Some (Wrapped (''rendering '' @ gvkToFilename (fst p)) e), w)
      | Inr content \<Rightarrow>
          let path = groupPath F outputDir (fst p) in
          wrapErr (''writing '' @ path) (writeFile F path content) w)"

definition runChartgen ::
  "'w files \<Rightarrow> 'o objlib \<Rightarrow> gvk_constants \<Rightarrow> ((gvk \<times> 'o list) list \<Rightarrow> (gvk \<times> 'o list) list) \<Rightarrow>
   (goerr + string) list \<Rightarrow> string \<Rightarrow> string \<Rightarrow> string \<Rightarrow> 'w act"
  where
  "runChartgen F L G rangeGroups docs outputDir chartName chartVersion w =
     (case decodeResources L docs of
        Inl e \<Rightarrow> (Some (Wrapped ''decoding resources'' e), w)
      | Inr resources \<Rightarrow>
          let groups = groupByGVK L G resources in
          (case extractDefaults L G resources of
             Inl e \<Rightarrow> (Some e, w)
           | Inr values \<Rightarrow>
               let templatesDir = joinPath F outputDir templatesDirName;
                   crdsDir = joinPath F outputDir crdsDirName;
                   chartFile = joinPath F outputDir chartYAMLFilename in
               andThen (wrapErr ''creating templates directory'' (mkdirAll F templatesDir))
               (andThen (wrapErr ''creating crds directory'' (mkdirAll F crdsDir))
               (andThen (\<lambda>w. if isMissing F chartFile w
                              then wrapErr (''writing '' @ chartYAMLFilename)
                                     (writeChartYAML F chartFile chartName chartVersion) w
                              else (None, w))
               (andThen (wrapErr (''writing '' @ helpersTplFilename)
                           (writeHelpersTpl F (joinPath F templatesDir helpersTplFilename)))
               (andThen (wrapErr (''writing '' @ valuesYAMLFilename)
                           (writeValuesYAML F L values (joinPath F outputDir valuesYAMLFilename)))
               (andThen (wrapErr (''writing '' @ valuesSchemaFile)
                           (writeValuesSchema F L (joinPath F outputDir valuesSchemaFile)))
               (andThen (forEach (writeGroup F L G outputDir) (rangeGroups groups))
                 (\<lambda>w. (None, printErr F (''Helm chart generated at '' @ outputDir @ [nl]) w)))))))) w))"

section \<open>Grouping is a partition\<close>

lemma insertGroup_keys:
  "map fst (insertGroup g r groups) = (if g \<in> set (map fst groups) then map fst groups else map fst groups @ [g])"
  by (induction g r groups rule: insertGroup.induct) auto

lemma insertGroup_lookup:
  "map_of (insertGroup g r groups) h =
     (if h = g then Some ((case map_of groups g of None \<Rightarrow> [] | Some rs \<Rightarrow> rs) @ [r]) else map_of groups h)"
  by (induction g r groups rule: insertGroup.induct) auto

lemma groupByGVK_snoc:
  "groupByGVK L G (rs @ [r]) =
     (if objGVK L r = kNamespace G then groupByGVK L G rs else insertGroup (objGVK L r) r (groupByGVK L G rs))"
  by (simp add: groupByGVK_def)

lemma groupByGVK_distinct: "distinct (map fst (groupByGVK L G resources))"
  by (induction resources rule: rev_induct) (simp_all add: groupByGVK_snoc insertGroup_keys, simp add: groupByGVK_def)

lemma groupByGVK_lookup:
  "map_of (groupByGVK L G resources) g =
     (let rs = filter (\<lambda>r. objGVK L r = g \<and> g \<noteq> kNamespace G) resources in if rs = [] then None else Some rs)"
proof (induction resources rule: rev_induct)
  case Nil
  then show ?case by (simp add: groupByGVK_def)
next
  case (snoc r rs)
  then show ?case by (auto simp: groupByGVK_snoc insertGroup_lookup Let_def)
qed

end
