(* ===== verification/ChartFileProps.thy ===== *)
theory ChartFileProps
  imports ChartGen
begin

text \<open>
  The properties of the chart generator as a whole: the values it extracts, the groups and their file
  names.
\<close>

section \<open>Values\<close>

text \<open>
  An image reference is cut at the colon of its last path segment, digests included: the tag is
  what follows, and putting the two parts together again gives the reference back. A colon before the
  last slash, the port of a registry, is no tag; without a tag the whole reference is the repository
  and the tag is \<^verbatim>\<open>latest\<close>.
\<close>

lemma splitImageTag_roundtrip:
  assumes "CHR '':'' \<notin> set tag" "CHR ''/'' \<notin> set tag" "repo \<noteq> []"
    and "CHR '':'' \<notin> set name"
  shows "splitImageTag (repo @ '':'' @ tag) = (repo, tag) \<and>
    splitImageTag (dir @ ''/'' @ name) = (dir @ ''/'' @ name, ''latest'') \<and>
    splitImageTag name = (name, ''latest'')"
proof -
  have "0 < int (length (repo @ '':'' @ tag)) - 1" using assms(3) by (cases repo) auto
  then have "splitImageTag (repo @ '':'' @ tag) = (repo, tag)"
    using scanTag_tag [OF assms(1,2), of "[]" "rev repo"] by (simp add: splitImageTag_def)
  moreover have "splitImageTag (dir @ ''/'' @ name) = (dir @ ''/'' @ name, ''latest'')"
    using scanTag_none(1) [OF assms(4), of "[]" "rev dir"] by (simp add: splitImageTag_def defaultImageTag_def)
  moreover have "splitImageTag name = (name, ''latest'')"
    using scanTag_none(2) [OF assms(4), of "[]"] by (simp add: splitImageTag_def defaultImageTag_def)
  ultimately show ?thesis by blast
qed

lemma splitImageTag_roundtrip_witness:
  "splitImageTag ''localhost:5000/feast:v1'' = (''localhost:5000/feast'', ''v1'') \<and>
   splitImageTag ''localhost:5000/feast'' = (''localhost:5000/feast'', ''latest'')"
  using splitImageTag_roundtrip [of "''v1''" "''localhost:5000/feast''" "''feast''" "''localhost:5000''"] by simp

lemma decodeResources_from:
  "decodeResources L docs = Inr resources \<Longrightarrow> r \<in> set resources \<Longrightarrow> \<exists>s. unmarshalObject L s = Inr (Some r)"
  by (induction L docs arbitrary: resources rule: decodeResources.induct)
    (fastforce simp: Let_def split: if_splits sum.splits option.splits)+

lemma extractContainer_replicas: "extractContainer L c values = Inr v \<Longrightarrow> valReplicas v = valReplicas values"
  by (auto simp: extractContainer_def Let_def split: option.splits sum.splits)

lemma extractFrom_replicas:
  assumes "\<And>n. nestedInt64 L r [''spec'', ''replicas''] \<noteq> (n, True)" "extractFrom L r values = Inr v"
  shows "valReplicas v = valReplicas values"
proof -
  obtain n found where "nestedInt64 L r [''spec'', ''replicas''] = (n, found)" by fastforce
  with assms(1) have "nestedInt64 L r [''spec'', ''replicas''] = (n, False)" by (cases found) auto
  with assms(2) show ?thesis
    by (auto simp: extractFrom_def extractContainer_replicas split: prod.splits list.splits bool.splits sum.splits)
qed

text \<open>
  C38. The replicas of the chart are always 1, whatever the Deployment of the manifests says. A number
  of a decoded document is a float64, never an int64 (the decoder's documented behaviour, with
  \<open>at\<close> the value at a path), and the accessor for int64 finds nothing but an int64, so the replicas of
  the Deployment never reach the values.
\<close>

theorem replicas_never_extracted:
  assumes "\<And>r path n. nestedInt64 L r path = (n, True) \<Longrightarrow> at r path = Some (JInt n)"
    and "\<And>s r path n. unmarshalObject L s = Inr (Some r) \<Longrightarrow> at r path \<noteq> Some (JInt n)"
    and "decodeResources L docs = Inr resources" "extractDefaults L G resources = Inr values"
  shows "valReplicas values = 1"
proof (cases "find (\<lambda>r. objGVK L r = kDeployment G) resources")
  case None
  with assms(4) show ?thesis by (auto simp: extractDefaults_def defaultValues_def)
next
  case (Some r)
  then have "r \<in> set resources" by (auto simp: find_Some_iff)
  then obtain s where "unmarshalObject L s = Inr (Some r)" using decodeResources_from [OF assms(3)] by blast
  then have "nestedInt64 L r [''spec'', ''replicas''] \<noteq> (n, True)" for n
    using assms(1) [of r "[''spec'', ''replicas'']" n] assms(2) [of s r "[''spec'', ''replicas'']" n] by blast
  moreover have "extractFrom L r defaultValues = Inr values" using assms(4) Some by (simp add: extractDefaults_def)
  ultimately have "valReplicas values = valReplicas defaultValues" by (rule extractFrom_replicas)
  then show ?thesis by (simp add: defaultValues_def)
qed

definition demoDeploymentGVK :: gvk where
  "demoDeploymentGVK = \<lparr>gvkGroup = ''apps'', gvkVersion = ''v1'', gvkKind = ''Deployment''\<rparr>"

definition demoKinds :: gvk_constants where
  "demoKinds =
     (let k = (\<lambda>g v n. \<lparr>gvkGroup = g, gvkVersion = v, gvkKind = n\<rparr>) in
      \<lparr>kNamespace = k [] ''v1'' ''Namespace'', kDeployment = demoDeploymentGVK,
       kServiceAccount = k [] ''v1'' ''ServiceAccount'', kConfigMap = k [] ''v1'' ''ConfigMap'',
       kClusterRoleBinding = k ''rbac.authorization.k8s.io'' ''v1'' ''ClusterRoleBinding'',
       kRoleBinding = k ''rbac.authorization.k8s.io'' ''v1'' ''RoleBinding'',
       kMutatingWebhook = k ''admissionregistration.k8s.io'' ''v1'' ''MutatingWebhookConfiguration'',
       kValidatingWebhook = k ''admissionregistration.k8s.io'' ''v1'' ''ValidatingWebhookConfiguration'',
       kCertificate = k ''cert-manager.io'' ''v1'' ''Certificate''\<rparr>)"

text \<open>Objects that are their own text, with a kind each: a Deployment, or whatever comes first.\<close>

definition demoLib :: "(gvk \<times> string) objlib" where
  "demoLib =
     \<lparr>objGVK = fst, objLabels = (\<lambda>_. None), setObjLabels = (\<lambda>_ r. r), objNamespace = (\<lambda>_. []), objName = snd,
      objKind = (\<lambda>r. gvkKind (fst r)),
      nestedSlice = (\<lambda>r path. ([JObject [(''image'', JString ''quay.io/feast:v1'')]], True)),
      nestedInt64 = (\<lambda>r path. (0, False)),
      marshalObject = (\<lambda>r. Inr (snd r)),
      unmarshalObject = (\<lambda>s. Inr (Some (if s = ''deployment'' then demoDeploymentGVK
        else \<lparr>gvkGroup = [], gvkVersion = ''v1'', gvkKind = ''Service''\<rparr>, s))),
      milliQuantity = (\<lambda>_. ''1''), marshalValues = (\<lambda>v. Inr ''values''), valuesSchema = Inr ''schema''\<rparr>"

lemma replicas_never_extracted_witness:
  "\<exists>rs v. decodeResources demoLib [Inr ''deployment''] = Inr rs \<and> rs \<noteq> [] \<and>
     extractDefaults demoLib demoKinds rs = Inr v \<and> valReplicas v = 1"
proof -
  have docs: "decodeResources demoLib [Inr ''deployment''] = Inr [(demoDeploymentGVK, ''deployment'')]"
    by code_simp
  have "\<exists>v. extractDefaults demoLib demoKinds [(demoDeploymentGVK, ''deployment'')] = Inr v"
    by (simp add: extractDefaults_def extractFrom_def extractContainer_def demoLib_def demoKinds_def Let_def
        asObject_def field_def asString_def)
  then obtain v where v: "extractDefaults demoLib demoKinds [(demoDeploymentGVK, ''deployment'')] = Inr v" ..
  have "valReplicas v = 1"
    using replicas_never_extracted [of demoLib "\<lambda>r path. Some (JFloat (Float64 3 0))", OF _ _ docs v]
    by (simp add: demoLib_def)
  with docs v show ?thesis by blast
qed

section \<open>Groups and file names\<close>

text \<open>
  Grouping is a partition of the resources that are not Namespaces: the kinds are distinct, every
  group holds exactly the resources of its kind in their original order, and no group is empty.
\<close>

lemma groups_partition:
  "distinct (map fst (groupByGVK L G resources)) \<and>
   (\<forall>g. map_of (groupByGVK L G resources) g =
      (if g = kNamespace G \<or> (\<forall>r \<in> set resources. objGVK L r \<noteq> g) then None
       else Some (filter (\<lambda>r. objGVK L r = g) resources)))"
  by (auto simp: groupByGVK_distinct groupByGVK_lookup Let_def filter_empty_conv)

lemma groups_partition_witness:
  "map_of (groupByGVK demoLib demoKinds [(demoDeploymentGVK, ''a''), (kConfigMap demoKinds, ''b''), (demoDeploymentGVK, ''c'')]) demoDeploymentGVK =
   Some [(demoDeploymentGVK, ''a''), (demoDeploymentGVK, ''c'')]"
  using groups_partition [of demoLib demoKinds "[(demoDeploymentGVK, ''a''), (kConfigMap demoKinds, ''b''), (demoDeploymentGVK, ''c'')]"]
  by (simp add: demoLib_def demoKinds_def demoDeploymentGVK_def Let_def)

lemma toLowerChar_underscore: "toLowerChar c = CHR ''_'' \<longleftrightarrow> c = CHR ''_''"
proof
  assume lower: "toLowerChar c = CHR ''_''"
  show "c = CHR ''_''"
  proof (cases "65 \<le> (of_char c :: nat) \<and> (of_char c :: nat) \<le> 90")
    case True
    with lower have "char_of (of_char c + 32 :: nat) = CHR ''_''" by (simp add: toLowerChar_def)
    then have "(of_char (char_of (of_char c + 32 :: nat) :: char) :: nat) = of_char (CHR ''_'')" by simp
    with True show ?thesis by (simp add: of_char_of)
  qed (use lower in \<open>auto simp: toLowerChar_def\<close>)
qed (simp add: toLowerChar_def)

lemma underscore_toLowerChar: "CHR ''_'' = toLowerChar c \<longleftrightarrow> c = CHR ''_''"
  by (subst eq_commute) (rule toLowerChar_underscore)

lemma toLower_underscore: "CHR ''_'' \<in> set (toLower s) \<longleftrightarrow> CHR ''_'' \<in> set s"
  by (simp add: toLower_def image_iff underscore_toLowerChar)

text \<open>
  C40. The file name determines the kind up to upper and lower case, for names without underscores,
  as Kubernetes names are, and API groups other than \<^verbatim>\<open>core\<close>. With that group it does not: it has the
  file of the empty group.
\<close>

theorem filename_unambiguous:
  assumes "CHR ''_'' \<notin> set (gvkGroup g @ gvkVersion g @ gvkKind g)" "CHR ''_'' \<notin> set (gvkGroup h @ gvkVersion h @ gvkKind h)"
    and "toLower (gvkGroup g) \<noteq> ''core''" "toLower (gvkGroup h) \<noteq> ''core''"
  shows "(gvkToFilename g = gvkToFilename h \<longleftrightarrow>
      toLower (gvkGroup g) = toLower (gvkGroup h) \<and> toLower (gvkVersion g) = toLower (gvkVersion h) \<and>
      toLower (gvkKind g) = toLower (gvkKind h)) \<and>
    gvkToFilename (g\<lparr>gvkGroup := ''core''\<rparr>) = gvkToFilename (g\<lparr>gvkGroup := []\<rparr>)"
proof -
  define group where "group k = (if toLower (gvkGroup k) = [] then coreAPIGroup else toLower (gvkGroup k))" for k :: gvk
  have name: "gvkToFilename k = group k @ CHR ''_'' # toLower (gvkVersion k) @ CHR ''_'' # (toLower (gvkKind k) @ ''.yaml'')" for k
    by (simp add: gvkToFilename_def group_def Let_def)
  have clean: "CHR ''_'' \<notin> set (group k)" "CHR ''_'' \<notin> set (toLower (gvkVersion k))"
    if "CHR ''_'' \<notin> set (gvkGroup k @ gvkVersion k @ gvkKind k)" for k
    using that by (auto simp: group_def coreAPIGroup_def toLower_underscore)
  have "gvkToFilename g = gvkToFilename h \<longleftrightarrow>
      group g = group h \<and> toLower (gvkVersion g) = toLower (gvkVersion h) \<and> toLower (gvkKind g) = toLower (gvkKind h)"
    unfolding name
    using append_sep_inject [OF clean(1) [OF assms(1)] clean(1) [OF assms(2)]]
      append_sep_inject [OF clean(2) [OF assms(1)] clean(2) [OF assms(2)]] by (metis same_append_eq append_same_eq)
  moreover have "group g = group h \<longleftrightarrow> toLower (gvkGroup g) = toLower (gvkGroup h)"
    using assms(3,4) by (auto simp: group_def coreAPIGroup_def)
  moreover have "gvkToFilename (g\<lparr>gvkGroup := ''core''\<rparr>) = gvkToFilename (g\<lparr>gvkGroup := []\<rparr>)"
    by (simp add: name group_def coreAPIGroup_def toLower_def toLowerChar_def)
  ultimately show ?thesis by simp
qed

lemma filename_unambiguous_witness:
  "gvkToFilename demoDeploymentGVK \<noteq> gvkToFilename (kConfigMap demoKinds)"
proof -
  have "CHR ''_'' \<notin> set (gvkGroup demoDeploymentGVK @ gvkVersion demoDeploymentGVK @ gvkKind demoDeploymentGVK)"
    "CHR ''_'' \<notin> set (gvkGroup (kConfigMap demoKinds) @ gvkVersion (kConfigMap demoKinds) @ gvkKind (kConfigMap demoKinds))"
    "toLower (gvkGroup demoDeploymentGVK) \<noteq> ''core''" "toLower (gvkGroup (kConfigMap demoKinds)) \<noteq> ''core''"
    "toLower (gvkGroup demoDeploymentGVK) \<noteq> toLower (gvkGroup (kConfigMap demoKinds))"
    by code_simp+
  then show ?thesis using filename_unambiguous by blast
qed

end
