(* ===== verification/ChartRunProps.thy ===== *)
theory ChartRunProps
  imports ChartFileProps RbacProps "HOL-Library.Multiset"
begin

text \<open>
  The files that a run of the chart generator leaves, and how the RBAC check reads them: the two
  programs meet at the separator of the documents of a file.
\<close>

section \<open>The file system\<close>

text \<open>
  What is assumed of it, over the content \<open>R\<close> of the files by path: a write that succeeds replaces one
  file, directories and messages leave the files alone, and \<open>os.Stat\<close> finds what is there.
\<close>

definition files_laws :: "'w files \<Rightarrow> ('w \<Rightarrow> string \<Rightarrow> string option) \<Rightarrow> bool" where
  "files_laws F R \<longleftrightarrow>
     (\<forall>p c w w'. writeFile F p c w = (None, w') \<longrightarrow> R w' = (R w)(p \<mapsto> c)) \<and>
     (\<forall>p w r w'. mkdirAll F p w = (r, w') \<longrightarrow> R w' = R w) \<and>
     (\<forall>p w. isMissing F p w \<longleftrightarrow> R w p = None) \<and>
     (\<forall>s w. R (printErr F s w) = R w)"

lemma files_lawsD:
  assumes "files_laws F R"
  shows "writeFile F p c w = (None, w') \<Longrightarrow> R w' = (R w)(p \<mapsto> c)"
    "mkdirAll F p w = (r, w') \<Longrightarrow> R w' = R w"
    "isMissing F p w \<longleftrightarrow> R w p = None"
    "R (printErr F s w) = R w"
  using assms unfolding files_laws_def by blast+

section \<open>The loop over the groups\<close>

lemma writeGroup_effect:
  assumes "files_laws F R" "writeGroup F L G out p w = (None, w')"
  obtains content where "renderAny L G p = Inr content" "R w' = (R w)(groupPath F out (fst p) \<mapsto> content)"
  using assms files_lawsD(1) [OF assms(1)]
  by (auto simp: writeGroup_def Let_def split: sum.splits)

lemma writeGroups_effect:
  assumes laws: "files_laws F R"
  shows "forEach (writeGroup F L G out) groups w = (None, w') \<Longrightarrow> inj_on (groupPath F out) (fst ` set groups) \<Longrightarrow>
    distinct (map fst groups) \<Longrightarrow>
    (\<forall>p \<in> set groups. \<exists>content. renderAny L G p = Inr content \<and> R w' (groupPath F out (fst p)) = Some content) \<and>
    (\<forall>q. q \<notin> groupPath F out ` fst ` set groups \<longrightarrow> R w' q = R w q)"
proof (induction groups arbitrary: w)
  case (Cons p groups)
  obtain w1 where w1: "writeGroup F L G out p w = (None, w1)" "forEach (writeGroup F L G out) groups w1 = (None, w')"
    using Cons.prems(1) by (auto elim: andThen_okE)
  from laws w1(1) obtain content where content: "renderAny L G p = Inr content"
    "R w1 = (R w)(groupPath F out (fst p) \<mapsto> content)" by (rule writeGroup_effect)
  have rest: "(\<forall>p \<in> set groups. \<exists>content. renderAny L G p = Inr content \<and> R w' (groupPath F out (fst p)) = Some content) \<and>
    (\<forall>q. q \<notin> groupPath F out ` fst ` set groups \<longrightarrow> R w' q = R w1 q)"
    using Cons.IH [OF w1(2)] Cons.prems(2,3) by (simp add: inj_on_def)
  have "groupPath F out (fst p) \<notin> groupPath F out ` fst ` set groups"
    using Cons.prems(2,3) by (force simp: inj_on_def)
  with rest content show ?case by auto
qed simp

section \<open>The stages before the loop\<close>

text \<open>The files whose names do not depend on the input, in the order they are written.\<close>

definition fixedPaths :: "'w files \<Rightarrow> string \<Rightarrow> string list" where
  "fixedPaths F out =
     [joinPath F out chartYAMLFilename, joinPath F (joinPath F out templatesDirName) helpersTplFilename,
      joinPath F out valuesYAMLFilename, joinPath F out valuesSchemaFile]"

definition keptOr :: "string \<Rightarrow> string option \<Rightarrow> string" where
  "keptOr fresh old = (case old of Some content \<Rightarrow> content | None \<Rightarrow> fresh)"

definition fixedFiles :: "('w files) \<Rightarrow> string \<Rightarrow> string \<Rightarrow> string \<Rightarrow> string \<Rightarrow> (string \<Rightarrow> string option) \<Rightarrow> string \<Rightarrow> string option" where
  "fixedFiles F out chart data schema old =
     old(joinPath F out chartYAMLFilename \<mapsto> chart,
         joinPath F (joinPath F out templatesDirName) helpersTplFilename \<mapsto> helpersTpl,
         joinPath F out valuesYAMLFilename \<mapsto> data,
         joinPath F out valuesSchemaFile \<mapsto> schema)"

lemma writeValuesYAML_effect:
  assumes "files_laws F R" "writeValuesYAML F L v path w = (None, w')"
  obtains data where "marshalValues L v = Inr data" "R w' = (R w)(path \<mapsto> data)"
  using assms(2) files_lawsD(1) [OF assms(1)] by (auto simp: writeValuesYAML_def split: sum.splits)

lemma writeValuesSchema_effect:
  assumes "files_laws F R" "writeValuesSchema F L path w = (None, w')"
  obtains schema where "valuesSchema L = Inr schema" "R w' = (R w)(path \<mapsto> schema)"
  using assms(2) files_lawsD(1) [OF assms(1)] by (auto simp: writeValuesSchema_def split: sum.splits)

lemma chartYAML_effect:
  assumes "files_laws F R"
    "(if isMissing F path w then wrapErr msg (writeChartYAML F path chart version) w else (None, w)) = (None, w')"
  shows "R w' = (R w)(path \<mapsto> keptOr (chartYAML chart version) (R w path))"
  using assms(2) files_lawsD(1,3) [OF assms(1)]
  by (auto simp: writeChartYAML_def keptOr_def split: if_splits option.splits)

lemma fixed_effect:
  assumes laws: "files_laws F R" and run: "runChartgen F L G range_groups docs out chart version w = (None, w')"
    and decoded: "decodeResources L docs = Inr resources"
  obtains w1 w2 v data schema where "extractDefaults L G resources = Inr v"
    "marshalValues L v = Inr data" "valuesSchema L = Inr schema"
    "R w1 = fixedFiles F out (keptOr (chartYAML chart version) (R w (joinPath F out chartYAMLFilename))) data schema (R w)"
    "forEach (writeGroup F L G out) (range_groups (groupByGVK L G resources)) w1 = (None, w2)" "R w' = R w2"
proof -
  obtain v where v: "extractDefaults L G resources = Inr v"
    using run decoded by (auto simp: runChartgen_def Let_def split: sum.splits)
  obtain a1 a2 a3 a4 a5 w1 w2 where dirs:
    "mkdirAll F (joinPath F out templatesDirName) w = (None, a1)" "mkdirAll F (joinPath F out crdsDirName) a1 = (None, a2)"
    and chart: "(if isMissing F (joinPath F out chartYAMLFilename) a2
        then wrapErr (''writing '' @ chartYAMLFilename) (writeChartYAML F (joinPath F out chartYAMLFilename) chart version) a2
        else (None, a2)) = (None, a3)"
    and helpers: "writeHelpersTpl F (joinPath F (joinPath F out templatesDirName) helpersTplFilename) a3 = (None, a4)"
    and vals: "writeValuesYAML F L v (joinPath F out valuesYAMLFilename) a4 = (None, a5)"
    and schema: "writeValuesSchema F L (joinPath F out valuesSchemaFile) a5 = (None, w1)"
    and loop: "forEach (writeGroup F L G out) (range_groups (groupByGVK L G resources)) w1 = (None, w2)"
    and message: "w' = printErr F (''Helm chart generated at '' @ out @ [nl]) w2"
    using run by (auto simp: runChartgen_def Let_def decoded v elim!: andThen_okE)
  obtain data where data: "marshalValues L v = Inr data" "R a5 = (R a4)(joinPath F out valuesYAMLFilename \<mapsto> data)"
    using laws vals by (rule writeValuesYAML_effect)
  obtain schema where sch: "valuesSchema L = Inr schema" "R w1 = (R a5)(joinPath F out valuesSchemaFile \<mapsto> schema)"
    using laws schema by (rule writeValuesSchema_effect)
  have "R a2 = R w" using files_lawsD(2) [OF laws dirs(1)] files_lawsD(2) [OF laws dirs(2)] by simp
  with chartYAML_effect [OF laws chart] files_lawsD(1) [OF laws helpers [unfolded writeHelpersTpl_def]] data(2) sch(2)
  have "R w1 = fixedFiles F out (keptOr (chartYAML chart version) (R w (joinPath F out chartYAMLFilename))) data schema (R w)"
    by (simp add: fixedFiles_def)
  moreover have "R w' = R w2" using files_lawsD(4) [OF laws] message by simp
  ultimately show thesis using that v data(1) sch(1) loop by blast
qed

text \<open>A run as a whole: the fixed files, and then the templates of the kinds.\<close>

lemma run_files:
  assumes laws: "files_laws F R" and run: "runChartgen F L G range_groups docs out chart version w = (None, w')"
    and decoded: "decodeResources L docs = Inr resources"
    and range: "\<And>groups. mset (range_groups groups) = mset groups"
    and paths: "inj_on (groupPath F out) (objGVK L ` set resources)"
  obtains w1 v data schema where "extractDefaults L G resources = Inr v" "marshalValues L v = Inr data" "valuesSchema L = Inr schema"
    and "R w1 = fixedFiles F out (keptOr (chartYAML chart version) (R w (joinPath F out chartYAMLFilename))) data schema (R w)"
    and "\<forall>g \<in> objGVK L ` set resources - {kNamespace G}. \<exists>content.
      renderAny L G (g, filter (\<lambda>r. objGVK L r = g) resources) = Inr content \<and> R w' (groupPath F out g) = Some content"
    and "\<forall>q. q \<notin> groupPath F out ` (objGVK L ` set resources - {kNamespace G}) \<longrightarrow> R w' q = R w1 q"
proof -
  note result = that
  let ?kinds = "objGVK L ` set resources - {kNamespace G}"
  define groups where "groups = range_groups (groupByGVK L G resources)"
  have same: "set groups = set (groupByGVK L G resources)"
    using range [of "groupByGVK L G resources"] by (metis groups_def set_mset_mset)
  have "mset (map fst groups) = mset (map fst (groupByGVK L G resources))"
    using range [of "groupByGVK L G resources"] by (metis groups_def mset_map)
  then have distinct: "distinct (map fst groups)" using groupByGVK_distinct [of L G resources] by (metis mset_eq_imp_distinct_iff)
  have member: "(g, rs) \<in> set groups \<longleftrightarrow> g \<in> ?kinds \<and> rs = filter (\<lambda>r. objGVK L r = g) resources" for g rs
  proof -
    have "(g, rs) \<in> set groups \<longleftrightarrow> map_of (groupByGVK L G resources) g = Some rs"
      using groupByGVK_distinct [of L G resources] by (simp add: same map_of_eq_Some_iff)
    then show ?thesis by (auto simp: groupByGVK_lookup Let_def filter_empty_conv)
  qed
  have "g \<in> fst ` set groups \<longleftrightarrow> (\<exists>rs. (g, rs) \<in> set groups)" for g by (auto intro: rev_image_eqI)
  then have keys: "fst ` set groups = ?kinds" unfolding member by blast
  obtain w1 w2 v data schema where stages: "extractDefaults L G resources = Inr v"
    "marshalValues L v = Inr data" "valuesSchema L = Inr schema"
    "R w1 = fixedFiles F out (keptOr (chartYAML chart version) (R w (joinPath F out chartYAMLFilename))) data schema (R w)"
    "forEach (writeGroup F L G out) groups w1 = (None, w2)" "R w' = R w2"
    using laws run decoded unfolding groups_def by (rule fixed_effect)
  have "inj_on (groupPath F out) (fst ` set groups)"
    using paths unfolding keys by (rule inj_on_subset) blast
  note effect = writeGroups_effect [OF laws stages(5) this distinct, folded stages(6), unfolded keys]
  have rendered: "\<exists>content. renderAny L G p = Inr content \<and> R w' (groupPath F out (fst p)) = Some content"
    if "p \<in> set groups" for p using effect that by blast
  have others: "R w' q = R w1 q" if "q \<notin> groupPath F out ` ?kinds" for q using effect that by blast
  have "\<exists>content. renderAny L G (g, filter (\<lambda>r. objGVK L r = g) resources) = Inr content \<and> R w' (groupPath F out g) = Some content"
    if "g \<in> ?kinds" for g
    using rendered [of "(g, filter (\<lambda>r. objGVK L r = g) resources)"] that by (simp add: member)
  then show thesis using result [OF stages(1-4)] others by blast
qed

section \<open>The properties\<close>

text \<open>
  C29. A run of the chart generator that succeeds leaves exactly these files: for every kind of the
  input but Namespace, the rendering of all its resources in their order; the helpers; the extracted
  values; the schema; and \<^verbatim>\<open>Chart.yaml\<close>, as it was where there was one. No other file changes, not even
  the template of a kind that is gone from the input. None of it depends on the order in which Go
  ranges over the groups. The paths are those of distinct files, and the file system is a store.
\<close>

theorem chart_files:
  assumes laws: "files_laws F R" and run: "runChartgen F L G range_groups docs out chart version w = (None, w')"
    and decoded: "decodeResources L docs = Inr resources"
    and range: "\<And>groups. mset (range_groups groups) = mset groups"
    and "distinct (fixedPaths F out)" "inj_on (groupPath F out) (objGVK L ` set resources)"
    and "groupPath F out ` objGVK L ` set resources \<inter> set (fixedPaths F out) = {}"
  shows "\<exists>v data schema. extractDefaults L G resources = Inr v \<and> marshalValues L v = Inr data \<and> valuesSchema L = Inr schema \<and>
    R w' (joinPath F out valuesYAMLFilename) = Some data \<and> R w' (joinPath F out valuesSchemaFile) = Some schema \<and>
    R w' (joinPath F (joinPath F out templatesDirName) helpersTplFilename) = Some helpersTpl \<and>
    R w' (joinPath F out chartYAMLFilename) = Some (keptOr (chartYAML chart version) (R w (joinPath F out chartYAMLFilename))) \<and>
    (\<forall>g \<in> objGVK L ` set resources - {kNamespace G}. \<exists>content.
       renderAny L G (g, filter (\<lambda>r. objGVK L r = g) resources) = Inr content \<and> R w' (groupPath F out g) = Some content) \<and>
    (\<forall>q. q \<notin> set (fixedPaths F out) \<union> groupPath F out ` (objGVK L ` set resources - {kNamespace G}) \<longrightarrow> R w' q = R w q)"
proof -
  let ?kinds = "objGVK L ` set resources - {kNamespace G}"
  obtain w1 v data schema where files: "extractDefaults L G resources = Inr v" "marshalValues L v = Inr data" "valuesSchema L = Inr schema"
      "R w1 = fixedFiles F out (keptOr (chartYAML chart version) (R w (joinPath F out chartYAMLFilename))) data schema (R w)"
      "\<forall>g \<in> ?kinds. \<exists>content. renderAny L G (g, filter (\<lambda>r. objGVK L r = g) resources) = Inr content \<and>
        R w' (groupPath F out g) = Some content"
    and others: "\<forall>q. q \<notin> groupPath F out ` ?kinds \<longrightarrow> R w' q = R w1 q"
    using laws run decoded range assms(6) by (rule run_files)
  have fixed: "R w' q = R w1 q" if "q \<in> set (fixedPaths F out)" for q
  proof -
    have "q \<notin> groupPath F out ` ?kinds" using that assms(7) by auto
    with others show ?thesis by simp
  qed
  have "R w' q = R w q" if "q \<notin> set (fixedPaths F out) \<union> groupPath F out ` ?kinds" for q
    using that others by (simp add: files(4) fixedFiles_def fixedPaths_def)
  then show ?thesis using files(1-3,5) fixed assms(5) by (simp add: files(4) fixedFiles_def fixedPaths_def)
qed

text \<open>A file system that is a map, and a range over the groups that runs backwards.\<close>

definition demoFiles :: "(string \<Rightarrow> string option) files" where
  "demoFiles =
     \<lparr>mkdirAll = (\<lambda>_ w. (None, w)), isMissing = (\<lambda>p w. w p = None), writeFile = (\<lambda>p c w. (None, w(p \<mapsto> c))),
      joinPath = (\<lambda>d f. d @ ''/'' @ f), printErr = (\<lambda>_ w. w)\<rparr>"

lemma demoFiles_laws: "files_laws demoFiles (\<lambda>w. w)"
  by (auto simp: files_laws_def demoFiles_def)

lemma chart_files_witness:
  "\<exists>w'. runChartgen demoFiles demoLib demoKinds rev [Inr ''deployment'', Inr ''s''] ''c'' ''n'' ''v''
      [''c/Chart.yaml'' \<mapsto> ''mine'', ''c/templates/old.yaml'' \<mapsto> ''old''] = (None, w') \<and>
     w' ''c/Chart.yaml'' = Some ''mine'' \<and> w' ''c/values.yaml'' = Some ''values'' \<and>
     w' ''c/templates/old.yaml'' = Some ''old'' \<and> w' ''c/templates/core_v1_service.yaml'' = Some ''s''"
proof -
  let ?w = "[''c/Chart.yaml'' \<mapsto> ''mine'', ''c/templates/old.yaml'' \<mapsto> ''old'']"
  let ?service = "\<lparr>gvkGroup = [], gvkVersion = ''v1'', gvkKind = ''Service''\<rparr>"
  let ?rs = "[(demoDeploymentGVK, ''deployment''), (?service, ''s'')]"
  have docs: "decodeResources demoLib [Inr ''deployment'', Inr ''s''] = Inr ?rs" by code_simp
  have "fst (runChartgen demoFiles demoLib demoKinds rev [Inr ''deployment'', Inr ''s''] ''c'' ''n'' ''v'' ?w) = None"
    by code_simp
  then obtain w' where run: "runChartgen demoFiles demoLib demoKinds rev [Inr ''deployment'', Inr ''s''] ''c'' ''n'' ''v'' ?w = (None, w')"
    by (metis prod.collapse)
  have paths: "groupPath demoFiles ''c'' demoDeploymentGVK = ''c/templates/apps_v1_deployment.yaml''"
    "groupPath demoFiles ''c'' ?service = ''c/templates/core_v1_service.yaml''"
    "fixedPaths demoFiles ''c'' = [''c/Chart.yaml'', ''c/templates/_helpers.tpl'', ''c/values.yaml'', ''c/values.schema.json'']"
    by code_simp+
  have kinds: "objGVK demoLib ` set ?rs = {demoDeploymentGVK, ?service}" "kNamespace demoKinds \<noteq> ?service"
    by (auto simp: demoLib_def demoKinds_def)
  have service: "renderAny demoLib demoKinds (?service, filter (\<lambda>r. objGVK demoLib r = ?service) ?rs) = Inr ''s''"
    by code_simp
  have joins: "joinPath demoFiles ''c'' valuesYAMLFilename = ''c/values.yaml''" "joinPath demoFiles ''c'' chartYAMLFilename = ''c/Chart.yaml''"
    by code_simp+
  have "distinct (fixedPaths demoFiles ''c'')" "inj_on (groupPath demoFiles ''c'') (objGVK demoLib ` set ?rs)"
    "groupPath demoFiles ''c'' ` objGVK demoLib ` set ?rs \<inter> set (fixedPaths demoFiles ''c'') = {}"
    unfolding kinds by (auto simp: paths)
  note result = chart_files [OF demoFiles_laws run docs mset_rev this]
  then obtain v data where values_file: "marshalValues demoLib v = Inr data" "w' (joinPath demoFiles ''c'' valuesYAMLFilename) = Some data"
    by (elim exE conjE)
  from result have chart_file: "w' (joinPath demoFiles ''c'' chartYAMLFilename) =
      Some (keptOr (chartYAML ''n'' ''v'') (?w (joinPath demoFiles ''c'' chartYAMLFilename)))" by (elim exE conjE)
  from result have rendered: "\<forall>g \<in> objGVK demoLib ` set ?rs - {kNamespace demoKinds}. \<exists>content.
      renderAny demoLib demoKinds (g, filter (\<lambda>r. objGVK demoLib r = g) ?rs) = Inr content \<and>
      w' (groupPath demoFiles ''c'' g) = Some content" by (elim exE conjE)
  from result have others: "\<forall>q. q \<notin> set (fixedPaths demoFiles ''c'') \<union> groupPath demoFiles ''c'' `
      (objGVK demoLib ` set ?rs - {kNamespace demoKinds}) \<longrightarrow> w' q = ?w q" by (elim exE conjE)
  have "?service \<in> objGVK demoLib ` set ?rs - {kNamespace demoKinds}" using kinds by simp
  with rendered obtain content where
    "renderAny demoLib demoKinds (?service, filter (\<lambda>r. objGVK demoLib r = ?service) ?rs) = Inr content"
    "w' (groupPath demoFiles ''c'' ?service) = Some content" by blast
  with service have "w' ''c/templates/core_v1_service.yaml'' = Some ''s''" by (simp add: paths)
  moreover have "''c/templates/old.yaml'' \<notin> groupPath demoFiles ''c'' ` (objGVK demoLib ` set ?rs - {kNamespace demoKinds})"
    unfolding kinds by (auto simp: paths)
  then have "w' ''c/templates/old.yaml'' = Some ''old''" using others by (simp add: paths)
  moreover have "w' ''c/values.yaml'' = Some ''values''" using values_file by (simp add: joins demoLib_def)
  moreover have "w' ''c/Chart.yaml'' = Some ''mine''" using chart_file by (simp add: joins keptOr_def)
  ultimately show ?thesis using run by blast
qed

section \<open>Reading the documents back\<close>

lemma length_1_conv: "length p = Suc 0 \<longleftrightarrow> (\<exists>a. p = [a])"
  by (auto simp: length_Suc_conv)

lemma length_2_conv: "length p = 2 \<longleftrightarrow> (\<exists>a b. p = [a, b])"
  by (auto simp: numeral_eq_Suc length_Suc_conv)

lemma length_3_conv: "length p = 3 \<longleftrightarrow> (\<exists>a b c. p = [a, b, c])"
  by (auto simp: numeral_eq_Suc length_Suc_conv)

lemma hasPrefix_separator_overlap:
  assumes "hasPrefix (x # p @ documentSeparator @ rest) documentSeparator"
  shows "hasPrefix (x # p @ [nl]) documentSeparator"
proof (cases "4 \<le> length p")
  case True
  then obtain a b c d q where "p = a # b # c # d # q" by (auto simp: numeral_eq_Suc Suc_le_length_iff)
  with assms show ?thesis by (auto simp: hasPrefix_def documentSeparator_def)
next
  case False
  then have "length p = 0 \<or> length p = 1 \<or> length p = 2 \<or> length p = 3" by arith
  then show ?thesis
    by (elim disjE) (use assms in \<open>auto simp: length_1_conv length_2_conv length_3_conv hasPrefix_def documentSeparator_def\<close>)
qed

lemma contains_Cons: "contains (c # s) t \<longleftrightarrow> hasPrefix (c # s) t \<or> contains s t"
  by (auto simp: contains_def hasPrefix_def sublist_Cons_right)

text \<open>The separator is found at its first occurrence when no part holds it, ends included.\<close>

lemma splitAt_part:
  assumes "\<not> contains (p @ [nl]) documentSeparator"
  shows "splitAt documentSeparator acc (p @ documentSeparator @ rest) = (acc @ p) # splitAt documentSeparator [] rest"
  using assms
proof (induction p arbitrary: acc)
  case Nil
  then show ?case by (simp add: documentSeparator_def hasPrefix_def)
next
  case (Cons c p)
  then have "\<not> hasPrefix (c # p @ [nl]) documentSeparator" "\<not> contains (p @ [nl]) documentSeparator"
    by (simp_all add: contains_Cons)
  with Cons.IH [of "acc @ [c]"] hasPrefix_separator_overlap [of c p rest] show ?case by auto
qed

lemma splitAt_last:
  assumes "\<not> contains p documentSeparator"
  shows "splitAt documentSeparator acc p = [acc @ p]"
  using assms by (induction p arbitrary: acc) (auto simp: contains_Cons)

lemma contains_more: "contains p t \<Longrightarrow> contains (p @ q) t"
  by (auto simp: contains_def sublist_append)

lemma splitAt_join:
  assumes "parts \<noteq> []" "\<And>p. p \<in> set parts \<Longrightarrow> \<not> contains (p @ [nl]) documentSeparator"
  shows "splitAt documentSeparator [] (join documentSeparator parts) = parts"
  using assms
proof (induction documentSeparator parts rule: join.induct)
  case (2 x)
  then have "\<not> contains x documentSeparator" using contains_more by auto
  then show ?case by (simp add: splitAt_last)
next
  case (3 x y zs)
  then show ?case by (simp add: splitAt_part)
qed simp

lemma collect_parts: "collect f xs = Inr ys \<Longrightarrow> map f xs = map Inr ys"
  by (induction f xs arbitrary: ys rule: collect.induct) (auto split: sum.splits)

lemma map_Inr_cong:
  assumes "map f xs = map Inr ys" "\<And>x y. f x = Inr y \<Longrightarrow> g x = Inr y"
  shows "map g xs = map Inr ys"
  using assms(1) by (induction xs arbitrary: ys) (auto simp: Cons_eq_map_conv assms(2))

text \<open>The roles of a name among some documents, in order.\<close>

definition rolesNamed :: "rbac_env \<Rightarrow> string \<Rightarrow> string list \<Rightarrow> cluster_role list" where
  "rolesNamed E name docs =
     filter (\<lambda>role. roleName role = name) (concat (map (\<lambda>doc. if trimSpace doc = [] then [] else
       (case unmarshalRole E (trimSpace doc) of Inl _ \<Rightarrow> [] | Inr role \<Rightarrow> [role])) docs))"

lemma findRole_first:
  "findRole E name docs = (case rolesNamed E name docs of [] \<Rightarrow> None | role # _ \<Rightarrow> Some role)"
  by (induction E name docs rule: findRole.induct)
    (auto simp: rolesNamed_def Let_def split: sum.splits)

text \<open>
  The RBAC check reads a template file of the chart back document by document: when no rendered
  resource holds a separator line of its own, splitting the file gives the renderings of the resources
  in their order, and the role found is the first of them that parses as a role of that name. So the
  role of the module operator is found in the file of its kind whatever other roles are there.
\<close>

lemma rendered_documents:
  assumes rendered: "renderGroup L G g resources = Inr content" and "resources \<noteq> []"
    and clean: "\<And>r part. r \<in> set resources \<Longrightarrow> transformResource L G g r = Inr part \<Longrightarrow>
      \<not> contains (part @ [nl]) documentSeparator"
    and read: "readFile E path = Inr content"
  shows "map Inr (splitAt documentSeparator [] content) = map (transformResource L G g) resources \<and>
    loadClusterRoleByName E path name =
      (case rolesNamed E name (splitAt documentSeparator [] content) of
         [] \<Rightarrow> Inl (''ClusterRole '' @ goQuote name @ '' not found in '' @ path)
       | role # _ \<Rightarrow> Inr role)"
proof -
  define f where "f = (\<lambda>r. wrapSum (''transforming '' @ gvkKind g @ ''/'' @ objName L r) (transformResource L G g r))"
  have "renderGroup L G g resources = (case collect f resources of Inl e \<Rightarrow> Inl e | Inr parts \<Rightarrow> Inr (join documentSeparator parts))"
    unfolding renderGroup_def f_def documentBreak_def documentSeparator_def ..
  then obtain parts where parts: "collect f resources = Inr parts" "content = join documentSeparator parts"
    using rendered by (auto split: sum.splits)
  have each: "map (transformResource L G g) resources = map Inr parts"
  proof (rule map_Inr_cong [OF collect_parts [OF parts(1)]])
    show "transformResource L G g r = Inr part" if "f r = Inr part" for r part
      using that by (simp add: f_def wrapSum_def split: sum.splits)
  qed
  have "\<not> contains (p @ [nl]) documentSeparator" if "p \<in> set parts" for p
  proof -
    have "Inr p \<in> set (map (transformResource L G g) resources)" using that by (simp add: each)
    then show ?thesis using clean by (metis imageE list.set_map)
  qed
  moreover have "parts \<noteq> []" using each assms(2) by auto
  ultimately have "splitAt documentSeparator [] content = parts" unfolding parts(2) by (intro splitAt_join)
  with each read show ?thesis
    by (simp add: loadClusterRoleByName_def findRole_first split: list.splits)
qed

lemma rendered_documents_witness:
  "renderGroup demoLib demoKinds demoDeploymentGVK [(demoDeploymentGVK, ''a: 1''), (demoDeploymentGVK, ''b: ---'')] =
     Inr (''a: 1'' @ [nl] @ ''---'' @ [nl] @ ''b: ---'') \<and>
   splitAt documentSeparator [] (''a: 1'' @ [nl] @ ''---'' @ [nl] @ ''b: ---'') = [''a: 1'', ''b: ---'']"
proof -
  let ?rs = "[(demoDeploymentGVK, ''a: 1''), (demoDeploymentGVK, ''b: ---'')]"
  let ?text = "''a: 1'' @ [nl] @ ''---'' @ [nl] @ ''b: ---''"
  have rendered: "renderGroup demoLib demoKinds demoDeploymentGVK ?rs = Inr ?text" by code_simp
  have parts: "transformResource demoLib demoKinds demoDeploymentGVK (demoDeploymentGVK, ''a: 1'') = Inr ''a: 1''"
    "transformResource demoLib demoKinds demoDeploymentGVK (demoDeploymentGVK, ''b: ---'') = Inr ''b: ---''"
    by code_simp+
  have clean: "\<not> contains (''a: 1'' @ [nl]) documentSeparator" "\<not> contains (''b: ---'' @ [nl]) documentSeparator"
    by code_simp+
  have clean': "\<not> contains (part @ [nl]) documentSeparator"
    if "r \<in> set ?rs" "transformResource demoLib demoKinds demoDeploymentGVK r = Inr part" for r part
    using that parts clean by auto
  have read: "readFile demoEnv ?text = Inr ?text" by (simp add: demoEnv_def)
  have "map Inr (splitAt documentSeparator [] ?text) = map (transformResource demoLib demoKinds demoDeploymentGVK) ?rs"
    by (rule rendered_documents [OF rendered _ clean' read, THEN conjunct1]) simp
  then have "map Inr (splitAt documentSeparator [] ?text) = map (Inr :: _ \<Rightarrow> goerr + string) [''a: 1'', ''b: ---'']"
    unfolding list.map parts .
  with rendered show ?thesis unfolding inj_map_eq_map [OF inj_Inr] by blast
qed

end
