(* ===== verification/ChartProps.thy ===== *)
theory ChartProps
  imports ChartGen
begin

text \<open>The properties of the single rewritings of the chart generator, with small inputs to run them on.\<close>

section \<open>Line rewritings\<close>

text \<open>
  The namespace rewriting changes values only: the number of lines stays, a line without a
  hard-coded namespace stays as it is, a line with one keeps its indentation and gets the template,
  none is left afterwards, and rewriting again changes nothing.
\<close>

lemma replaceNamespace_complete:
  "length (splitLines (replaceNamespace raw)) = length (splitLines raw) \<and>
   (\<forall>i < length (splitLines raw).
      splitLines (replaceNamespace raw) ! i =
        (if isField ''namespace:'' (splitLines raw ! i)
         then indentOf (splitLines raw ! i) @ tplReleaseNamespace else splitLines raw ! i)) \<and>
   (\<forall>line \<in> set (splitLines (replaceNamespace raw)). \<not> isField ''namespace:'' line) \<and>
   replaceNamespace (replaceNamespace raw) = replaceNamespace raw"
proof (intro conjI)
  show "\<forall>line \<in> set (splitLines (replaceNamespace raw)). \<not> isField ''namespace:'' line"
    unfolding replaceNamespace_def ns.lines_of using namespaceLine_clean by (auto simp: yamlFieldNamespace_def)
qed (simp_all add: replaceNamespace_def ns.lines_of ns.idempotent namespaceLine_def yamlFieldNamespace_def)

definition demoBinding :: string where
  "demoBinding = joinLines
     [''kind: RoleBinding'', ''metadata:'', ''  namespace: system'', ''subjects:'', ''- kind: ServiceAccount'',
      ''  name: manager'', ''  namespace: system'']"

lemma demoBinding_lines:
  "splitLines demoBinding =
     [''kind: RoleBinding'', ''metadata:'', ''  namespace: system'', ''subjects:'', ''- kind: ServiceAccount'',
      ''  name: manager'', ''  namespace: system'']"
  by code_simp

lemma replaceNamespace_complete_witness:
  "splitLines (replaceNamespace demoBinding) ! 2 = ''  '' @ tplReleaseNamespace"
proof -
  have "isField ''namespace:'' ''  namespace: system''" "indentOf ''  namespace: system'' = ''  ''"
    by code_simp+
  then show ?thesis
    using replaceNamespace_complete [of demoBinding] by (simp add: demoBinding_lines)
qed

text \<open>
  In a role binding the rewriting of the namespaces of the subjects finds nothing left to do: on text
  whose namespaces have been rewritten it is the identity.
\<close>

lemma subjects_namespace_redundant:
  "replaceSubjectsNamespace (replaceNamespace raw) = replaceNamespace raw"
proof -
  have "subjectsLines namespaceLine False (map namespaceLine (splitLines raw)) = map namespaceLine (splitLines raw)"
    by (rule subjectsLines_id) (auto simp: ns.again)
  then show ?thesis
    unfolding replaceSubjectsNamespace_def replaceNamespace_def ns.lines_of by (simp add: mapLines_def)
qed

definition aboutImage :: "string \<Rightarrow> bool" where
  "aboutImage line \<longleftrightarrow> hasPrefix (trimSpace line) ''image:'' \<or> hasPrefix (trimSpace line) ''imagePullPolicy:''"

lemma imageLines_fields:
  assumes "l \<in> set (imageLines line)"
  shows "\<not> isField ''image:'' l" "hasPrefix (trimSpace l) ''imagePullPolicy:'' \<Longrightarrow> trimSpace l = ''imagePullPolicy: Always''"
proof -
  have image: "\<not> isField f (indentOf line @ imageTemplate)" "trimSpace (indentOf line @ imageTemplate) = imageTemplate" for f
    using contains_braces [OF templates_solid(5) templates_braces(5)] by (simp_all add: trimSpace_template templates_solid)
  have policy: "trimSpace (indentOf line @ pullPolicyTemplate) = pullPolicyTemplate"
    by (simp add: trimSpace_template templates_solid)
  then have other: "\<not> isField ''image:'' (indentOf line @ pullPolicyTemplate)"
    by (simp add: isField_def hasPrefix_def pullPolicyTemplate_def)
  show "\<not> isField ''image:'' l"
    using assms image other by (auto simp: imageLines_def yamlFieldImage_def split: if_splits)
  assume "hasPrefix (trimSpace l) ''imagePullPolicy:''"
  then show "trimSpace l = ''imagePullPolicy: Always''"
    using assms image(2) policy
    by (auto simp: imageLines_def yamlFieldImagePullPolicy_def hasPrefix_def imageTemplate_def pullPolicyTemplate_def
        split: if_splits)
qed

lemma imageLines_others: "filter (\<lambda>l. \<not> aboutImage l) (imageLines line) = filter (\<lambda>l. \<not> aboutImage l) [line]"
  by (auto simp: imageLines_def aboutImage_def isField_def yamlFieldImage_def yamlFieldImagePullPolicy_def
      trimSpace_template templates_solid) (simp_all add: hasPrefix_def imageTemplate_def pullPolicyTemplate_def)

lemma imageLines_one_line:
  assumes "nl \<notin> set line" "l \<in> set (imageLines line)"
  shows "nl \<notin> set l"
  using assms indentOf_blanks [of nl line]
  by (auto simp: imageLines_def imageTemplate_def pullPolicyTemplate_def split: if_splits)

text \<open>
  After the image rewriting no line has a hard-coded image, every line of a pull policy is the
  injected one, and the lines that are about neither are the original ones in the original order.
\<close>

lemma replaceImageField_effect:
  assumes "\<exists>line \<in> set (splitLines raw). \<not> hasPrefix (trimSpace line) ''imagePullPolicy:''"
  shows "(\<forall>l \<in> set (splitLines (replaceImageField raw)). \<not> isField ''image:'' l) \<and>
    (\<forall>l \<in> set (splitLines (replaceImageField raw)).
       hasPrefix (trimSpace l) ''imagePullPolicy:'' \<longrightarrow> trimSpace l = ''imagePullPolicy: Always'') \<and>
    filter (\<lambda>l. \<not> aboutImage l) (splitLines (replaceImageField raw)) = filter (\<lambda>l. \<not> aboutImage l) (splitLines raw)"
proof -
  obtain line where line: "line \<in> set (splitLines raw)" "\<not> hasPrefix (trimSpace line) ''imagePullPolicy:''"
    using assms by blast
  then have "imageLines line \<noteq> []" by (simp add: imageLines_def yamlFieldImagePullPolicy_def)
  moreover have "imageLines line \<in> set (map imageLines (splitLines raw))"
    using line(1) by (simp only: set_map) (rule imageI)
  ultimately have "concat (map imageLines (splitLines raw)) \<noteq> []" unfolding concat_eq_Nil_conv by blast
  then have lines: "splitLines (replaceImageField raw) = concat (map imageLines (splitLines raw))"
    unfolding replaceImageField_def using flatLines_lines [of imageLines raw] imageLines_one_line by metis
  have "filter (\<lambda>l. \<not> aboutImage l) (concat (map imageLines ls)) = filter (\<lambda>l. \<not> aboutImage l) ls" for ls
    by (induction ls) (simp_all add: imageLines_others)
  moreover have "\<exists>line. l \<in> set (imageLines line)" if "l \<in> set (concat (map imageLines ls))" for l ls
    using that by auto
  ultimately show ?thesis unfolding lines using imageLines_fields by metis
qed

lemma replaceImageField_effect_witness:
  "filter (isField ''image:'')
     (splitLines (replaceImageField (joinLines [''- name: manager'', ''  image: controller:latest'', ''  imagePullPolicy: Never'']))) = []"
proof -
  have "splitLines (joinLines [''- name: manager'', ''  image: controller:latest'', ''  imagePullPolicy: Never'']) =
    [''- name: manager'', ''  image: controller:latest'', ''  imagePullPolicy: Never'']" by code_simp
  moreover have "\<not> hasPrefix (trimSpace ''- name: manager'') ''imagePullPolicy:''" by code_simp
  ultimately have "\<exists>line \<in> set (splitLines (joinLines [''- name: manager'', ''  image: controller:latest'',
      ''  imagePullPolicy: Never''])). \<not> hasPrefix (trimSpace line) ''imagePullPolicy:''" by simp
  from replaceImageField_effect [OF this] show ?thesis unfolding filter_empty_conv by blast
qed

text \<open>
  C37. A container whose first key is its image escapes the rewriting: YAML puts the image behind the
  dash of the list item, so the line does not begin with \<^verbatim>\<open>image:\<close>. Every such line, as every other
  line of a list item, is in the result as it was, while the pull policy of the container is dropped
  without a replacement.
\<close>

theorem leading_image_missed:
  assumes "line \<in> set (splitLines raw)" "hasPrefix (trimSpace line) ''- ''"
  shows "line \<in> set (splitLines (replaceImageField raw)) \<and>
    replaceImageField (joinLines [''      - image: quay.io/feast:1'', ''        imagePullPolicy: IfNotPresent'', ''        name: manager'']) =
      joinLines [''      - image: quay.io/feast:1'', ''        name: manager'']"
proof -
  have "imageLines line = [line]"
    using assms(2) by (auto simp: imageLines_def isField_def hasPrefix_def prefix_def yamlFieldImage_def yamlFieldImagePullPolicy_def)
  with assms(1) have "line \<in> set (concat (map imageLines (splitLines raw)))" by (auto intro!: bexI [of _ line])
  moreover from this have "splitLines (replaceImageField raw) = concat (map imageLines (splitLines raw))"
    unfolding replaceImageField_def using flatLines_lines [of imageLines raw] imageLines_one_line by fastforce
  moreover have "replaceImageField (joinLines [''      - image: quay.io/feast:1'', ''        imagePullPolicy: IfNotPresent'', ''        name: manager'']) =
      joinLines [''      - image: quay.io/feast:1'', ''        name: manager'']" by code_simp
  ultimately show ?thesis by simp
qed

lemma leading_image_missed_witness:
  "filter (\<lambda>line. line = ''- image: i:1'') (splitLines (replaceImageField (joinLines [''- image: i:1'', ''  name: m'']))) \<noteq> []"
proof -
  have "''- image: i:1'' \<in> set (splitLines (joinLines [''- image: i:1'', ''  name: m'']))" "hasPrefix (trimSpace ''- image: i:1'') ''- ''"
    by code_simp+
  from leading_image_missed [OF this] show ?thesis unfolding filter_empty_conv by blast
qed

section \<open>Blocks\<close>

text \<open>
  The resources block of a container is replaced as a whole: the lines before it, and the lines
  from the first one that is not blank and indented less than two blanks deeper than the key, are kept;
  between them stand the key and the template, indented to the key.
\<close>

lemma replaceResources_block:
  assumes "\<And>line. line \<in> set pre \<union> set post \<Longrightarrow> trimSpace line \<noteq> ''resources:''"
    and "trimSpace key = ''resources:''"
    and "\<And>line. line \<in> set block \<Longrightarrow> trimSpace line = [] \<or> length (indentOf key) + 2 \<le> length (indentOf line)"
    and "post = [] \<or> trimSpace (hd post) \<noteq> [] \<and> length (indentOf (hd post)) < length (indentOf key) + 2"
    and "splitLines raw = pre @ key # block @ post"
  shows "replaceResources raw =
    joinLines (pre @ [indentOf key @ ''resources:'',
      indentOf key @ ''  {{- toYaml .Values.resources | nindent '' @ formatNat (length (indentOf key) + 2) @ '' }}''] @ post)"
proof -
  have "resourceLines (post @ []) = post @ resourceLines []"
    using assms(1) by (intro resourceLines_none) (simp add: yamlFieldResources_def)
  moreover have "skipBlock (length (indentOf key) + 2) (block @ post) = post"
    using assms(3,4) by (rule skipBlock_split)
  moreover have "resourceLines (pre @ key # block @ post) = pre @ resourceLines (key # block @ post)"
    using assms(1) by (intro resourceLines_none) (simp add: yamlFieldResources_def)
  ultimately show ?thesis
    using assms(2) by (simp add: replaceResources_def assms(5) yamlFieldResources_def)
qed

lemma replaceResources_block_witness:
  "replaceResources (joinLines [''  name: m'', ''  resources:'', ''    limits:'', ''      cpu: 1'', ''  volumes: []'']) =
   joinLines [''  name: m'', ''  resources:'', ''    {{- toYaml .Values.resources | nindent 4 }}'', ''  volumes: []'']"
proof -
  let ?raw = "joinLines [''  name: m'', ''  resources:'', ''    limits:'', ''      cpu: 1'', ''  volumes: []'']"
  have "replaceResources ?raw = joinLines ([''  name: m''] @ [indentOf ''  resources:'' @ ''resources:'',
      indentOf ''  resources:'' @ ''  {{- toYaml .Values.resources | nindent '' @ formatNat (length (indentOf ''  resources:'') + 2) @ '' }}''] @
      [''  volumes: []''])"
  proof (rule replaceResources_block)
    show "splitLines ?raw = [''  name: m''] @ ''  resources:'' # [''    limits:'', ''      cpu: 1''] @ [''  volumes: []'']"
      by code_simp
    have "\<forall>line \<in> set ([''  name: m''] @ [''  volumes: []'']). trimSpace line \<noteq> ''resources:''" by code_simp
    then show "\<And>line. line \<in> set [''  name: m''] \<union> set [''  volumes: []''] \<Longrightarrow> trimSpace line \<noteq> ''resources:''" by auto
    have "\<forall>line \<in> set [''    limits:'', ''      cpu: 1'']. trimSpace line = [] \<or> length (indentOf ''  resources:'') + 2 \<le> length (indentOf line)"
      by code_simp
    then show "\<And>line. line \<in> set [''    limits:'', ''      cpu: 1''] \<Longrightarrow> trimSpace line = [] \<or> length (indentOf ''  resources:'') + 2 \<le> length (indentOf line)"
      by blast
    show "trimSpace ''  resources:'' = ''resources:''" by code_simp
    show "[''  volumes: []''] = [] \<or> trimSpace (hd [''  volumes: []'']) \<noteq> [] \<and>
        length (indentOf (hd [''  volumes: []''])) < length (indentOf ''  resources:'') + 2" by code_simp
  qed
  also have "\<dots> = joinLines [''  name: m'', ''  resources:'', ''    {{- toYaml .Values.resources | nindent 4 }}'', ''  volumes: []'']"
    by code_simp
  finally show ?thesis .
qed

text \<open>
  The data of a ConfigMap are replaced by the directives that read them from the chart's values:
  where there is one data section its entries are dropped and the directives stand in its place;
  without a data section they are appended. Everything else is kept.
\<close>

lemma injectConfigMapValues_effect:
  assumes "\<And>line. line \<in> set pre \<union> set entries \<union> set post \<Longrightarrow> trimSpace line \<noteq> ''data:''"
    and "\<And>line. line \<in> set entries \<Longrightarrow> trimSpace line = [] \<or> hasPrefix line [sp, sp]"
    and "post = [] \<or> trimSpace (hd post) \<noteq> [] \<and> \<not> hasPrefix (hd post) [sp, sp]"
    and "trimSpace key = ''data:''"
  shows "(splitLines raw = pre @ key # entries @ post \<longrightarrow>
       injectConfigMapValues raw = joinLines (pre @ dataDirectives (indentOf key) @ post)) \<and>
    (splitLines raw = pre \<longrightarrow> injectConfigMapValues raw = joinLines (pre @ dataDirectives []))"
proof -
  have kept: "configLines False h (ls @ rest) = (case configLines False h rest of (r, h') \<Rightarrow> (ls @ r, h'))"
    if "set ls \<subseteq> set pre \<union> set entries \<union> set post" for h ls rest
    using that assms(1) by (intro configLines_kept) (auto simp: yamlFieldData_def)
  have "configLines True True (entries @ post) = configLines True True post"
    using assms(1,2) by (intro configLines_dropped) (auto simp: yamlFieldData_def)
  also have "\<dots> = (post, True)"
  proof (cases post)
    case (Cons p ps)
    then have "configLines False True ps = (ps, True)" using kept [of ps True "[]"] by auto
    with Cons assms(1) [of p] assms(3) show ?thesis by (simp add: Let_def yamlFieldData_def)
  qed simp
  finally have "configLines False False (pre @ key # entries @ post) = (pre @ dataDirectives (indentOf key) @ post, True)"
    using kept [of pre False "key # entries @ post"] assms(4) by (simp add: Let_def yamlFieldData_def Un_assoc)
  moreover have "configLines False False pre = (pre, False)"
    using kept [of pre False "[]"] by (simp add: Un_assoc)
  ultimately show ?thesis by (simp add: injectConfigMapValues_def)
qed

lemma injectConfigMapValues_effect_witness:
  "injectConfigMapValues (joinLines [''data:'', ''  a: b'', ''kind: ConfigMap'']) =
   joinLines (dataDirectives [] @ [''kind: ConfigMap''])"
proof -
  let ?raw = "joinLines [''data:'', ''  a: b'', ''kind: ConfigMap'']"
  have "(splitLines ?raw = [] @ ''data:'' # [''  a: b''] @ [''kind: ConfigMap''] \<longrightarrow>
       injectConfigMapValues ?raw = joinLines ([] @ dataDirectives (indentOf ''data:'') @ [''kind: ConfigMap''])) \<and>
    (splitLines ?raw = [] \<longrightarrow> injectConfigMapValues ?raw = joinLines ([] @ dataDirectives []))"
  proof (rule injectConfigMapValues_effect)
    have "\<forall>line \<in> set [''  a: b'', ''kind: ConfigMap'']. trimSpace line \<noteq> ''data:''" by code_simp
    then show "\<And>line. line \<in> set [] \<union> set [''  a: b''] \<union> set [''kind: ConfigMap''] \<Longrightarrow> trimSpace line \<noteq> ''data:''"
      by auto
    have "hasPrefix ''  a: b'' [sp, sp]" by code_simp
    then show "\<And>line. line \<in> set [''  a: b''] \<Longrightarrow> trimSpace line = [] \<or> hasPrefix line [sp, sp]" by simp
    show "[''kind: ConfigMap''] = [] \<or> trimSpace (hd [''kind: ConfigMap'']) \<noteq> [] \<and> \<not> hasPrefix (hd [''kind: ConfigMap'']) [sp, sp]"
      by code_simp
    show "trimSpace ''data:'' = ''data:''" by code_simp
  qed
  moreover have "splitLines ?raw = [] @ ''data:'' # [''  a: b''] @ [''kind: ConfigMap'']" "indentOf ''data:'' = []"
    by code_simp+
  ultimately show ?thesis by simp
qed

end
