(* ===== verification/ChartDeployProps.thy ===== *)
theory ChartDeployProps
  imports ChartProps ChartFileProps
begin

text \<open>
  The rewriting of a Deployment as a whole: seven rewritings run one after the other, and none undoes
  what another has done.
\<close>

section \<open>The lines of a Deployment\<close>

text \<open>The composition on lines, and the lines that no rewriting has to look at any more.\<close>

definition deployLines :: "string list \<Rightarrow> string list" where
  "deployLines ls =
     concat (map envLines (concat (map pullSecretLines (map serviceAccountLine (resourceLines
       (map replicasLine (concat (map imageLines (map namespaceLine ls)))))))))"

definition rewrittenFields :: "string list" where
  "rewrittenFields = [yamlFieldNamespace, yamlFieldImage, yamlFieldReplicas, yamlFieldServiceAccountName]"

definition settled :: "string \<Rightarrow> bool" where
  "settled line \<longleftrightarrow>
     (\<forall>field \<in> set rewrittenFields. \<not> isField field line) \<and> \<not> hasPrefix (trimSpace line) yamlFieldImagePullPolicy"

lemma trimSpace_blank: "trimSpace (sp # s) = trimSpace s"
  using trimSpace_indent [of "[sp]" s] by simp

lemmas rewritten_defs = rewrittenFields_def yamlFieldNamespace_def yamlFieldImage_def yamlFieldReplicas_def
  yamlFieldServiceAccountName_def yamlFieldImagePullPolicy_def

lemma settled_line:
  assumes "set i \<subseteq> {sp}" "solid t" "list_all (\<lambda>f. \<not> hasPrefix t f) rewrittenFields \<or> contains t ''{{''"
    and "\<not> hasPrefix t yamlFieldImagePullPolicy"
  shows "settled (i @ t)"
  using assms by (auto simp: settled_def isField_def list_all_iff)

lemma settled_more:
  assumes "settled (i @ t)" "set i \<subseteq> {sp}" "set j \<subseteq> {sp}"
  shows "settled (j @ t)"
  using assms by (simp add: settled_def isField_def)

lemma rest_of_lines:
  "settled (indentOf line @ ''{{- with .Values.imagePullSecret }}'')" "settled (indentOf line @ ''imagePullSecrets:'')"
  "settled (indentOf line @ ''  - name: {{ . }}'')" "settled (indentOf line @ ''{{- end }}'')"
  "settled (indentOf line @ ''{{- range $key, $val := .Values.extraEnvs }}'')"
  "settled (indentOf line @ ''- name: {{ $key | quote }}'')" "settled (indentOf line @ ''  value: {{ $val | quote }}'')"
  "settled (indentOf line @ ''resources:'')"
  by (simp_all add: settled_def isField_def trimSpace_blank solid_def visible_def rewritten_defs hasPrefix_def set_indentOf)

lemma pullSecretLines_new: "l \<in> set (pullSecretLines line) \<Longrightarrow> l = line \<or> settled l"
  by (auto simp: pullSecretLines_def rest_of_lines split: if_splits)

lemma envLines_new: "l \<in> set (envLines line) \<Longrightarrow> l = line \<or> settled l"
  by (auto simp: envLines_def rest_of_lines split: if_splits)

lemma nindent_settled:
  "settled (indentOf line @ ''  {{- toYaml .Values.resources | nindent '' @ formatNat n @ '' }}'')"
  by (simp add: settled_def isField_def trimSpace_blank solid_def visible_def rewritten_defs hasPrefix_def set_indentOf)

lemma skipBlock_subset: "set (skipBlock n ls) \<subseteq> set ls"
  by (auto simp: skipBlock_def dest: set_dropWhileD)

lemma resourceLines_new: "l \<in> set (resourceLines ls) \<Longrightarrow> l \<in> set ls \<or> settled l"
proof (induction ls rule: resourceLines.induct)
  case (2 line ls)
  show ?case
  proof (cases "trimSpace line = yamlFieldResources")
    case True
    have "l \<in> {indentOf line @ ''resources:'',
        indentOf line @ ''  {{- toYaml .Values.resources | nindent '' @ formatNat (length (indentOf line) + 2) @ '' }}''} \<or>
      l \<in> set (resourceLines (skipBlock (length (indentOf line) + 2) ls))"
      using 2(3) unfolding resourceLines.simps(2) if_P [OF True] list.set insert_iff by blast
    then show ?thesis
      using rest_of_lines(8) [of line] nindent_settled [of line] 2(1) [OF True] skipBlock_subset by fastforce
  next
    case False
    with 2(2,3) show ?thesis by auto
  qed
qed simp

lemma template_settled:
  assumes "solid t" "contains t ''{{''" "\<not> hasPrefix t yamlFieldImagePullPolicy"
  shows "settled (indentOf line @ t)"
  using assms contains_braces [OF assms(1,2)] by (simp add: settled_def trimSpace_template)

lemma templates_not_policy:
  "\<not> hasPrefix tplReleaseNamespace yamlFieldImagePullPolicy" "\<not> hasPrefix ''replicas: {{ .Values.replicas }}'' yamlFieldImagePullPolicy"
  "\<not> hasPrefix (yamlFieldServiceAccountName @ '' '' @ tplServiceAccountName) yamlFieldImagePullPolicy"
  "\<not> hasPrefix imageTemplate yamlFieldImagePullPolicy"
  by (simp_all add: hasPrefix_def rewritten_defs tplReleaseNamespace_def imageTemplate_def)

lemma namespaceLine_new: "settled (namespaceLine line) \<or> namespaceLine line = line \<and> \<not> isField yamlFieldNamespace line"
  using template_settled [OF templates_solid(1) templates_braces(1) templates_not_policy(1)] by (simp add: namespaceLine_def)

lemma replicasLine_new: "settled (replicasLine line) \<or> replicasLine line = line \<and> \<not> isField yamlFieldReplicas line"
  unfolding replicasLine_def
  using template_settled [OF templates_solid(2) templates_braces(2) templates_not_policy(2)] by presburger

lemma serviceAccountLine_new:
  "settled (serviceAccountLine line) \<or> serviceAccountLine line = line \<and> \<not> isField yamlFieldServiceAccountName line"
  unfolding serviceAccountLine_def
  using template_settled [OF templates_solid(3) templates_braces(3) templates_not_policy(3)] by presburger

lemma imageLines_new:
  assumes "l \<in> set (imageLines line)"
  shows "settled l \<or> l = indentOf line @ pullPolicyTemplate \<or>
    l = line \<and> \<not> isField yamlFieldImage line \<and> \<not> hasPrefix (trimSpace line) yamlFieldImagePullPolicy"
  using assms template_settled [OF templates_solid(5) templates_braces(5) templates_not_policy(4)]
  by (auto simp: imageLines_def split: if_splits)

section \<open>The property\<close>

text \<open>What the rewritings leave: a settled line, or the injected pull policy.\<close>

lemma policy_line:
  "f \<in> set rewrittenFields \<Longrightarrow> \<not> isField f (indentOf line @ pullPolicyTemplate)"
  by (auto simp: isField_def trimSpace_template templates_solid) (auto simp: rewritten_defs hasPrefix_def pullPolicyTemplate_def)

definition injectedPolicy :: "string \<Rightarrow> bool" where
  "injectedPolicy l \<longleftrightarrow> (\<exists>line. l = indentOf line @ pullPolicyTemplate)"

lemma concat_new:
  "l \<in> set (concat (map f ls)) \<Longrightarrow> \<not> settled l \<Longrightarrow> (\<And>line. l \<in> set (f line) \<Longrightarrow> l = line \<or> settled l) \<Longrightarrow> l \<in> set ls"
  by auto

lemma deployLines_settled:
  assumes "l \<in> set (deployLines ls)"
  shows "settled l \<or> injectedPolicy l"
proof (rule ccontr)
  assume "\<not> (settled l \<or> injectedPolicy l)"
  then have not: "\<not> settled l" "\<not> injectedPolicy l" by simp_all
  let ?images = "concat (map imageLines (map namespaceLine ls))"
  have "l \<in> set (map serviceAccountLine (resourceLines (map replicasLine ?images)))"
    by (rule concat_new [OF concat_new [OF assms [unfolded deployLines_def] not(1) envLines_new] not(1) pullSecretLines_new])
  then obtain c where c: "l = serviceAccountLine c" "c \<in> set (resourceLines (map replicasLine ?images))" by auto
  with not serviceAccountLine_new [of c] have sa: "l = c" "\<not> isField yamlFieldServiceAccountName l" by auto
  have "l \<in> set (map replicasLine ?images)" using resourceLines_new [OF c(2)] sa(1) not(1) by blast
  then obtain d where d: "l = replicasLine d" "d \<in> set ?images" unfolding set_map by blast
  with not replicasLine_new [of d] have reps: "l = d" "\<not> isField yamlFieldReplicas l" by auto
  then obtain x where x: "l \<in> set (imageLines (namespaceLine x))" using d(2) by auto
  with not imageLines_new [OF x] have image: "l = namespaceLine x" "\<not> isField yamlFieldImage l"
    "\<not> hasPrefix (trimSpace l) yamlFieldImagePullPolicy" by (auto simp: injectedPolicy_def)
  with not namespaceLine_new [of x] have "\<not> isField yamlFieldNamespace l" by auto
  with sa reps image not(1) show False by (simp add: settled_def rewrittenFields_def)
qed

text \<open>None of the rewritings makes a line with a line break in it.\<close>

definition oneLine :: "string list \<Rightarrow> bool" where
  "oneLine ls \<longleftrightarrow> (\<forall>l \<in> set ls. nl \<notin> set l)"

lemma indented_one_line: "nl \<notin> set (indentOf line @ t) \<longleftrightarrow> nl \<notin> set t"
  using indentOf_blanks [of nl line] by auto

lemma formatNat_one_line: "nl \<notin> set (formatNat n)"
proof (induction n rule: formatNat.induct)
  case (1 n)
  have digit: "digitChar k \<noteq> nl" if "k < 10" for k
  proof
    assume "digitChar k = nl"
    then have "(of_char (digitChar k) :: nat) = of_char nl" by simp
    with that show False by (simp add: digitChar_def of_char_of)
  qed
  show ?case
  proof (cases "n < 10")
    case True
    with digit [OF this] show ?thesis by (subst formatNat.simps) auto
  next
    case False
    with 1 digit [of "n mod 10"] show ?thesis by (subst formatNat.simps) auto
  qed
qed

lemma flat_one_line:
  "(\<And>line. nl \<notin> set line \<Longrightarrow> oneLine (f line)) \<Longrightarrow> oneLine ls \<Longrightarrow> oneLine (concat (map f ls))"
  by (auto simp: oneLine_def)

lemma pullSecretLines_one_line: "nl \<notin> set line \<Longrightarrow> oneLine (pullSecretLines line)"
  by (auto simp: oneLine_def pullSecretLines_def dest: indentOf_blanks)

lemma envLines_one_line: "nl \<notin> set line \<Longrightarrow> oneLine (envLines line)"
  by (auto simp: oneLine_def envLines_def dest: indentOf_blanks)

lemma resourceLines_one_line:
  assumes "oneLine ls"
  shows "oneLine (resourceLines ls)"
  using assms
proof (induction ls rule: resourceLines.induct)
  case (2 line ls)
  have "oneLine (skipBlock n ls)" for n using 2(3) skipBlock_subset [of n ls] by (auto simp: oneLine_def)
  with 2 show ?case by (auto simp: oneLine_def formatNat_one_line dest: indentOf_blanks)
qed simp

lemma splitLines_joined: "oneLine ls \<Longrightarrow> ls \<noteq> [] \<Longrightarrow> splitLines (joinLines ls) = ls"
  by (rule splitOn_join) (auto simp: oneLine_def)

lemma splitLines_one_line: "oneLine (splitLines raw)"
  unfolding oneLine_def by (auto dest: splitOn_no_sep)

text \<open>The stages on text are the stages on lines.\<close>

lemma flatLines_split:
  assumes "\<And>line. nl \<notin> set line \<Longrightarrow> oneLine (f line)" "concat (map f (splitLines raw)) \<noteq> []"
  shows "splitLines (flatLines f raw) = concat (map f (splitLines raw))"
  using assms by (intro flatLines_lines) (auto simp: oneLine_def)

lemma replaceResources_split: "splitLines (replaceResources raw) = resourceLines (splitLines raw)"
proof -
  have "resourceLines ls \<noteq> []" if "ls \<noteq> []" for ls using that by (cases ls) auto
  then show ?thesis
    unfolding replaceResources_def
    by (intro splitLines_joined resourceLines_one_line splitLines_one_line) (simp add: splitOn_nonempty)
qed

lemma deploymentText_split:
  assumes "line \<in> set (splitLines raw)" "\<not> hasPrefix (trimSpace line) yamlFieldImagePullPolicy"
  shows "splitLines (deploymentText raw) = deployLines (splitLines raw)"
proof -
  have "\<not> hasPrefix (trimSpace (namespaceLine line)) yamlFieldImagePullPolicy"
    using namespaceLine_new [of line] assms(2) by (auto simp: settled_def)
  then have "imageLines (namespaceLine line) \<noteq> []" by (simp add: imageLines_def)
  with assms(1) have "concat (map imageLines (splitLines (replaceNamespace raw))) \<noteq> []"
    by (auto simp: replaceNamespace_def ns.lines_of)
  then have image: "splitLines (replaceImageField (replaceNamespace raw)) =
      concat (map imageLines (map namespaceLine (splitLines raw)))"
    using flatLines_split [of imageLines "replaceNamespace raw"] imageLines_one_line
    by (simp add: replaceImageField_def oneLine_def replaceNamespace_def ns.lines_of)
  have secret: "splitLines (addImagePullSecrets t) = concat (map pullSecretLines (splitLines t))" for t
    unfolding addImagePullSecrets_def
    by (rule flatLines_split [OF pullSecretLines_one_line]) (use splitOn_nonempty [of nl t] in \<open>auto simp: pullSecretLines_def neq_Nil_conv\<close>)
  have env: "splitLines (injectExtraEnvs t) = concat (map envLines (splitLines t))" for t
    unfolding injectExtraEnvs_def
    by (rule flatLines_split [OF envLines_one_line]) (use splitOn_nonempty [of nl t] in \<open>auto simp: envLines_def neq_Nil_conv\<close>)
  have reps: "splitLines (replaceReplicas t) = map replicasLine (splitLines t)" for t
    by (simp add: replaceReplicas_def reps.lines_of)
  have sa: "splitLines (replaceServiceAccountName t) = map serviceAccountLine (splitLines t)" for t
    by (simp add: replaceServiceAccountName_def sa.lines_of)
  show ?thesis
    unfolding deploymentText_def deployLines_def env secret sa replaceResources_split reps image ..
qed

text \<open>
  C31. A rendered Deployment has no line with a hard-coded value left that begins with the field of a
  namespace, an image, a replica count or a service account, and every line that begins with a pull
  policy is the injected one. None of the seven rewritings brings back what an earlier one removed,
  whatever the manifest is, as long as some line of it is not a pull policy. A field that begins a list
  item (\<^verbatim>\<open>- image: x\<close>) is no such line: it stays as it is, which is a property of its own.
\<close>

theorem deployment_templated:
  assumes "marshalResource L obj = Inr raw" "line \<in> set (splitLines raw)" "\<not> hasPrefix (trimSpace line) ''imagePullPolicy:''"
  shows "\<exists>content. transformDeployment L obj = Inr content \<and>
    (\<forall>l \<in> set (splitLines content).
       \<not> isField ''namespace:'' l \<and> \<not> isField ''image:'' l \<and> \<not> isField ''replicas:'' l \<and>
       \<not> isField ''serviceAccountName:'' l \<and>
       (hasPrefix (trimSpace l) ''imagePullPolicy:'' \<longrightarrow> trimSpace l = ''imagePullPolicy: Always''))"
proof -
  have lines: "splitLines (deploymentText raw) = deployLines (splitLines raw)"
    using assms(2,3) by (intro deploymentText_split) (simp_all add: yamlFieldImagePullPolicy_def)
  have "\<not> isField ''namespace:'' l \<and> \<not> isField ''image:'' l \<and> \<not> isField ''replicas:'' l \<and>
      \<not> isField ''serviceAccountName:'' l \<and>
      (hasPrefix (trimSpace l) ''imagePullPolicy:'' \<longrightarrow> trimSpace l = ''imagePullPolicy: Always'')"
    if "l \<in> set (splitLines (deploymentText raw))" for l
    using deployLines_settled [OF that [unfolded lines]]
  proof
    assume "settled l"
    then show ?thesis by (simp add: settled_def rewritten_defs)
  next
    assume "injectedPolicy l"
    then obtain i where i: "l = indentOf i @ pullPolicyTemplate" by (auto simp: injectedPolicy_def)
    then have "\<forall>f \<in> set rewrittenFields. \<not> isField f l" using policy_line by blast
    then show ?thesis using i
      by (simp add: rewritten_defs trimSpace_template templates_solid) (simp add: pullPolicyTemplate_def)
  qed
  with assms(1) show ?thesis by (simp add: transformDeployment_def onRaw_def)
qed

lemma deployment_templated_witness:
  "\<exists>content. transformDeployment demoLib (demoDeploymentGVK, joinLines [''spec:'', ''  replicas: 3'', ''  image: i:1'']) = Inr content \<and>
     filter (isField ''replicas:'') (splitLines content) = [] \<and> filter (isField ''image:'') (splitLines content) = []"
proof -
  let ?raw = "joinLines [''spec:'', ''  replicas: 3'', ''  image: i:1'']"
  have raw: "marshalResource demoLib (demoDeploymentGVK, ?raw) = Inr ?raw" by code_simp
  have line: "''spec:'' \<in> set (splitLines ?raw)" "\<not> hasPrefix (trimSpace ''spec:'') ''imagePullPolicy:''" by code_simp+
  obtain content where content: "transformDeployment demoLib (demoDeploymentGVK, ?raw) = Inr content"
    and clean: "\<forall>l \<in> set (splitLines content). \<not> isField ''namespace:'' l \<and> \<not> isField ''image:'' l \<and>
       \<not> isField ''replicas:'' l \<and> \<not> isField ''serviceAccountName:'' l \<and>
       (hasPrefix (trimSpace l) ''imagePullPolicy:'' \<longrightarrow> trimSpace l = ''imagePullPolicy: Always'')"
    using deployment_templated [OF raw line] by (elim exE conjE)
  have "filter (isField ''replicas:'') (splitLines content) = []" "filter (isField ''image:'') (splitLines content) = []"
    unfolding filter_empty_conv using clean by blast+
  with content show ?thesis by blast
qed

end
