(* ===== verification/ChartKindProps.thy ===== *)
theory ChartKindProps
  imports ChartDeployProps
begin

text \<open>
  The rewriting of whole documents, kind by kind, and of the files that hold them: what is templated
  in each, and what is kept.
\<close>

section \<open>Lines without a hard-coded namespace\<close>

definition freeLine :: "string \<Rightarrow> bool" where
  "freeLine l \<longleftrightarrow> nl \<notin> set l \<and> \<not> isField yamlFieldNamespace l"

lemma freeLine_indent [simp]: "freeLine (indentOf line @ t) \<longleftrightarrow> freeLine t"
  unfolding freeLine_def isField_def indented_one_line by (simp add: set_indentOf)

lemma freeLine_Nil [simp]: "freeLine []"
  by (simp add: freeLine_def isField_def hasPrefix_def yamlFieldNamespace_def)

lemma freeLine_braces: "nl \<notin> set t \<Longrightarrow> solid t \<Longrightarrow> contains t ''{{'' \<Longrightarrow> freeLine t"
  by (simp add: freeLine_def isField_def)

lemma freeLine_other: "nl \<notin> set t \<Longrightarrow> solid t \<Longrightarrow> \<not> hasPrefix t yamlFieldNamespace \<Longrightarrow> freeLine t"
  by (simp add: freeLine_def isField_def)

lemma freeLine_blank: "freeLine (sp # t) \<longleftrightarrow> freeLine t"
  by (auto simp: freeLine_def isField_def trimSpace_blank)

lemma namespaceLine_free: "nl \<notin> set line \<Longrightarrow> freeLine (namespaceLine line)"
  using ns.one_line namespaceLine_clean by (simp add: freeLine_def)

lemma joined_free:
  assumes "list_all freeLine ls"
  shows "list_all freeLine (splitLines (joinLines ls))"
proof (cases "ls = []")
  case False
  then have "splitLines (joinLines ls) = ls"
    using assms by (intro splitLines_joined) (auto simp: oneLine_def freeLine_def list_all_iff)
  with assms show ?thesis by simp
qed simp

lemma namespaces_free: "list_all freeLine (splitLines (replaceNamespace raw))"
  using splitLines_one_line [of raw]
  by (auto simp: replaceNamespace_def ns.lines_of list_all_iff oneLine_def intro: namespaceLine_free)

text \<open>The rewritings of the other kinds keep it.\<close>

lemma subjectsLines_free:
  assumes "\<And>line. freeLine line \<Longrightarrow> freeLine (f line)"
  shows "list_all freeLine ls \<Longrightarrow> list_all freeLine (subjectsLines f inS ls)"
  using assms by (induction ls arbitrary: inS) (simp_all add: Let_def)

lemma subjectNameLine_free: "freeLine line \<Longrightarrow> freeLine (subjectNameLine line)"
  using freeLine_braces [OF templates_one_line(4) templates_solid(4) templates_braces(4)] by (simp add: subjectNameLine_def)

lemma again_free: "freeLine line \<Longrightarrow> freeLine (namespaceLine line)"
  by (rule namespaceLine_free) (simp add: freeLine_def)

lemma nindent_free: "freeLine (''  {{- toYaml . | nindent '' @ formatNat n @ '' }}'')"
  by (simp add: freeLine_blank freeLine_other formatNat_one_line solid_def visible_def hasPrefix_def yamlFieldNamespace_def)

lemma account_free:
  "freeLine (yamlFieldName @ '' '' @ tplServiceAccountName)" "freeLine ''{{- with .Values.serviceAccount.annotations }}''"
  "freeLine ''annotations:''" "freeLine ''{{- end }}''"
  using freeLine_braces [OF templates_one_line(4) templates_solid(4) templates_braces(4)]
  by (simp_all add: freeLine_other solid_def visible_def hasPrefix_def yamlFieldNamespace_def)

lemma accountLines_free: "list_all freeLine ls \<Longrightarrow> list_all freeLine (accountLines name inMeta ls)"
  by (induction ls arbitrary: inMeta) (simp_all add: Let_def account_free nindent_free del: append.simps)

lemma directives_free: "list_all freeLine (dataDirectives (indentOf line))" "list_all freeLine (dataDirectives [])"
  by (simp_all add: dataDirectives_def freeLine_blank freeLine_other solid_def visible_def hasPrefix_def yamlFieldNamespace_def)

lemma configLines_free: "list_all freeLine ls \<Longrightarrow> list_all freeLine (fst (configLines inData hasData ls))"
  by (induction ls arbitrary: inData hasData) (simp_all add: Let_def directives_free case_prod_beta)

text \<open>Trimming takes no brace away.\<close>

lemma stripPrefixes_braces:
  assumes "\<And>p. p \<in> set ps \<Longrightarrow> c \<notin> set p" "contains s [c, c]"
  shows "contains (stripPrefixes ps s) [c, c]"
  using assms
proof (induction ps s rule: stripPrefixes.induct)
  case (1 ps s)
  note avoid = 1(2) and inside = 1(3)
  show ?case
  proof (cases "find (\<lambda>p. p \<noteq> [] \<and> prefix p s) ps")
    case None
    with inside show ?thesis by (subst stripPrefixes.simps) simp
  next
    case (Some p)
    then have p: "p \<in> set ps" "prefix p s" by (auto simp: find_Some_iff in_set_conv_nth)
    then obtain r where r: "s = p @ r" by (auto elim: prefixE)
    have "contains r [c, c]"
      using inside avoid [OF p(1)] by (auto simp: contains_def r sublist_append Cons_eq_append_conv dest: set_mono_suffix set_mono_sublist)
    with 1(1) [OF Some avoid] r Some show ?thesis by (subst stripPrefixes.simps) simp
  qed
qed

lemma trimSpace_braces:
  assumes "contains s ''{{''"
  shows "contains (trimSpace s) ''{{''"
proof -
  have rev: "contains (rev t) ''{{'' \<longleftrightarrow> contains t ''{{''" for t
    using sublist_rev_left [of "''{{''" t] by (simp add: contains_def sublist_rev_right)
  have "contains (trimLeftSpace s) ''{{''"
    unfolding trimLeftSpace_def using assms by (intro stripPrefixes_braces) (auto simp: spaceEncodings_def)
  then have "contains (stripPrefixes (map rev spaceEncodings) (rev (trimLeftSpace s))) ''{{''"
    by (intro stripPrefixes_braces) (auto simp: spaceEncodings_def rev)
  then show ?thesis by (simp add: trimSpace_def trimRightSpace_def rev)
qed

lemma freeLine_inside: "nl \<notin> set a \<Longrightarrow> nl \<notin> set b \<Longrightarrow> freeLine (a @ ''{{'' @ b)"
  using trimSpace_braces [OF contains_append [of a "''{{''" b]] by (simp add: freeLine_def isField_def)

lemma set_trimSpace: "set (trimSpace s) \<subseteq> set s"
  using trimSpace_sublist [of s] by (metis Un_upper1 Un_upper2 set_append subset_trans)

lemma set_after: "set (tl (dropWhile P s)) \<subseteq> set s"
proof -
  have "set (tl xs) \<subseteq> set xs" for xs :: "'a list" by (cases xs) auto
  moreover have "set (dropWhile P s) \<subseteq> set s" using set_dropWhileD [of _ P s] by blast
  ultimately show ?thesis by (rule order_trans)
qed

lemma set_splitN: "p \<in> set (splitN c n s) \<Longrightarrow> set p \<subseteq> set s"
proof (induction c n s arbitrary: p rule: splitN.induct)
  case (3 c n s)
  show ?case
  proof (cases "p = takeWhile (\<lambda>x. x \<noteq> c) s")
    case True
    then show ?thesis using set_takeWhileD by fastforce
  next
    case False
    with 3 set_after [of "\<lambda>x. x \<noteq> c" s] show ?thesis by (fastforce split: if_splits)
  qed
qed simp_all

lemma annotationLine_free:
  assumes "freeLine line"
  shows "freeLine (annotationLine line)"
proof -
  have "freeLine (indentOf line @ trimSpace key @ '': {{ .Values.namespace }}/'' @ name)"
    if parts: "splitN (CHR '':'') 2 line = [key, rest]" "splitN (CHR ''/'') 2 (trimSpace rest) = [x, name]" for key rest x name
  proof -
    have "set key \<subseteq> set line" "set rest \<subseteq> set line" "set name \<subseteq> set (trimSpace rest)"
      using set_splitN [of _ "CHR '':''" 2 line] set_splitN [of _ "CHR ''/''" 2 "trimSpace rest"] parts by auto
    then have "nl \<notin> set (trimSpace key)" "nl \<notin> set name"
      using assms set_trimSpace [of key] set_trimSpace [of rest] by (auto simp: freeLine_def)
    then show ?thesis
      using freeLine_inside [of "trimSpace key @ '': ''" "'' .Values.namespace }}/'' @ name"] by simp
  qed
  with assms show ?thesis by (auto simp: annotationLine_def split: list.splits)
qed

lemma dnsLine_free:
  assumes "freeLine line"
  shows "freeLine (dnsLine line)"
proof -
  have "freeLine (indentOf line @ ''- '' @ svc @ ''.{{ .Values.namespace }}.'' @ domain)"
    if parts: "splitN (CHR ''.'') 3 (trimPrefix (trimSpace line) ''- '') = [svc, x, domain]" for svc x domain
  proof -
    have "set (trimPrefix (trimSpace line) ''- '') \<subseteq> set line"
      using set_trimSpace [of line] by (auto simp: trimPrefix_def dest: in_set_dropD)
    then have "nl \<notin> set svc" "nl \<notin> set domain"
      using set_splitN [of _ "CHR ''.''" 3 "trimPrefix (trimSpace line) ''- ''"] parts assms by (auto simp: freeLine_def)
    then show ?thesis
      using freeLine_inside [of "''- '' @ svc @ ''.''" "'' .Values.namespace }}.'' @ domain"] by simp
  qed
  with assms show ?thesis by (auto simp: dnsLine_def split: list.splits)
qed

lemma dnsLines_free: "list_all freeLine ls \<Longrightarrow> list_all freeLine (dnsLines inD ls)"
  by (induction ls arbitrary: inD) (simp_all add: Let_def dnsLine_free)

text \<open>Deployments: nothing is left of any field, as the sequence of rewritings has shown.\<close>

lemma imageLines_free: "freeLine line \<Longrightarrow> list_all freeLine (imageLines line)"
  using freeLine_braces [OF _ templates_solid(5) templates_braces(5)] freeLine_other [OF _ templates_solid(6)]
  by (simp add: imageLines_def imageTemplate_def pullPolicyTemplate_def hasPrefix_def yamlFieldNamespace_def)

lemma pullSecretLines_free: "freeLine line \<Longrightarrow> list_all freeLine (pullSecretLines line)"
  by (simp add: pullSecretLines_def freeLine_blank freeLine_other solid_def visible_def hasPrefix_def yamlFieldNamespace_def)

lemma envLines_free: "freeLine line \<Longrightarrow> list_all freeLine (envLines line)"
  by (simp add: envLines_def freeLine_blank freeLine_other solid_def visible_def hasPrefix_def yamlFieldNamespace_def)

lemma replicasLine_free: "freeLine line \<Longrightarrow> freeLine (replicasLine line)"
  using freeLine_braces [OF templates_one_line(2) templates_solid(2) templates_braces(2)] by (simp add: replicasLine_def)

lemma serviceAccountLine_free: "freeLine line \<Longrightarrow> freeLine (serviceAccountLine line)"
  using freeLine_braces [OF templates_one_line(3) templates_solid(3) templates_braces(3)] by (simp add: serviceAccountLine_def)

lemma resources_free:
  "freeLine ''resources:''" "freeLine (''  {{- toYaml .Values.resources | nindent '' @ formatNat n @ '' }}'')"
  by (simp_all add: freeLine_blank freeLine_other formatNat_one_line solid_def visible_def hasPrefix_def yamlFieldNamespace_def)

lemma resourceLines_free: "list_all freeLine ls \<Longrightarrow> list_all freeLine (resourceLines ls)"
proof (induction ls rule: resourceLines.induct)
  case (2 line ls)
  have "list_all freeLine (skipBlock n ls)" for n
    using 2(3) skipBlock_subset [of n ls] by (auto simp: list_all_iff)
  with 2 show ?case by (simp add: resources_free del: append.simps)
qed simp

lemma flat_free: "(\<And>line. freeLine line \<Longrightarrow> list_all freeLine (f line)) \<Longrightarrow> list_all freeLine (splitLines raw) \<Longrightarrow>
    list_all freeLine (splitLines (flatLines f raw))"
  unfolding flatLines_def by (intro joined_free) (auto simp: list_all_iff)

lemma map_free: "(\<And>line. freeLine line \<Longrightarrow> freeLine (f line)) \<Longrightarrow> list_all freeLine (splitLines raw) \<Longrightarrow>
    list_all freeLine (splitLines (mapLines f raw))"
  unfolding mapLines_def by (intro joined_free) (auto simp: list_all_iff)

lemma deploymentText_free: "list_all freeLine (splitLines (deploymentText raw))"
  unfolding deploymentText_def injectExtraEnvs_def addImagePullSecrets_def replaceServiceAccountName_def
    replaceReplicas_def replaceImageField_def replaceResources_def
  by (intro flat_free map_free joined_free resourceLines_free namespaces_free envLines_free pullSecretLines_free
      serviceAccountLine_free replicasLine_free imageLines_free)

text \<open>And the texts of the other kinds.\<close>

lemma texts_free:
  "list_all freeLine (splitLines (replaceServiceAccountMetadata (replaceNamespace raw) name))"
  "list_all freeLine (splitLines (injectConfigMapValues (replaceNamespace raw)))"
  "list_all freeLine (splitLines (replaceSubjectsServiceAccount (replaceSubjectsNamespace (replaceNamespace raw))))"
  "list_all freeLine (splitLines (replaceWebhookNamespace raw))"
  "list_all freeLine (splitLines (replaceCertificateDNSNames (replaceNamespace raw)))"
proof -
  show "list_all freeLine (splitLines (replaceServiceAccountMetadata (replaceNamespace raw) name))"
    unfolding replaceServiceAccountMetadata_def by (intro joined_free accountLines_free namespaces_free)
  show "list_all freeLine (splitLines (injectConfigMapValues (replaceNamespace raw)))"
    unfolding injectConfigMapValues_def
    using configLines_free [OF namespaces_free [of raw], of False False] directives_free(2)
    by (auto split: prod.splits intro!: joined_free)
  show "list_all freeLine (splitLines (replaceSubjectsServiceAccount (replaceSubjectsNamespace (replaceNamespace raw))))"
    unfolding subjects_namespace_redundant replaceSubjectsServiceAccount_def
    by (intro joined_free subjectsLines_free subjectNameLine_free namespaces_free)
  show "list_all freeLine (splitLines (replaceWebhookNamespace raw))"
    unfolding replaceWebhookNamespace_def by (intro map_free annotationLine_free namespaces_free)
  show "list_all freeLine (splitLines (replaceCertificateDNSNames (replaceNamespace raw)))"
    unfolding replaceCertificateDNSNames_def by (intro joined_free dnsLines_free namespaces_free)
qed

section \<open>Rendered files\<close>

lemma splitOn_at: "splitOn c (a @ c # b) = splitOn c a @ splitOn c b"
  by (induction a) (auto split: list.splits)

lemma documents_free:
  assumes "\<And>part. part \<in> set parts \<Longrightarrow> list_all freeLine (splitLines part)"
  shows "list_all freeLine (splitLines (join documentBreak parts))"
  using assms
proof (induction documentBreak parts rule: join.induct)
  case (3 x y zs)
  have "splitLines (x @ documentBreak @ rest) = splitLines x @ ''---'' # splitLines rest" for rest
    using splitOn_at [of nl x "''---'' @ nl # rest"] splitOn_at [of nl "''---''" rest]
    by (simp add: documentBreak_def)
  moreover have "freeLine ''---''"
    by (simp add: freeLine_other solid_def visible_def hasPrefix_def yamlFieldNamespace_def)
  ultimately show ?case using 3 by simp
qed simp_all

lemma collect_mem: "collect f xs = Inr ys \<Longrightarrow> y \<in> set ys \<Longrightarrow> \<exists>x \<in> set xs. f x = Inr y"
  by (induction xs arbitrary: ys) (auto split: sum.splits)

lemma wrapSum_Inr: "wrapSum t r = Inr x \<longleftrightarrow> r = Inr x"
  by (simp add: wrapSum_def split: sum.splits)

definition specialKinds :: "gvk_constants \<Rightarrow> gvk set" where
  "specialKinds G =
     {kDeployment G, kServiceAccount G, kConfigMap G, kClusterRoleBinding G, kRoleBinding G,
      kMutatingWebhook G, kValidatingWebhook G, kCertificate G}"

lemma resource_free:
  assumes "transformResource L G g r = Inr part" "g \<in> specialKinds G \<or> objNamespace L (stripLabels L r) \<noteq> []"
  shows "list_all freeLine (splitLines part)"
  using assms texts_free deploymentText_free namespaces_free
  by (auto simp: transformResource_def transformDeployment_def transformServiceAccount_def transformConfigMap_def
      transformRoleBinding_def transformWebhook_def transformCertificate_def transformGeneric_def Let_def onRaw_def
      specialKinds_def split: if_splits sum.splits)

text \<open>
  C32. No rendered template pins a namespace: in the file of a kind, whatever the kind and however many
  documents it holds, no line has a hard-coded value in a namespace field, in Deployments,
  ServiceAccounts, ConfigMaps, role bindings, webhooks and certificates always, and in resources of
  any other kind when they are namespaced. Nothing that the other rewritings inject or rewrite brings
  one back.
\<close>

theorem namespaces_templated:
  assumes "renderGroup L G g resources = Inr content"
    and "\<And>r. r \<in> set resources \<Longrightarrow> g \<in> specialKinds G \<or> objNamespace L (stripLabels L r) \<noteq> []"
    and "line \<in> set (splitLines content)" "hasPrefix (trimSpace line) ''namespace:''"
  shows "contains (trimSpace line) ''{{''"
proof -
  obtain parts where parts: "collect (\<lambda>r. wrapSum (''transforming '' @ gvkKind g @ ''/'' @ objName L r) (transformResource L G g r))
      resources = Inr parts" "content = join documentBreak parts"
    using assms(1) by (auto simp: renderGroup_def split: sum.splits)
  have "list_all freeLine (splitLines content)"
    unfolding parts(2)
  proof (rule documents_free)
    fix part assume "part \<in> set parts"
    from collect_mem [OF parts(1) this] obtain r where "r \<in> set resources" "transformResource L G g r = Inr part"
      unfolding wrapSum_Inr by blast
    with assms(2) show "list_all freeLine (splitLines part)" by (blast intro: resource_free)
  qed
  with assms(3,4) show ?thesis by (auto simp: list_all_iff freeLine_def isField_def yamlFieldNamespace_def)
qed

section \<open>Where the rewriting of the namespaces leaves the structure alone\<close>

lemma indentOf_ns [simp]: "indentOf (namespaceLine line) = indentOf line"
  by (simp add: namespaceLine_def indentOf_template templates_solid)

lemma ns_trim:
  assumes "\<not> hasPrefix x ''namespace:''"
  shows "trimSpace (namespaceLine line) = x \<longleftrightarrow> trimSpace line = x"
  using assms
  by (auto simp: namespaceLine_def trimSpace_template templates_solid isField_def yamlFieldNamespace_def)
    (simp_all add: tplReleaseNamespace_def hasPrefix_def)

lemma ns_prefix:
  assumes "\<not> prefix p ''namespace:''" "\<not> prefix ''namespace:'' p"
  shows "hasPrefix (trimSpace (namespaceLine line)) p \<longleftrightarrow> hasPrefix (trimSpace line) p"
proof (cases "isField yamlFieldNamespace line")
  case True
  then have line: "prefix ''namespace:'' (trimSpace line)" by (simp add: isField_def hasPrefix_def yamlFieldNamespace_def)
  have tpl: "prefix ''namespace:'' tplReleaseNamespace" by (simp add: tplReleaseNamespace_def)
  have "\<not> prefix p t" if "prefix ''namespace:'' t" for t
    using assms prefix_same_cases [OF _ that] by blast
  with line tpl True show ?thesis
    by (simp add: namespaceLine_def trimSpace_template templates_solid hasPrefix_def)
qed (simp add: namespaceLine_def)

lemma ns_blank [simp]: "trimSpace (namespaceLine line) = [] \<longleftrightarrow> trimSpace line = []"
  by (rule ns_trim) (simp add: hasPrefix_def)

lemma blank_start: "hasPrefix line [sp] \<longleftrightarrow> indentOf line \<noteq> []"
  by (cases line) (simp_all add: hasPrefix_def indentOf_takeWhile)

lemma topLevel_ns:
  assumes "\<not> hasPrefix line [tab]"
  shows "topLevel (namespaceLine line) \<longleftrightarrow> topLevel line"
proof -
  have "\<not> hasPrefix (namespaceLine line) [tab]"
  proof (cases "isField yamlFieldNamespace line")
    case True
    have "\<not> prefix [tab] (i @ tplReleaseNamespace)" if "set i \<subseteq> {sp}" for i
      using that by (cases i) (auto simp: tplReleaseNamespace_def)
    with True show ?thesis by (simp add: namespaceLine_def hasPrefix_def set_indentOf)
  qed (use assms in \<open>simp add: namespaceLine_def\<close>)
  with assms show ?thesis by (simp add: topLevel_def blank_start)
qed

section \<open>Role bindings\<close>

text \<open>The loop over the subjects, with the lines before, in and after the section.\<close>

lemma subjectsLines_outside:
  assumes "\<And>line. line \<in> set ls \<Longrightarrow> trimSpace line \<noteq> yamlFieldSubjects"
  shows "subjectsLines f False (ls @ rest) = ls @ subjectsLines f False rest"
  using assms by (induction ls) simp_all

lemma subjectsLines_inside:
  assumes "\<And>line. line \<in> set ls \<Longrightarrow> trimSpace line \<noteq> yamlFieldSubjects \<and> (topLevel line \<longrightarrow> hasPrefix (trimSpace line) ''-'')"
  shows "subjectsLines f True (ls @ rest) = map f ls @ subjectsLines f True rest"
  using assms by (induction ls) (simp_all add: Let_def)

lemma subjectsLines_after:
  assumes "post = [] \<or> topLevel (hd post) \<and> \<not> hasPrefix (trimSpace (hd post)) ''-''"
    and "\<And>line. line \<in> set post \<Longrightarrow> trimSpace line \<noteq> yamlFieldSubjects"
  shows "subjectsLines f True post = post"
proof (cases post)
  case (Cons p ps)
  then show ?thesis using assms subjectsLines_outside [of ps f "[]"] by (simp add: Let_def)
qed simp

text \<open>One subject line: its namespace, then its name.\<close>

definition subjectLine :: "string \<Rightarrow> string" where
  "subjectLine line =
     (if isField ''namespace:'' line then indentOf line @ tplReleaseNamespace
      else if isField ''name:'' line then indentOf line @ ''name: '' @ tplServiceAccountName
      else line)"

lemma subjectLine_stages: "subjectNameLine (namespaceLine line) = subjectLine line"
proof (cases "isField yamlFieldNamespace line")
  case True
  have "\<not> isField yamlFieldName (indentOf line @ tplReleaseNamespace)"
    by (rule contains_braces [OF templates_solid(1) templates_braces(1)])
  with True show ?thesis
    by (simp add: subjectLine_def subjectNameLine_def namespaceLine_def yamlFieldNamespace_def)
qed (simp add: subjectLine_def subjectNameLine_def namespaceLine_def yamlFieldName_def yamlFieldNamespace_def)

text \<open>
  C33. A role binding as a whole: in a manifest with one block of subjects, every subject gets the
  namespace of the release and the service account of the chart, whatever its kind; outside the block
  only namespaces change, so the name of the binding and of its role stay, and so does every other
  line.
\<close>

theorem binding_templated:
  assumes "marshalResource L obj = Inr raw" "splitLines raw = pre @ key # entries @ post" "trimSpace key = ''subjects:''"
    and "\<And>line. line \<in> set (pre @ entries @ post) \<Longrightarrow> trimSpace line \<noteq> ''subjects:'' \<and> \<not> hasPrefix line [tab]"
    and "\<And>line. line \<in> set entries \<Longrightarrow> topLevel line \<longrightarrow> hasPrefix (trimSpace line) ''-''"
    and "post = [] \<or> topLevel (hd post) \<and> \<not> hasPrefix (trimSpace (hd post)) ''-''"
  shows "transformRoleBinding L obj =
    Inr (joinLines (map namespaceLine pre @ key # map subjectLine entries @ map namespaceLine post))"
proof -
  have key: "namespaceLine key = key" using assms(3) by (simp add: namespaceLine_def isField_def hasPrefix_def yamlFieldNamespace_def)
  have trim: "trimSpace (namespaceLine line) \<noteq> yamlFieldSubjects" if "line \<in> set (pre @ entries @ post)" for line
    using assms(4) [OF that] ns_trim [of "''subjects:''" line] by (simp add: yamlFieldSubjects_def hasPrefix_def)
  have dash: "hasPrefix (trimSpace (namespaceLine line)) ''-'' \<longleftrightarrow> hasPrefix (trimSpace line) ''-''" for line
    by (rule ns_prefix) simp_all
  have level: "topLevel (namespaceLine line) \<longleftrightarrow> topLevel line" if "line \<in> set (pre @ entries @ post)" for line
    using topLevel_ns assms(4) [OF that] by simp
  let ?f = subjectNameLine and ?ns = "map namespaceLine"
  have "subjectsLines ?f False (?ns pre @ key # ?ns entries @ ?ns post) = ?ns pre @ key # subjectsLines ?f True (?ns entries @ ?ns post)"
    using trim assms(3) by (subst subjectsLines_outside) (auto simp: yamlFieldSubjects_def)
  also have "subjectsLines ?f True (?ns entries @ ?ns post) = map ?f (?ns entries) @ subjectsLines ?f True (?ns post)"
    using trim level dash assms(5) by (intro subjectsLines_inside) auto
  also have "subjectsLines ?f True (?ns post) = ?ns post"
  proof (rule subjectsLines_after)
    show "?ns post = [] \<or> topLevel (hd (?ns post)) \<and> \<not> hasPrefix (trimSpace (hd (?ns post))) ''-''"
      using assms(6) level dash by (cases post) auto
  qed (use trim in auto)
  finally have "replaceSubjectsServiceAccount (replaceNamespace raw) =
      joinLines (?ns pre @ key # map subjectLine entries @ ?ns post)"
    by (simp add: replaceSubjectsServiceAccount_def replaceNamespace_def ns.lines_of assms(2) key subjectLine_stages o_def)
  with assms(1) show ?thesis by (simp add: transformRoleBinding_def onRaw_def subjects_namespace_redundant)
qed

section \<open>Service accounts\<close>

lemma accountLines_outside:
  assumes "\<And>line. line \<in> set ls \<Longrightarrow> trimSpace line \<noteq> yamlFieldMetadata"
  shows "accountLines name False (ls @ rest) = ls @ accountLines name False rest"
  using assms by (induction ls) (simp_all add: Let_def)

lemma metadata_no_name [simp]: "\<not> hasPrefix yamlFieldMetadata yamlFieldName"
  by (simp add: yamlFieldMetadata_def yamlFieldName_def hasPrefix_def)

text \<open>The name of the account, and the block of annotations that comes with it.\<close>

definition accountBlock :: "string \<Rightarrow> string list" where
  "accountBlock indent =
     [indent @ ''name: '' @ tplServiceAccountName,
      indent @ ''{{- with .Values.serviceAccount.annotations }}'',
      indent @ ''annotations:'',
      indent @ ''  {{- toYaml . | nindent '' @ formatNat (length indent + 2) @ '' }}'',
      indent @ ''{{- end }}'']"

text \<open>A line of the metadata: one that names the account, or another.\<close>

definition accountLine :: "string \<Rightarrow> string \<Rightarrow> string list" where
  "accountLine name line =
     (if hasPrefix (trimSpace line) ''name:'' \<and> contains (trimSpace line) name
      then accountBlock (indentOf line) else [namespaceLine line])"

lemma nameLine_ns: "hasPrefix (trimSpace line) ''name:'' \<Longrightarrow> namespaceLine line = line"
  by (auto simp: namespaceLine_def isField_def hasPrefix_def yamlFieldNamespace_def prefix_def)

lemma accountLines_inside:
  assumes "\<And>line. line \<in> set ls \<Longrightarrow> \<not> topLevel line \<and> \<not> hasPrefix line [tab]"
  shows "accountLines name True (map namespaceLine ls @ rest) = concat (map (accountLine name) ls) @ accountLines name True rest"
  using assms
proof (induction ls)
  case (Cons line ls)
  have level: "\<not> topLevel (namespaceLine line)" using Cons.prems [of line] topLevel_ns [of line] by simp
  have prefix: "hasPrefix (trimSpace (namespaceLine line)) ''name:'' \<longleftrightarrow> hasPrefix (trimSpace line) ''name:''"
    by (rule ns_prefix) simp_all
  have IH: "accountLines name True (map namespaceLine ls @ rest) = concat (map (accountLine name) ls) @ accountLines name True rest"
    using Cons by simp
  show ?case
  proof (cases "hasPrefix (trimSpace line) ''name:''")
    case True
    with IH level show ?thesis
      by (simp add: Let_def accountLine_def [of name line] accountBlock_def yamlFieldName_def nameLine_ns)
  next
    case False
    with IH level prefix show ?thesis by (simp add: Let_def accountLine_def [of name line] yamlFieldName_def)
  qed
qed simp

text \<open>
  C34. A service account as a whole: in the block of metadata every line that begins with \<^verbatim>\<open>name:\<close> and
  contains the name of the account is replaced by the name the chart gives the account, followed by
  the annotations of the values; every other line of the document is kept, but for its namespace
  fields. So a label with the key \<^verbatim>\<open>name\<close> that holds the account's name is replaced too, and annotations
  that the manifest has already are kept beside the injected ones. (There is no other line
  \<^verbatim>\<open>metadata:\<close> outside the block, and no line from there on begins with a tab.)
\<close>

theorem account_templated:
  assumes "marshalResource L obj = Inr raw" "splitLines raw = pre @ meta # body @ post"
    and "trimSpace meta = ''metadata:''" "\<And>line. line \<in> set (pre @ post) \<Longrightarrow> trimSpace line \<noteq> ''metadata:''"
    and "\<And>line. line \<in> set (body @ post) \<Longrightarrow> \<not> hasPrefix line [tab]"
    and "\<And>line. line \<in> set body \<Longrightarrow> \<not> topLevel line" "post = [] \<or> topLevel (hd post)"
  shows "transformServiceAccount L obj =
    Inr (joinLines (map namespaceLine pre @ meta #
      concat (map (\<lambda>line.
        if hasPrefix (trimSpace line) ''name:'' \<and> contains (trimSpace line) (objName L obj)
        then accountBlock (indentOf line) else [namespaceLine line]) body) @ map namespaceLine post))"
proof -
  let ?ns = "map namespaceLine" and ?acc = "accountLines (objName L obj)"
  let ?body = "concat (map (accountLine (objName L obj)) body)"
  have meta: "namespaceLine meta = meta"
    using assms(3) by (simp add: namespaceLine_def isField_def hasPrefix_def yamlFieldNamespace_def)
  have trim: "trimSpace (namespaceLine line) \<noteq> yamlFieldMetadata" if "line \<in> set (pre @ post)" for line
    using assms(4) [OF that] ns_trim [of "''metadata:''" line] by (simp add: yamlFieldMetadata_def hasPrefix_def)
  have "?acc False (?ns pre @ meta # ?ns body @ ?ns post) = ?ns pre @ meta # ?acc True (?ns body @ ?ns post)"
    using trim assms(3) by (subst accountLines_outside) (auto simp: Let_def yamlFieldMetadata_def yamlFieldName_def hasPrefix_def)
  also have "?acc True (?ns body @ ?ns post) = ?body @ ?acc True (?ns post)"
    using assms(5,6) by (intro accountLines_inside) simp
  also have "?acc True (?ns post) = ?ns post"
  proof (cases post)
    case (Cons p ps)
    have "?acc False (?ns ps @ []) = ?ns ps @ ?acc False []" using trim Cons by (intro accountLines_outside) auto
    moreover have "topLevel (namespaceLine p)" using assms(5,7) Cons topLevel_ns [of p] by auto
    ultimately show ?thesis using trim [of p] Cons by (simp add: Let_def)
  qed simp
  finally have "replaceServiceAccountMetadata (replaceNamespace raw) (objName L obj) =
      joinLines (?ns pre @ meta # ?body @ ?ns post)"
    by (simp add: replaceServiceAccountMetadata_def replaceNamespace_def ns.lines_of assms(2) meta)
  with assms(1) show ?thesis by (simp add: transformServiceAccount_def onRaw_def accountLine_def [abs_def])
qed

section \<open>Certificates and webhooks\<close>

lemma dnsLines_outside:
  assumes "\<And>line. line \<in> set ls \<Longrightarrow> trimSpace line \<noteq> ''dnsNames:''"
  shows "dnsLines False (ls @ rest) = ls @ dnsLines False rest"
  using assms by (induction ls) (simp_all add: Let_def)

lemma splitN_first:
  assumes "c \<notin> set a"
  shows "splitN c (Suc (Suc n)) (a @ c # s) = a # splitN c (Suc n) s"
proof -
  have "takeWhile (\<lambda>x. x \<noteq> c) (a @ c # s) = a" "dropWhile (\<lambda>x. x \<noteq> c) (a @ c # s) = c # s"
    using assms by (auto simp: takeWhile_append dropWhile_append)
  then show ?thesis by simp
qed

lemma splitN_parts:
  "c \<notin> set a \<Longrightarrow> splitN c 2 (a @ c # s) = [a, s]"
  "c \<notin> set a \<Longrightarrow> c \<notin> set b \<Longrightarrow> splitN c 3 (a @ c # b @ c # s) = [a, b, s]"
  by (simp_all only: eval_nat_numeral BitM.simps One_nat_def splitN_first splitN.simps(2) not_False_eq_True)

definition dnsName :: "string \<Rightarrow> string \<times> string \<times> string \<Rightarrow> string" where
  "dnsName indent n = (case n of (svc, nsp, zone) \<Rightarrow> indent @ ''- '' @ svc @ ''.'' @ nsp @ ''.'' @ zone)"

text \<open>A name of a service: two labels, and a domain that begins with \<^verbatim>\<open>svc\<close>.\<close>

definition serviceName :: "string \<times> string \<times> string \<Rightarrow> bool" where
  "serviceName n \<longleftrightarrow> (case n of (svc, nsp, zone) \<Rightarrow>
     CHR ''.'' \<notin> set svc \<and> CHR ''.'' \<notin> set nsp \<and> hasPrefix zone ''svc'' \<and> visible (last zone))"

lemma dnsLines_names:
  assumes "set indent \<subseteq> {sp}" "\<And>n. n \<in> set names \<Longrightarrow> serviceName n"
  shows "dnsLines True (map (dnsName indent) names @ rest) =
    map (\<lambda>(svc, _, zone). dnsName indent (svc, ''{{ .Values.namespace }}'', zone)) names @ dnsLines True rest"
  using assms(2)
proof (induction names)
  case (Cons n names)
  obtain svc nsp zone where n: "n = (svc, nsp, zone)" by (cases n)
  let ?entry = "svc @ CHR ''.'' # nsp @ CHR ''.'' # zone"
  have parts: "CHR ''.'' \<notin> set svc" "CHR ''.'' \<notin> set nsp" "hasPrefix zone ''svc''" "visible (last zone)"
    using Cons.prems [of n] by (simp_all add: serviceName_def n)
  then obtain d where d: "zone = ''svc'' @ d" by (auto simp: hasPrefix_def prefix_def)
  have "solid (''- '' @ ?entry)" using parts(4) d by (simp add: solid_def visible_def)
  then have trim: "trimSpace (dnsName indent n) = ''- '' @ ?entry" "indentOf (dnsName indent n) = indent"
    using assms(1) solid_hd [of "''- '' @ ?entry"] by (simp_all add: dnsName_def n)
  have "contains (''- '' @ ?entry) ''.svc''"
    using contains_append [of "''- '' @ svc @ CHR ''.'' # nsp" "''.svc''" d] by (simp add: d)
  then have "dnsLines True (dnsName indent n # ls) = dnsLine (dnsName indent n) # dnsLines True ls" for ls
    by (simp add: Let_def trim hasPrefix_def)
  moreover have "dnsLine (dnsName indent n) = dnsName indent (svc, ''{{ .Values.namespace }}'', zone)"
    by (simp add: dnsLine_def trim trimPrefix_def hasPrefix_def splitN_parts(2) [OF parts(1,2)]) (simp add: dnsName_def)
  ultimately show ?case using Cons by (simp add: n)
qed simp

text \<open>
  C35. A certificate as a whole: in every DNS name of a service the label of the namespace becomes the
  namespace of the values, the service and the domain stay; every other line is kept but for
  namespaces. The label has no fallback to the namespace of the release, unlike every namespace field.
\<close>

theorem certificate_templated:
  assumes "marshalResource L obj = Inr raw" "splitLines raw = pre @ key # map (dnsName indent) names @ post"
    and "trimSpace key = ''dnsNames:''" "\<And>line. line \<in> set (pre @ post) \<Longrightarrow> trimSpace line \<noteq> ''dnsNames:''"
    and "set indent \<subseteq> {sp}" "\<And>n. n \<in> set names \<Longrightarrow> serviceName n"
    and "post = [] \<or> trimSpace (hd post) \<noteq> [] \<and> \<not> hasPrefix (trimSpace (hd post)) ''-''"
  shows "transformCertificate L obj =
    Inr (joinLines (map namespaceLine pre @ key #
      map (\<lambda>(svc, _, zone). indent @ ''- '' @ svc @ ''.{{ .Values.namespace }}.'' @ zone) names @ map namespaceLine post))"
proof -
  let ?ns = "map namespaceLine" and ?names = "map (dnsName indent) names"
  have key: "namespaceLine key = key" using assms(3) by (simp add: namespaceLine_def isField_def hasPrefix_def yamlFieldNamespace_def)
  have name: "namespaceLine (dnsName indent n) = dnsName indent n" if "n \<in> set names" for n
  proof -
    obtain svc nsp zone where n: "n = (svc, nsp, zone)" by (cases n)
    have "zone \<noteq> []" "visible (last zone)" using assms(6) [OF that] by (auto simp: n serviceName_def hasPrefix_def)
    then have "solid (''- '' @ svc @ ''.'' @ nsp @ ''.'' @ zone)" by (simp add: solid_def visible_def)
    then have "trimSpace (dnsName indent n) = ''- '' @ svc @ ''.'' @ nsp @ ''.'' @ zone"
      using assms(5) by (simp add: dnsName_def n)
    then show ?thesis by (simp add: namespaceLine_def isField_def hasPrefix_def yamlFieldNamespace_def)
  qed
  have trim: "trimSpace (namespaceLine line) \<noteq> ''dnsNames:''" if "line \<in> set (pre @ post)" for line
    using assms(4) [OF that] ns_trim [of "''dnsNames:''" line] by (simp add: hasPrefix_def)
  have "dnsLines False (?ns pre @ key # ?names @ ?ns post) = ?ns pre @ key # dnsLines True (?names @ ?ns post)"
    using trim assms(3) by (subst dnsLines_outside) (auto simp: Let_def)
  also have "dnsLines True (?names @ ?ns post) =
      map (\<lambda>(svc, _, zone). dnsName indent (svc, ''{{ .Values.namespace }}'', zone)) names @ dnsLines True (?ns post)"
    using assms(5,6) by (rule dnsLines_names)
  also have "dnsLines True (?ns post) = ?ns post"
  proof (cases post)
    case (Cons p ps)
    have "dnsLines False (?ns ps @ []) = ?ns ps @ dnsLines False []" using trim Cons by (intro dnsLines_outside) auto
    moreover have "\<not> hasPrefix (trimSpace (namespaceLine p)) ''-''" "trimSpace (namespaceLine p) \<noteq> []"
      using assms(7) Cons ns_prefix [of "''-''" p] by simp_all
    ultimately show ?thesis using trim [of p] Cons by (simp add: Let_def)
  qed simp
  finally have "replaceCertificateDNSNames (replaceNamespace raw) = joinLines (?ns pre @ key #
      map (\<lambda>(svc, _, zone). dnsName indent (svc, ''{{ .Values.namespace }}'', zone)) names @ ?ns post)"
    using name by (simp add: replaceCertificateDNSNames_def replaceNamespace_def ns.lines_of assms(2) key o_def cong: map_cong)
  with assms(1) show ?thesis by (simp add: transformCertificate_def onRaw_def dnsName_def)
qed

lemma annotation_solid: "solid annotationCertManagerInjectCAFrom" "CHR '':'' \<notin> set annotationCertManagerInjectCAFrom"
  by (simp_all add: annotationCertManagerInjectCAFrom_def solid_def visible_def)

lemma annotation_elsewhere:
  assumes "\<not> contains line annotationCertManagerInjectCAFrom"
  shows "\<not> contains (namespaceLine line) annotationCertManagerInjectCAFrom"
proof -
  have "\<not> sublist annotationCertManagerInjectCAFrom (i @ tplReleaseNamespace)" if "set i \<subseteq> {sp}" for i
  proof -
    have "\<not> sublist annotationCertManagerInjectCAFrom tplReleaseNamespace"
      by (simp add: sublist_code annotationCertManagerInjectCAFrom_def tplReleaseNamespace_def)
    then show ?thesis using that
      by (induction i) (simp_all add: sublist_Cons_right annotationCertManagerInjectCAFrom_def)
  qed
  with assms show ?thesis by (simp add: namespaceLine_def contains_def set_indentOf)
qed

text \<open>
  A webhook configuration as a whole: the namespace in the annotation that names its certificate
  becomes the namespace of the values, and the name of the certificate stays; every other line is kept
  but for namespaces.
\<close>

lemma webhook_templated:
  assumes "marshalResource L obj = Inr raw"
    and "splitLines raw = pre @ (indent @ ''cert-manager.io/inject-ca-from: '' @ nsp @ ''/'' @ name) # post"
    and "set indent \<subseteq> {sp}" "CHR ''/'' \<notin> set nsp" "solid (nsp @ ''/'' @ name)"
    and "\<And>line. line \<in> set (pre @ post) \<Longrightarrow> \<not> contains line ''cert-manager.io/inject-ca-from''"
  shows "transformWebhook L obj =
    Inr (joinLines (map namespaceLine pre @
      (indent @ ''cert-manager.io/inject-ca-from: {{ .Values.namespace }}/'' @ name) # map namespaceLine post))"
proof -
  let ?ann = annotationCertManagerInjectCAFrom
  have ann: "?ann = ''cert-manager.io/inject-ca-from''" by (rule annotationCertManagerInjectCAFrom_def)
  let ?line = "indent @ ?ann @ '': '' @ nsp @ ''/'' @ name"
  have "CHR '':'' \<notin> set (indent @ ?ann)" using assms(3) annotation_solid(2) by auto
  then have cut: "splitN (CHR '':'') 2 ?line = [indent @ ?ann, sp # nsp @ ''/'' @ name]"
    using splitN_parts(1) [of "CHR '':''" "indent @ ?ann" "sp # nsp @ ''/'' @ name"] by simp
  have "trimSpace (sp # nsp @ ''/'' @ name) = nsp @ ''/'' @ name" "trimSpace (indent @ ?ann) = ?ann"
    using assms(3,5) annotation_solid(1) by (simp_all add: trimSpace_blank)
  moreover have "indentOf ?line = indent"
    using assms(3) solid_hd [OF annotation_solid(1)] by (intro indentOf_append) (simp_all add: ann)
  moreover have "contains ?line ?ann" using contains_append [of indent ?ann] by simp
  moreover have "splitN (CHR ''/'') 2 (nsp @ ''/'' @ name) = [nsp, name]"
    using splitN_parts(1) [OF assms(4), of name] by simp
  ultimately have line: "annotationLine ?line = indent @ ?ann @ '': {{ .Values.namespace }}/'' @ name"
    unfolding annotationLine_def cut by simp
  have "\<not> hasPrefix (trimSpace ?line) ''namespace:''"
  proof -
    have "solid (?ann @ '': '' @ nsp @ ''/'' @ name)" using assms(5) annotation_solid(1) by (simp add: solid_def ann)
    then show ?thesis using assms(3) by (simp add: hasPrefix_def ann)
  qed
  then have kept: "namespaceLine ?line = ?line" by (simp add: namespaceLine_def isField_def yamlFieldNamespace_def)
  have "annotationLine (namespaceLine l) = namespaceLine l" if "l \<in> set (pre @ post)" for l
    using annotation_elsewhere [of l] assms(6) [OF that] by (simp add: annotationLine_def ann)
  then have "map annotationLine (map namespaceLine (splitLines raw)) =
      map namespaceLine pre @ (indent @ ?ann @ '': {{ .Values.namespace }}/'' @ name) # map namespaceLine post"
    using line kept assms(2) by (simp add: ann)
  then have "replaceWebhookNamespace raw =
      joinLines (map namespaceLine pre @ (indent @ ?ann @ '': {{ .Values.namespace }}/'' @ name) # map namespaceLine post)"
    by (simp only: replaceWebhookNamespace_def mapLines_def [of annotationLine] replaceNamespace_def ns.lines_of)
  with assms(1) show ?thesis by (simp add: transformWebhook_def onRaw_def ann)
qed

section \<open>ConfigMaps\<close>

lemma ns_indented: "hasPrefix (namespaceLine line) [sp, sp] \<longleftrightarrow> hasPrefix line [sp, sp]"
proof -
  have two: "hasPrefix l [sp, sp] \<longleftrightarrow> 2 \<le> length (indentOf l)" for l
    by (cases l rule: list.exhaust [case_product list.exhaust [of "tl l"]])
      (auto simp: hasPrefix_def indentOf_takeWhile prefix_Cons numeral_2_eq_2 Suc_le_length_iff neq_Nil_conv Cons_eq_append_conv)
  show ?thesis by (simp only: two indentOf_ns)
qed

text \<open>
  C36. A ConfigMap as a whole: where there is one data section its entries are dropped and the
  directives that read the data from the values stand in its place, at its indentation; without a data
  section they are appended. Every other line is kept but for namespaces.
\<close>

theorem config_map_templated:
  assumes "marshalResource L obj = Inr raw"
    and "\<And>line. line \<in> set (pre @ entries @ post) \<Longrightarrow> trimSpace line \<noteq> ''data:''"
    and "\<And>line. line \<in> set entries \<Longrightarrow> trimSpace line = [] \<or> hasPrefix line [sp, sp]"
    and "post = [] \<or> trimSpace (hd post) \<noteq> [] \<and> \<not> hasPrefix (hd post) [sp, sp]"
    and "trimSpace key = ''data:''"
  shows "(splitLines raw = pre @ key # entries @ post \<longrightarrow> transformConfigMap L obj =
       Inr (joinLines (map namespaceLine pre @ dataDirectives (indentOf key) @ map namespaceLine post))) \<and>
    (splitLines raw = pre \<longrightarrow> transformConfigMap L obj = Inr (joinLines (map namespaceLine pre @ dataDirectives [])))"
proof -
  let ?ns = "map namespaceLine"
  have key: "namespaceLine key = key" using assms(5) by (simp add: namespaceLine_def isField_def hasPrefix_def yamlFieldNamespace_def)
  have trim: "trimSpace (namespaceLine line) \<noteq> yamlFieldData" if "line \<in> set (pre @ entries @ post)" for line
    using assms(2) [OF that] ns_trim [of "''data:''" line] by (simp add: yamlFieldData_def hasPrefix_def)
  have kept: "configLines False h (?ns ls @ rest) = (case configLines False h rest of (r, h') \<Rightarrow> (?ns ls @ r, h'))"
    if "set ls \<subseteq> set (pre @ entries @ post)" for h ls rest
    using that trim by (intro configLines_kept) auto
  have "configLines True True (?ns entries @ ?ns post) = configLines True True (?ns post)"
  proof (rule configLines_dropped)
    fix line assume "line \<in> set (?ns entries)"
    then obtain x where "line = namespaceLine x" "x \<in> set entries" by auto
    then show "trimSpace line \<noteq> yamlFieldData \<and> (trimSpace line = [] \<or> hasPrefix line [sp, sp])"
      using trim [of x] assms(3) [of x] by (simp add: ns_indented)
  qed
  also have "\<dots> = (?ns post, True)"
  proof (cases post)
    case (Cons p ps)
    then have "configLines False True (?ns ps) = (?ns ps, True)" using kept [of ps True "[]"] by auto
    with Cons trim [of p] assms(4) show ?thesis by (simp add: Let_def ns_indented)
  qed simp
  finally have "configLines False False (?ns pre @ key # ?ns entries @ ?ns post) =
      (?ns pre @ dataDirectives (indentOf key) @ ?ns post, True)"
    using kept [of pre False "key # ?ns entries @ ?ns post"] assms(5) by (simp add: Let_def yamlFieldData_def)
  moreover have "configLines False False (?ns pre) = (?ns pre, False)" using kept [of pre False "[]"] by simp
  ultimately show ?thesis
    using assms(1) by (auto simp: transformConfigMap_def onRaw_def injectConfigMapValues_def replaceNamespace_def ns.lines_of key)
qed

section \<open>Small manifests\<close>

definition namedLib :: "(gvk \<times> string) objlib" where
  "namedLib = demoLib\<lparr>objName := \<lambda>_. ''manager''\<rparr>"

lemma named_marshal: "solid raw \<Longrightarrow> marshalResource namedLib (g, raw) = Inr raw"
  by (simp add: marshalResource_def namedLib_def demoLib_def)

lemma list_all_mem: "list_all P xs \<Longrightarrow> x \<in> set xs \<Longrightarrow> P x"
  by (simp add: list_all_iff)

lemma splitLines_text: "ls \<noteq> [] \<Longrightarrow> list_all (\<lambda>l. nl \<notin> set l) ls \<Longrightarrow> splitLines (joinLines ls) = ls"
  by (rule splitLines_joined) (simp_all add: oneLine_def list_all_iff)

lemma binding_templated_witness:
  "transformRoleBinding namedLib (demoDeploymentGVK,
     joinLines [''kind: RoleBinding'', ''roleRef:'', ''  name: leader'', ''subjects:'', ''- kind: Group'', ''  name: admins'', ''  namespace: system'']) =
   Inr (joinLines [''kind: RoleBinding'', ''roleRef:'', ''  name: leader'', ''subjects:'', ''- kind: Group'',
     ''  name: '' @ tplServiceAccountName, ''  '' @ tplReleaseNamespace])"
proof -
  let ?pre = "[''kind: RoleBinding'', ''roleRef:'', ''  name: leader'']"
  let ?entries = "[''- kind: Group'', ''  name: admins'', ''  namespace: system'']"
  let ?raw = "joinLines [''kind: RoleBinding'', ''roleRef:'', ''  name: leader'', ''subjects:'', ''- kind: Group'', ''  name: admins'', ''  namespace: system'']"
  have raw: "marshalResource namedLib (demoDeploymentGVK, ?raw) = Inr ?raw" by code_simp
  have lines: "splitLines ?raw = ?pre @ ''subjects:'' # ?entries @ []" by code_simp
  have key: "trimSpace ''subjects:'' = ''subjects:''" by code_simp
  have plain: "list_all (\<lambda>line. trimSpace line \<noteq> ''subjects:'' \<and> \<not> hasPrefix line [tab]) (?pre @ ?entries @ [])" by code_simp
  have inside: "list_all (\<lambda>line. topLevel line \<longrightarrow> hasPrefix (trimSpace line) ''-'') ?entries" by code_simp
  have mapped: "map namespaceLine ?pre = ?pre"
    "map subjectLine ?entries = [''- kind: Group'', ''  name: '' @ tplServiceAccountName, ''  '' @ tplReleaseNamespace]"
    by code_simp+
  have "transformRoleBinding namedLib (demoDeploymentGVK, ?raw) =
      Inr (joinLines (map namespaceLine ?pre @ ''subjects:'' # map subjectLine ?entries @ map namespaceLine []))"
    by (rule binding_templated [OF raw lines key list_all_mem [OF plain] list_all_mem [OF inside]]) simp_all
  then show ?thesis unfolding mapped by (simp only: list.map(1) append.simps)
qed

lemma namespaces_templated_witness:
  "\<exists>content. renderGroup namedLib demoKinds demoDeploymentGVK
       [(demoDeploymentGVK, joinLines [''kind: A'', ''  namespace: system''])] = Inr content \<and>
     contains (trimSpace (''  '' @ tplReleaseNamespace)) ''{{''"
proof -
  let ?rs = "[(demoDeploymentGVK, joinLines [''kind: A'', ''  namespace: system''])]"
  let ?content = "joinLines [''kind: A'', ''  '' @ tplReleaseNamespace]"
  have rendered: "renderGroup namedLib demoKinds demoDeploymentGVK ?rs = Inr ?content" by code_simp
  have kind: "demoDeploymentGVK \<in> specialKinds demoKinds" by (simp add: specialKinds_def demoKinds_def Let_def)
  have line: "''  '' @ tplReleaseNamespace \<in> set (splitLines ?content)" by code_simp
  have field: "hasPrefix (trimSpace (''  '' @ tplReleaseNamespace)) ''namespace:''" by code_simp
  from namespaces_templated [OF rendered disjI1 [OF kind] line field] rendered show ?thesis by blast
qed

lemma account_templated_witness:
  "transformServiceAccount namedLib (demoDeploymentGVK,
     joinLines [''kind: ServiceAccount'', ''metadata:'', ''  labels:'', ''    name: manager'', ''  name: manager'', ''  namespace: system'']) =
   Inr (joinLines ([''kind: ServiceAccount'', ''metadata:'', ''  labels:''] @ accountBlock ''    '' @ accountBlock ''  '' @
     [''  '' @ tplReleaseNamespace]))"
proof -
  let ?body = "[''  labels:'', ''    name: manager'', ''  name: manager'', ''  namespace: system'']"
  let ?raw = "joinLines [''kind: ServiceAccount'', ''metadata:'', ''  labels:'', ''    name: manager'', ''  name: manager'', ''  namespace: system'']"
  have raw: "marshalResource namedLib (demoDeploymentGVK, ?raw) = Inr ?raw" by code_simp
  have lines: "splitLines ?raw = [''kind: ServiceAccount''] @ ''metadata:'' # ?body @ []" by code_simp
  have meta: "trimSpace ''metadata:'' = ''metadata:''" by code_simp
  have outside: "list_all (\<lambda>line. trimSpace line \<noteq> ''metadata:'') ([''kind: ServiceAccount''] @ [])" by code_simp
  have blanks: "list_all (\<lambda>line. \<not> hasPrefix line [tab]) (?body @ [])" by code_simp
  have inside: "list_all (\<lambda>line. \<not> topLevel line) ?body" by code_simp
  have mapped: "map namespaceLine [''kind: ServiceAccount''] = [''kind: ServiceAccount'']"
    "concat (map (\<lambda>line. if hasPrefix (trimSpace line) ''name:'' \<and>
         contains (trimSpace line) (objName namedLib (demoDeploymentGVK, ?raw))
       then accountBlock (indentOf line) else [namespaceLine line]) ?body) =
     [''  labels:''] @ accountBlock ''    '' @ accountBlock ''  '' @ [''  '' @ tplReleaseNamespace]"
    by code_simp+
  note whole = account_templated [OF raw lines meta list_all_mem [OF outside] list_all_mem [OF blanks]
    list_all_mem [OF inside] disjI1 [OF refl]]
  show ?thesis using whole unfolding mapped by (simp only: append.simps list.map append_Nil2)
qed

lemma certificate_templated_witness:
  "transformCertificate namedLib (demoDeploymentGVK, joinLines [''dnsNames:'', ''- hook.system.svc'', ''- hook.system.svc.cluster.local'', ''issuerRef:'']) =
   Inr (joinLines [''dnsNames:'', ''- hook.{{ .Values.namespace }}.svc'', ''- hook.{{ .Values.namespace }}.svc.cluster.local'', ''issuerRef:''])"
proof -
  let ?raw = "joinLines [''dnsNames:'', ''- hook.system.svc'', ''- hook.system.svc.cluster.local'', ''issuerRef:'']"
  let ?names = "[(''hook'', ''system'', ''svc''), (''hook'', ''system'', ''svc.cluster.local'')]"
  have raw: "marshalResource namedLib (demoDeploymentGVK, ?raw) = Inr ?raw" by code_simp
  have lines: "splitLines ?raw = [] @ ''dnsNames:'' # map (dnsName []) ?names @ [''issuerRef:'']" by code_simp
  have key: "trimSpace ''dnsNames:'' = ''dnsNames:''" by code_simp
  have outside: "list_all (\<lambda>line. trimSpace line \<noteq> ''dnsNames:'') ([] @ [''issuerRef:''])" by code_simp
  have names: "list_all serviceName ?names" by code_simp
  have next_line: "trimSpace (hd [''issuerRef:'']) \<noteq> [] \<and> \<not> hasPrefix (trimSpace (hd [''issuerRef:''])) ''-''" by code_simp
  have "set [] \<subseteq> {sp}" by simp
  note whole = certificate_templated [OF raw lines key list_all_mem [OF outside] this list_all_mem [OF names] disjI2 [OF next_line]]
  have mapped: "map namespaceLine [] = []" "map namespaceLine [''issuerRef:''] = [''issuerRef:'']" by code_simp+
  show ?thesis using whole unfolding mapped by (simp add: append.simps)
qed

lemma webhook_templated_witness:
  "transformWebhook namedLib (demoDeploymentGVK, joinLines [''annotations:'', ''  cert-manager.io/inject-ca-from: system/serving-cert'', ''kind: W'']) =
   Inr (joinLines [''annotations:'', ''  cert-manager.io/inject-ca-from: {{ .Values.namespace }}/serving-cert'', ''kind: W''])"
proof -
  let ?raw = "joinLines [''annotations:'', ''  cert-manager.io/inject-ca-from: system/serving-cert'', ''kind: W'']"
  have raw: "marshalResource namedLib (demoDeploymentGVK, ?raw) = Inr ?raw" by code_simp
  have lines: "splitLines ?raw = [''annotations:''] @
      (''  '' @ ''cert-manager.io/inject-ca-from: '' @ ''system'' @ ''/'' @ ''serving-cert'') # [''kind: W'']" by code_simp
  have parts: "set ''  '' \<subseteq> {sp}" "CHR ''/'' \<notin> set ''system''" "solid (''system'' @ ''/'' @ ''serving-cert'')"
    by (simp_all add: solid_def visible_def)
  have other: "list_all (\<lambda>line. \<not> contains line ''cert-manager.io/inject-ca-from'') ([''annotations:''] @ [''kind: W''])" by code_simp
  note whole = webhook_templated [OF raw lines parts list_all_mem [OF other]]
  have mapped: "map namespaceLine [''annotations:''] = [''annotations:'']" "map namespaceLine [''kind: W''] = [''kind: W'']" by code_simp+
  show ?thesis using whole unfolding mapped by (simp add: append.simps)
qed

lemma config_map_templated_witness:
  "transformConfigMap namedLib (demoDeploymentGVK, joinLines [''data:'', ''  a: b'', ''kind: ConfigMap'']) =
   Inr (joinLines (dataDirectives [] @ [''kind: ConfigMap'']))"
proof -
  let ?raw = "joinLines [''data:'', ''  a: b'', ''kind: ConfigMap'']"
  have raw: "marshalResource namedLib (demoDeploymentGVK, ?raw) = Inr ?raw" by code_simp
  have plain: "list_all (\<lambda>line. trimSpace line \<noteq> ''data:'') ([] @ [''  a: b''] @ [''kind: ConfigMap''])" by code_simp
  have entry: "list_all (\<lambda>line. trimSpace line = [] \<or> hasPrefix line [sp, sp]) [''  a: b'']" by code_simp
  have next_line: "trimSpace (hd [''kind: ConfigMap'']) \<noteq> [] \<and> \<not> hasPrefix (hd [''kind: ConfigMap'']) [sp, sp]" by code_simp
  have key: "trimSpace ''data:'' = ''data:''" by code_simp
  have lines: "splitLines ?raw = [] @ ''data:'' # [''  a: b''] @ [''kind: ConfigMap'']" by code_simp
  have mapped: "map namespaceLine [] = []" "map namespaceLine [''kind: ConfigMap''] = [''kind: ConfigMap'']" "indentOf ''data:'' = []" by code_simp+
  have whole: "transformConfigMap namedLib (demoDeploymentGVK, ?raw) =
      Inr (joinLines (map namespaceLine [] @ dataDirectives (indentOf ''data:'') @ map namespaceLine [''kind: ConfigMap'']))"
    by (rule config_map_templated [THEN conjunct1, THEN mp,
          OF raw list_all_mem [OF plain] list_all_mem [OF entry] disjI2 [OF next_line] key lines])
  then show ?thesis unfolding mapped by (simp only: append.simps)
qed

end
