(* ===== verification/ChartSync.thy ===== *)
theory ChartSync
  imports ChartRunProps ChartKindProps
begin

text \<open>
  \<^verbatim>\<open>make helm\<close> and then \<^verbatim>\<open>make verify-rbac\<close>: the RBAC check on a chart that the generator has just
  written. The two programs meet in a file, the template of the kind of the role.
\<close>

section \<open>Resources that keep their text\<close>

lemma onRaw_id: "onRaw (\<lambda>raw. raw) r = r"
  by (cases r) (simp_all add: onRaw_def)

lemma kept_text:
  "g \<notin> specialKinds G \<Longrightarrow> objNamespace L (stripLabels L r) = [] \<Longrightarrow>
    transformResource L G g r = marshalResource L (stripLabels L r)"
  by (simp add: transformResource_def transformGeneric_def specialKinds_def Let_def onRaw_id)

text \<open>
  What is assumed of YAML: the text of a cluster scoped resource is read back as the role it was
  (\<open>roleOf\<close>), and holds no line of three dashes.
\<close>

definition readable :: "rbac_env \<Rightarrow> 'o objlib \<Rightarrow> ('o \<Rightarrow> cluster_role) \<Rightarrow> 'o \<Rightarrow> bool" where
  "readable E L roleOf r \<longleftrightarrow>
     objNamespace L (stripLabels L r) = [] \<and>
     (case marshalResource L (stripLabels L r) of
        Inl _ \<Rightarrow> True
      | Inr text \<Rightarrow>
          trimSpace text \<noteq> [] \<and> unmarshalRole E (trimSpace text) = Inr (roleOf r) \<and>
          \<not> contains (text @ [nl]) documentSeparator)"

lemma readable_text:
  assumes "readable E L roleOf r" "g \<notin> specialKinds G" "transformResource L G g r = Inr text"
  shows "trimSpace text \<noteq> []" "unmarshalRole E (trimSpace text) = Inr (roleOf r)" "\<not> contains (text @ [nl]) documentSeparator"
  using assms kept_text [of g G L r] by (simp_all add: readable_def)

lemma rolesNamed_texts:
  assumes "map Inr texts = map (transformResource L G g) rs" "g \<notin> specialKinds G" "\<And>r. r \<in> set rs \<Longrightarrow> readable E L roleOf r"
  shows "rolesNamed E name texts = filter (\<lambda>role. roleName role = name) (map roleOf rs)"
  using assms(1,3)
proof (induction rs arbitrary: texts)
  case Nil
  then show ?case by (simp add: rolesNamed_def)
next
  case (Cons r rs)
  then obtain part rest where texts: "texts = part # rest" "transformResource L G g r = Inr part"
      "map Inr rest = map (transformResource L G g) rs" by (auto simp: map_eq_Cons_conv)
  have "readable E L roleOf r" using Cons.prems(2) by simp
  from readable_text [OF this assms(2) texts(2)] Cons.IH [OF texts(3)] Cons.prems(2) show ?case by (simp add: texts(1) rolesNamed_def)
qed

lemma find_filter_first:
  "find P (filter Q xs) = find (\<lambda>x. Q x \<and> P x) xs"
  by (induction xs) auto

lemma find_first:
  "find P rs = Some r \<Longrightarrow> \<exists>rest. filter P rs = r # rest"
  by (induction rs) (auto split: if_splits)

text \<open>The role that the check finds in the template of its kind.\<close>

lemma role_found:
  assumes "renderGroup L G g rs = Inr content" "g \<notin> specialKinds G" "\<And>r. r \<in> set rs \<Longrightarrow> readable E L roleOf r"
    and "find (\<lambda>r. roleName (roleOf r) = name) rs = Some role" "readFile E path = Inr content"
  shows "loadClusterRoleByName E path name = Inr (roleOf role)"
proof -
  have clean: "\<not> contains (part @ [nl]) documentSeparator" if "r \<in> set rs" "transformResource L G g r = Inr part" for r part
    by (rule readable_text(3) [OF assms(3) [OF that(1)] assms(2) that(2)])
  have "rs \<noteq> []" using assms(4) by auto
  note docs = rendered_documents [where name = name, OF assms(1) this clean assms(5)]
  obtain rest where first: "filter (\<lambda>r. roleName (roleOf r) = name) rs = role # rest" using find_first [OF assms(4)] by blast
  have "rolesNamed E name (splitAt documentSeparator [] content) = filter (\<lambda>x. roleName x = name) (map roleOf rs)"
    by (rule rolesNamed_texts [OF docs [THEN conjunct1] assms(2,3)])
  also have "\<dots> = roleOf role # map roleOf rest" using first by (simp add: filter_map comp_def)
  finally show ?thesis using docs [THEN conjunct2] by simp
qed

text \<open>
  C30. The chart is in sync with its source right after it has been generated: let the generator
  succeed on an input whose first cluster role of the given name is \<open>role\<close>, and run the RBAC check on
  the template it wrote for that kind. Then, whatever other roles and resources there are and in
  whatever order Go ranges over its maps, the check with the chart has the verdict of the check without
  it when \<open>role\<close> has all permissions of the source role, and fails otherwise.
\<close>

theorem chart_in_sync:
  assumes laws: "files_laws F R" and run: "runChartgen F L G range_groups docs out chart version w = (None, w')"
    and decoded: "decodeResources L docs = Inr resources"
    and range: "\<And>groups. mset (range_groups groups) = mset groups"
    and paths: "inj_on (groupPath F out) (objGVK L ` set resources)"
    and kind: "g \<notin> insert (kNamespace G) (specialKinds G)" "\<not> isCRD g"
    and read: "\<And>r. r \<in> set resources \<Longrightarrow> objGVK L r = g \<Longrightarrow> readable E L roleOf r"
    and role: "find (\<lambda>r. objGVK L r = g \<and> roleName (roleOf r) = name) resources = Some role"
    and disk: "map_option Inr (R w' (groupPath F out g)) = Some (readFile E (groupPath F out g))"
    and source: "enumerates E" "loadClusterRole E source = Inr modRole"
  shows "exitCode (verifyRbacMain E [prog, source, operand, groupPath F out g, name]) =
    (if extractPermissions modRole \<subseteq> extractPermissions (roleOf role)
     then exitCode (verifyRbacMain E [prog, source, operand]) else 1)"
proof -
  let ?rs = "filter (\<lambda>r. objGVK L r = g) resources"
  have "role \<in> set resources \<and> objGVK L role = g" using role by (auto simp: find_Some_iff)
  then have "g \<in> objGVK L ` set resources - {kNamespace G}" using kind by auto
  moreover from laws run decoded range paths obtain w1 v data schema where "extractDefaults L G resources = Inr v"
    "marshalValues L v = Inr data" "valuesSchema L = Inr schema"
    "R w1 = fixedFiles F out (keptOr (chartYAML chart version) (R w (joinPath F out chartYAMLFilename))) data schema (R w)"
    and files: "\<forall>g \<in> objGVK L ` set resources - {kNamespace G}. \<exists>content.
      renderAny L G (g, filter (\<lambda>r. objGVK L r = g) resources) = Inr content \<and> R w' (groupPath F out g) = Some content"
    and "\<forall>q. q \<notin> groupPath F out ` (objGVK L ` set resources - {kNamespace G}) \<longrightarrow> R w' q = R w1 q"
    by (rule run_files)
  ultimately obtain content where content: "renderAny L G (g, ?rs) = Inr content" "R w' (groupPath F out g) = Some content"
    by blast
  have "renderGroup L G g ?rs = Inr content" using content(1) kind(2) by (simp add: renderAny_def)
  moreover have "find (\<lambda>r. roleName (roleOf r) = name) ?rs = Some role" using role by (simp add: find_filter_first)
  moreover have "readFile E (groupPath F out g) = Inr content" using disk content(2) by simp
  ultimately have "loadClusterRoleByName E (groupPath F out g) name = Inr (roleOf role)"
    using kind(1) read by (intro role_found) auto
  then show ?thesis
    using source(2) by (auto simp: verifyRbac_exit [OF source(1)] covers_def)
qed

section \<open>An instance\<close>

text \<open>Two roles that are their own text, and the template with both of them on the disk.\<close>

definition demoRoleGVK :: gvk where
  "demoRoleGVK = \<lparr>gvkGroup = ''rbac.authorization.k8s.io'', gvkVersion = ''v1'', gvkKind = ''ClusterRole''\<rparr>"

definition roleLib :: "(gvk \<times> string) objlib" where
  "roleLib = demoLib\<lparr>unmarshalObject := \<lambda>s. Inr (Some (demoRoleGVK, s))\<rparr>"

definition roleTemplate :: string where
  "roleTemplate = ''c/templates/rbac.authorization.k8s.io_v1_clusterrole.yaml''"

definition diskEnv :: rbac_env where
  "diskEnv = demoEnv\<lparr>readFile := \<lambda>p. Inr (if p = roleTemplate then ''operand'' @ documentSeparator @ ''module'' else p)\<rparr>"

definition demoRole :: "gvk \<times> string \<Rightarrow> cluster_role" where
  "demoRole r = (case demoRoles (snd r) of Inr role \<Rightarrow> role | Inl _ \<Rightarrow> \<lparr>roleName = [], roleRules = []\<rparr>)"

lemma chart_in_sync_witness:
  "exitCode (verifyRbacMain diskEnv [''verify'', ''module'', ''operand'', roleTemplate, ''manager-role'']) = 0"
proof -
  let ?docs = "[Inr ''operand'', Inr ''module'']" and ?rs = "[(demoRoleGVK, ''operand''), (demoRoleGVK, ''module'')]"
  define r where "r = runChartgen demoFiles roleLib demoKinds rev ?docs ''c'' ''n'' ''v'' (\<lambda>_. None)"
  have wrote: "fst r = None" "snd r roleTemplate = Some (''operand'' @ documentSeparator @ ''module'')"
    unfolding r_def by code_simp+
  then have run: "runChartgen demoFiles roleLib demoKinds rev ?docs ''c'' ''n'' ''v'' (\<lambda>_. None) = (None, snd r)"
    unfolding r_def by (metis prod.collapse)
  have decoded: "decodeResources roleLib ?docs = Inr ?rs" by code_simp
  have path: "groupPath demoFiles ''c'' demoRoleGVK = roleTemplate" by code_simp
  have kinds: "objGVK roleLib ` set ?rs = {demoRoleGVK}" by (simp add: roleLib_def demoLib_def)
  have kind: "demoRoleGVK \<notin> insert (kNamespace demoKinds) (specialKinds demoKinds)" "\<not> isCRD demoRoleGVK"
    by (simp_all add: specialKinds_def demoKinds_def demoRoleGVK_def demoDeploymentGVK_def isCRD_def)
  have texts: "readable diskEnv roleLib demoRole (demoRoleGVK, ''operand'')" "readable diskEnv roleLib demoRole (demoRoleGVK, ''module'')"
    by code_simp+
  have found: "find (\<lambda>r. objGVK roleLib r = demoRoleGVK \<and> roleName (demoRole r) = ''manager-role'') ?rs = Some (demoRoleGVK, ''module'')"
    by code_simp
  have env: "enumerates diskEnv" using demo_enumerates(1) by (simp add: enumerates_def diskEnv_def)
  have source: "loadClusterRole diskEnv ''module'' = Inr (demoRole (demoRoleGVK, ''module''))" by code_simp
  have disk: "map_option Inr (snd r roleTemplate) = Some (readFile diskEnv roleTemplate)" by (simp add: wrote diskEnv_def)
  have "exitCode (verifyRbacMain diskEnv [''verify'', ''module'', ''operand'', roleTemplate, ''manager-role'']) =
      exitCode (verifyRbacMain diskEnv [''verify'', ''module'', ''operand''])"
    using chart_in_sync [OF demoFiles_laws run decoded mset_rev _ kind _ found _ env source, unfolded path kinds] texts disk
    by auto
  also have "\<dots> = 0" by code_simp
  finally show ?thesis .
qed

end
