(* ===== verification/ChartCpuProps.thy ===== *)
theory ChartCpuProps
  imports ChartFileProps
begin

text \<open>
  How exact the CPU amounts of the chart are: the error of the rounded product and of the cut that
  follows it.
\<close>

section \<open>Rounding\<close>

lemma bitLength_bounds:
  "0 < n \<Longrightarrow> 0 < bitLength n \<and> 2 ^ (bitLength n - 1) \<le> n \<and> n < 2 ^ bitLength n"
proof (induction n rule: bitLength.induct)
  case (1 n)
  show ?case
  proof (cases "n div 2 = 0")
    case True
    with 1(2) have "n = Suc 0" by auto
    then show ?thesis by (simp add: bitLength.simps [of "Suc 0"] bitLength.simps [of 0])
  next
    case False
    define b where "b = bitLength (n div 2)"
    have "0 < b" "2 ^ (b - 1) \<le> n div 2" "n div 2 < 2 ^ b"
      using 1 False by (simp_all add: b_def)
    moreover from this have "(2::nat) ^ b = 2 * 2 ^ (b - 1)" by (cases b) simp_all
    moreover have "bitLength n = Suc b" using 1(2) by (subst bitLength.simps) (simp add: b_def)
    ultimately show ?thesis by auto
  qed
qed

lemma roundHalfEven_error:
  assumes "0 < d"
  shows "2 * \<bar>int (roundHalfEven n d * d) - int n\<bar> \<le> int d"
proof -
  have split: "int n = int (n div d * d) + int (n mod d)" by (metis div_mult_mod_eq of_nat_add)
  have below: "n mod d < d" using assms by simp
  have "roundHalfEven n d = n div d \<and> 2 * (n mod d) \<le> d \<or> roundHalfEven n d = n div d + 1 \<and> d \<le> 2 * (n mod d)"
    by (auto simp: roundHalfEven_def Let_def)
  then show ?thesis
  proof (elim disjE conjE)
    assume "roundHalfEven n d = n div d" "2 * (n mod d) \<le> d"
    then show ?thesis by (simp add: split)
  next
    assume up: "roundHalfEven n d = n div d + 1" "d \<le> 2 * (n mod d)"
    have "int ((n div d + 1) * d) - int n = int d - int (n mod d)" by (simp add: split algebra_simps)
    with up below show ?thesis by simp
  qed
qed

lemma less_than_one: "2 * \<bar>x - y\<bar> \<le> 1 \<Longrightarrow> x = (y :: int)"
  by (simp add: abs_if split: if_splits)

text \<open>A product rounded to 53 bits is off by at most one part in \<open>2 ^ 53\<close>.\<close>

lemma rounded_product:
  fixes p :: nat
  defines "shift \<equiv> bitLength p - 53"
  shows "\<bar>int (roundHalfEven p (2 ^ shift)) * 2 ^ shift - int p\<bar> * 2 ^ 53 \<le> int p"
proof (cases "shift = 0")
  case True
  have "2 * \<bar>int (roundHalfEven p 1) - int p\<bar> \<le> 1" using roundHalfEven_error [of 1 p] by simp
  then have "int (roundHalfEven p 1) = int p" by (rule less_than_one)
  with True show ?thesis by simp
next
  case False
  have "0 < p" using False by (cases p) (simp_all add: shift_def bitLength.simps [of 0])
  then have "2 ^ (bitLength p - 1) \<le> p" using bitLength_bounds by blast
  moreover have "bitLength p - 1 = shift + 52" using False by (simp add: shift_def)
  ultimately have "(2::int) ^ shift * 2 ^ 52 \<le> int p"
    by (metis of_nat_le_iff of_nat_numeral of_nat_power power_add)
  moreover have "2 * \<bar>int (roundHalfEven p (2 ^ shift)) * 2 ^ shift - int p\<bar> \<le> 2 ^ shift"
    using roundHalfEven_error [of "2 ^ shift" p] by simp
  ultimately show ?thesis by simp
qed

section \<open>The property\<close>

lemma cut_shifted:
  fixes q :: int and shift k :: nat
  shows "(if 0 \<le> - int k + int shift then q * 2 ^ nat (- int k + int shift) else q div 2 ^ nat (- (- int k + int shift))) =
    q * 2 ^ shift div 2 ^ k"
proof (cases "k \<le> shift")
  case True
  then have "(2::int) ^ shift = 2 ^ (shift - k) * 2 ^ k" by (simp flip: power_add)
  then have "q * 2 ^ shift = q * 2 ^ (shift - k) * 2 ^ k" by (simp only: mult.assoc)
  then have "q * 2 ^ shift div 2 ^ k = q * 2 ^ (shift - k)" by (simp only: nonzero_mult_div_cancel_right power_not_zero zero_neq_numeral not_False_eq_True)
  with True show ?thesis by (simp add: nat_diff_distrib' flip: of_nat_diff)
next
  case False
  then have "(2::int) ^ k = 2 ^ (k - shift) * 2 ^ shift" by (simp flip: power_add)
  with False show ?thesis by (simp add: nat_diff_distrib' flip: of_nat_diff)
qed

lemma milliOf_eq:
  fixes m k :: nat
  defines "p \<equiv> m * 1000"
  defines "a \<equiv> int (roundHalfEven p (2 ^ (bitLength p - 53))) * 2 ^ (bitLength p - 53)"
  assumes "a div 2 ^ k < 2 ^ 63"
  shows "milliOf (Float64 (int m) (- int k)) = a div 2 ^ k"
proof -
  have "0 \<le> a" by (simp add: a_def)
  then have "0 \<le> a div 2 ^ k" by (simp add: pos_imp_zdiv_nonneg_iff)
  then have "- (2 ^ 63) \<le> a div 2 ^ k" by simp
  with assms(3) show ?thesis
    unfolding milliOf_def float64.case Let_def cut_shifted by (simp add: a_def p_def)
qed

lemma two_roundings:
  fixes a p exact unit :: int
  assumes "\<bar>a - p\<bar> * 2 ^ 53 \<le> p" "\<bar>p - exact\<bar> * 2 ^ 53 \<le> exact" "exact \<le> 2 ^ 50 * unit" "0 < unit"
  shows "\<bar>a - exact\<bar> < unit"
  using assms by (simp add: abs_if split: if_splits)

lemma cut_bounds:
  fixes unit a :: int
  assumes "0 < unit"
  shows "unit * (a div unit) \<le> a" "a < unit * (a div unit) + unit"
  using mult_div_mod_eq [of unit a] pos_mod_sign [OF assms, of a] pos_mod_bound [OF assms, of a] by linarith+

lemma milliOf_near:
  assumes near: "\<bar>1000 * int m - int d * 2 ^ k\<bar> * 2 ^ 53 \<le> int d * 2 ^ k" and "0 < d" "d \<le> 2 ^ 50"
  shows "milliOf (Float64 (int m) (- int k)) \<in> {int d - 1, int d}"
proof -
  let ?p = "m * 1000"
  let ?a = "int (roundHalfEven ?p (2 ^ (bitLength ?p - 53))) * 2 ^ (bitLength ?p - 53)"
  let ?D = "int d * 2 ^ k"
  have "int d * 2 ^ k \<le> 2 ^ 50 * 2 ^ k" using assms(3) by (simp add: mult_right_mono)
  moreover have "\<bar>?a - int ?p\<bar> * 2 ^ 53 \<le> int ?p" by (rule rounded_product)
  ultimately have close: "\<bar>?a - ?D\<bar> < 2 ^ k" using near by (intro two_roundings [of _ "int ?p"]) (simp_all add: mult.commute)
  then have "(int d - 1) * 2 ^ k \<le> ?a" "?a < (int d + 1) * 2 ^ k" by (simp_all add: algebra_simps abs_less_iff)
  moreover note cut_bounds [of "2 ^ k" ?a, simplified]
  ultimately have "2 ^ k * (?a div 2 ^ k) < 2 ^ k * (int d + 1)" "2 ^ k * (int d - 1) < 2 ^ k * (?a div 2 ^ k + 1)"
    by (simp_all add: algebra_simps)
  then have "?a div 2 ^ k < int d + 1" "int d - 1 < ?a div 2 ^ k + 1"
    by (simp_all only: mult_less_cancel_left_pos zero_less_power zero_less_numeral)
  with assms(3) milliOf_eq [of m k] show ?thesis by auto
qed

text \<open>
  C39. A CPU amount that is given as a number of at most 2 to the 50 millis is rendered exactly or one milli
  too small, whatever its binary representation: the float nearest to the decimal is multiplied,
  rounded and cut, and the two roundings never cost more than the cut. The milli is lost for 2.01,
  which becomes 2009 millis, and not for 1.5.
\<close>

theorem cpu_number_one_milli:
  assumes "field block ''cpu'' = Some (JFloat (Float64 (int m) (- int k)))"
    and "\<bar>1000 * int m - int millis * 2 ^ k\<bar> * 2 ^ 53 \<le> int millis * 2 ^ k" "0 < millis" "millis \<le> 2 ^ 50"
  shows "(\<exists>n memory. n \<in> {int millis - 1, int millis} \<and>
      extractList L (Some block) = Inr \<lparr>resCPU = milliQuantity L n, resMemory = memory\<rparr>) \<and>
    milliOf (Float64 4526117625507348 (-51)) = 2009 \<and> milliOf (Float64 3 (-1)) = 1500"
proof -
  have "bitLength n = Suc (bitLength (n div 2))" if "0 < n" for n using that by (subst bitLength.simps) simp
  then have "bitLength 4526117625507348000 = 62" "bitLength 3000 = 12" by (simp_all add: bitLength.simps [of 0])
  then have "milliOf (Float64 4526117625507348 (-51)) = 2009" "milliOf (Float64 3 (-1)) = 1500"
    by (simp_all add: milliOf_def roundHalfEven_def Let_def)
  moreover have "milliOf (Float64 (int m) (- int k)) \<in> {int millis - 1, int millis}"
    using assms(2-4) by (rule milliOf_near)
  ultimately show ?thesis using assms(1) by (auto simp: extractList_def resourceKeyCPU_def)
qed

lemma cpu_number_one_milli_witness:
  "\<exists>n memory. n \<in> {2009, 2010} \<and>
     extractList demoLib (Some [(''cpu'', JFloat (Float64 4526117625507348 (-51)))]) =
       Inr \<lparr>resCPU = milliQuantity demoLib n, resMemory = memory\<rparr>"
  using cpu_number_one_milli [of "[(''cpu'', JFloat (Float64 4526117625507348 (-51)))]" 4526117625507348 51 2010 demoLib]
  by (auto simp: field_def)

end
