(* ===== verification/Commands.thy ===== *)
theory Commands
  imports Manager ChartGen
begin

text \<open>
  The command line: \<^verbatim>\<open>cmd/main.go\<close> and the two functions \<open>NewCommand\<close>, in \<^verbatim>\<open>cmd/operator/operator.go\<close>
  and \<^verbatim>\<open>cmd/chartgen/chartgen.go\<close>. Cobra is an argument: it parses the arguments and runs a command
  with the values of its flags, by their names.
\<close>

section \<open>Commands\<close>

record command_flag =
  flagName :: string
  flagShorthand :: string
  flagDefault :: string
  flagUsage :: string

record 'w command =
  cmdUse :: string
  cmdShort :: string
  cmdLong :: string
  cmdSilenceUsage :: bool
  cmdFlags :: "command_flag list"
  cmdRun :: "((string \<Rightarrow> string) \<Rightarrow> 'w act) option"

definition operatorName :: string where "operatorName = ''opendatahub-feast-operator''"

definition defaultOutputDir :: string where "defaultOutputDir = ''config/chart''"
definition defaultChartName :: string where "defaultChartName = ''opendatahub-feast-operator''"
definition defaultChartVer :: string where "defaultChartVer = ''0.1.0''"

text \<open>\<open>NewCommand\<close> of \<^verbatim>\<open>cmd/operator\<close>, on the function \<open>run\<close>.\<close>

definition operatorCommand :: "'w act \<Rightarrow> 'w command" where
  "operatorCommand run =
     \<lparr>cmdUse = ''operator'', cmdShort = ''Start the module operator'', cmdLong = [], cmdSilenceUsage = False,
      cmdFlags = [], cmdRun = Some (\<lambda>_. run)\<rparr>"

text \<open>\<open>NewCommand\<close> of \<^verbatim>\<open>cmd/chartgen\<close>, on the function \<open>run\<close> applied to the standard input.\<close>

definition chartgenCommand :: "(string \<Rightarrow> string \<Rightarrow> string \<Rightarrow> 'w act) \<Rightarrow> 'w command" where
  "chartgenCommand run =
     \<lparr>cmdUse = ''chartgen'', cmdShort = ''Generate a Helm chart from kustomize YAML on stdin'',
      cmdLong = joinLines
        [''Reads multi-document Kubernetes YAML from stdin (typically piped from'',
         ''kustomize build) and generates a Helm chart with proper templating.'', '''', ''Example:'',
         ''  kustomize build config/default | manager chartgen --output config/chart''],
      cmdSilenceUsage = False,
      cmdFlags =
        [\<lparr>flagName = ''output'', flagShorthand = ''o'', flagDefault = defaultOutputDir,
          flagUsage = ''Output directory for the chart''\<rparr>,
         \<lparr>flagName = ''name'', flagShorthand = [], flagDefault = defaultChartName, flagUsage = ''Chart name''\<rparr>,
         \<lparr>flagName = ''version'', flagShorthand = [], flagDefault = defaultChartVer, flagUsage = ''Chart version''\<rparr>],
      cmdRun = Some (\<lambda>flags. run (flags ''output'') (flags ''name'') (flags ''version''))\<rparr>"

definition rootCommand :: "'w command" where
  "rootCommand =
     \<lparr>cmdUse = operatorName, cmdShort = [], cmdLong = [], cmdSilenceUsage = True, cmdFlags = [], cmdRun = None\<rparr>"

text \<open>
  The program: the exit code, and the world it leaves. \<open>execute\<close> is \<open>ExecuteContext\<close> of the root
  command, on its sub-commands and the arguments of the process.
\<close>

definition mainProgram ::
  "('w command \<Rightarrow> 'w command list \<Rightarrow> string list \<Rightarrow> 'w act) \<Rightarrow> 'w act \<Rightarrow> (string \<Rightarrow> string \<Rightarrow> string \<Rightarrow> 'w act) \<Rightarrow>
   string list \<Rightarrow> 'w \<Rightarrow> nat \<times> 'w"
  where
  "mainProgram execute runOp runChart args w =
     (case execute rootCommand [operatorCommand runOp, chartgenCommand runChart] args w of
        (Some _, w') \<Rightarrow> (1, w')
      | (None, w') \<Rightarrow> (0, w'))"

section \<open>Dispatch\<close>

text \<open>
  What is used of cobra: a first argument that is the name of a sub-command runs it, with every flag
  at its default where no more arguments are given.
\<close>

definition flagDefaults :: "'w command \<Rightarrow> string \<Rightarrow> string" where
  "flagDefaults c name = (case find (\<lambda>f. flagName f = name) (cmdFlags c) of Some f \<Rightarrow> flagDefault f | None \<Rightarrow> [])"

definition dispatches :: "('w command \<Rightarrow> 'w command list \<Rightarrow> string list \<Rightarrow> 'w act) \<Rightarrow> bool" where
  "dispatches execute \<longleftrightarrow>
     (\<forall>root cmds name c run. find (\<lambda>c. cmdUse c = name) cmds = Some c \<longrightarrow> cmdRun c = Some run \<longrightarrow>
        execute root cmds [name] = run (flagDefaults c))"

lemma main_dispatch:
  assumes "dispatches execute"
  shows "mainProgram execute runOp runChart [''operator''] w = apfst (\<lambda>e. if e = None then 0 else 1) (runOp w)"
    "mainProgram execute runOp runChart [''chartgen''] w =
       apfst (\<lambda>e. if e = None then 0 else 1) (runChart defaultOutputDir defaultChartName defaultChartVer w)"
  using assms
  by (simp_all add: dispatches_def mainProgram_def operatorCommand_def chartgenCommand_def flagDefaults_def
      split: prod.splits option.splits)

end
