(* ===== verification/Spec2Isabelle.thy ===== *)
theory Spec2Isabelle
  imports LifecycleProps UninstallProps DeepCopyProps CapabilityProps PipelineProps StartProps RbacProps ChartSync ChartCpuProps Commands
begin

text \<open>
  A verification development for the feast module operator: a Kubernetes operator that installs the
  feast operator for a \<^verbatim>\<open>FeastOperator\<close> resource, tells it through a ConfigMap which capabilities are
  on, and gets it to tear down before it uninstalls it; with the generator of its Helm chart and the
  check of its RBAC rules.

  The program. \<^verbatim>\<open>cmd/main.go\<close> runs one of two commands. \<^verbatim>\<open>operator\<close> loads the configuration
  (\<^verbatim>\<open>pkg/config\<close>), builds a manager (\<^verbatim>\<open>pkg/manager\<close>) and registers the reconciler of
  \<^verbatim>\<open>internal/controller/feastoperator\<close>: a pipeline of actions that runs for a live resource, and a
  finalizer that runs for a deleted one. Both meet the feast operator in the capabilities ConfigMap,
  which carries the flags, the finalizers of the two operators and, during an uninstall, the time it
  began. \<^verbatim>\<open>chartgen\<close> turns rendered manifests into a Helm chart (\<^verbatim>\<open>cmd/chartgen\<close>). \<^verbatim>\<open>hack/verify-rbac\<close> is
  a program of its own that compares the roles of the manifests and of the chart.

  Theories and sources.

  \<^item> \<open>Prelude\<close> (errors, calls that may fail and change the world, Go maps that may be nil),
    \<open>GoStrings\<close>, \<open>GoTime\<close> and \<open>GoSha256\<close> model the language and what is used of its standard library:
    strings as bytes, \<open>TrimSpace\<close>, instants and durations with the saturation of \<open>Sub\<close>, RFC 3339
    printing and parsing, SHA-256 on 32-bit words.

  \<^item> \<open>ApiTypes\<close>: \<^verbatim>\<open>api/components/v1alpha1/feastoperator_types.go\<close>. \<open>Kube\<close>: the objects of the cluster, and
    the client as a record of operations on an abstract world, under named laws over a view of the
    stored objects. \<open>DemoServer\<close> is a concrete server that satisfies all of them.

  \<^item> \<open>ObjectStore\<close>, \<open>DeepCopy\<close>: \<^verbatim>\<open>zz_generated.deepcopy.go\<close>, on a store of cells that pointers and
    slices refer to, with the write of the platform version as it happens in memory. In the other
    theories an object is a value; \<open>DeepCopyProps\<close> shows why it may be.

  \<^item> \<open>Config\<close>, \<open>ConfigLoad\<close>: \<^verbatim>\<open>pkg/config/config.go\<close>. \<open>ConfigLaws\<close> states what is assumed of viper, as
    layers in the order of precedence it documents; \<open>ConfigProofs\<close> follows the layers through the
    stages of the loading; \<open>ConfigProps\<close> has the precedence of the sources.

  \<^item> \<open>ModuleCore\<close>: \<^verbatim>\<open>feastoperator.go\<close>. \<open>CapabilityData\<close>, \<open>Capabilities\<close>: \<^verbatim>\<open>feastoperator_capabilities.go\<close>.
    \<open>NamespaceRec\<close>: \<^verbatim>\<open>feastoperator_namespace.go\<close>. \<open>Actions\<close>: \<^verbatim>\<open>feastoperator_actions.go\<close>.
    \<open>PlatformVersion\<close>: \<^verbatim>\<open>feastoperator_platform_version.go\<close> and \<^verbatim>\<open>feastoperator_upgrade.go\<close>.
    \<open>Controller\<close>: \<^verbatim>\<open>feastoperator_controller.go\<close>, the pipeline in the order of registration and the
    finalizer. \<open>Manager\<close>: \<^verbatim>\<open>pkg/manager\<close>, \<^verbatim>\<open>cmd/operator\<close>, \<^verbatim>\<open>pkg/version\<close>. \<open>Commands\<close>: the command line.

  \<^item> \<open>ChartLines\<close> (the rewritings of the text, \<^verbatim>\<open>chart.go\<close>), \<open>ChartValues\<close> (\<^verbatim>\<open>values.go\<close>), \<open>ChartGen\<close>
    (\<^verbatim>\<open>chartgen.go\<close>, \<^verbatim>\<open>helpers.go\<close>, the dispatch of \<^verbatim>\<open>chart.go\<close>). \<open>VerifyRbac\<close>: \<^verbatim>\<open>hack/verify-rbac/main.go\<close>.

  A Go struct is a record with the fields the code uses, a nil map or pointer is an option, an error is
  a value of \<open>goerr\<close> with its text and cause, and a function that returns an error and has effects is a
  function from a world to an optional error and the next world. Where a Go closure is passed to a
  library (the mutation of \<open>CreateOrUpdate\<close>) it is a definition of its own.

  What the lemmas show.

  \<^item> \<open>FinalizerStep\<close>, \<open>CapabilitySteps\<close>, \<open>CleanupProofs\<close>, \<open>HandoverTrace\<close>: every step of the finalizer is an
    instance of a contract (it touches the module's own objects only, and takes neither the ConfigMap
    nor a finalizer from a feast operator that holds it), sequences of steps keep the contract, and
    what each leaves in the ConfigMap. \<open>CleanupProgress\<close>: which step can fail on a server that
    answers. \<open>CleanupProps\<close> states what a run of the finalizer does, and what later runs do.

  \<^item> \<open>UninstallProtocol\<close>, \<open>UninstallProps\<close>: the uninstall as a transition system in which the eight stages
    of a run of the finalizer interleave with the feast operator, users, restarts, the rest of the
    cluster and the passing of time; the runs of the code are among its paths. Nothing is taken away
    before the feast operator is done or five minutes are over, and after that the uninstall ends. A
    stage, which reads an object and then writes it, is one step: a change in between makes the write
    fail, by the optimistic concurrency of the API server.

  \<^item> \<open>Lifecycle\<close>, \<open>LifecycleProps\<close>: the life of a resource, with the pipeline running action by action while
    it is live and the uninstall protocol once it is deleted, over and over. The stored ConfigMap is
    well formed throughout, a registry that is wanted is never torn down, and a deletion is guarded
    however many lives came before it, unless the ConfigMap is one that a timed-out uninstall left
    behind, still being deleted: that one keeps its old record of the cleanup.

  \<^item> \<open>ReconcileProofs\<close>, \<open>CapabilityProps\<close>, \<open>PipelineProps\<close>: the ConfigMap, namespace label, rollout
    annotation, owner references, data hash, version handshake, OIDC parameter, selector migration and watch
    predicate, and the whole pipeline on top of them. \<open>StartProps\<close>: the start of the operator.

  \<^item> \<open>DeepCopyProps\<close>: the contract of a deep copy, kept by every generated function if the copies of the
    foreign types keep it: same value, new cells, and neither side sees a write to the other.

  \<^item> \<open>ChartProps\<close>: the rewritings of the text one by one. \<open>ChartDeployProps\<close>, \<open>ChartKindProps\<close>: the
    rewritings composed, kind by kind over whole documents, and the rendered file of a kind.
    \<open>ChartFileProps\<close>, \<open>ChartCpuProps\<close>: the values and how exact they are, the groups and the file names.
    \<open>ChartRunProps\<close>: the files a run leaves, and reading them back. \<open>ChartSync\<close>: the RBAC check on a
    chart that has just been generated. \<open>RbacProps\<close>: the verdict of the RBAC
    check, its report, and its independence of map order.

  Parameters and bounds. The API server, the actions of the framework, viper, the semantic version
  and URL libraries, YAML and JSON coding, the file system and cobra are arguments of the
  definitions; what is assumed of them is a named predicate or a hypothesis, and every property with
  one has a witness on a concrete instance. The order in which Go ranges over a map is an argument
  too, or the properties say that it does not matter. There is no fuel: every loop of the code ends, by
  structural recursion or a measure. The year of the clock is between 0 and 9999 where times are
  printed, which is the range of RFC 3339. The layers of viper describe it for keys none of which is a path through
  another. The two instants of a run of the finalizer, when it marks the ConfigMap and when it looks at
  the timeout, are arguments; in the protocol every stage has its own, and they are ordered.

  Not modelled. The registration of types with the scheme in \<^verbatim>\<open>groupversion_info.go\<close>, the kinds re-exported by
  \<^verbatim>\<open>pkg/resources/gvk\<close> from another repository (a parameter here), what the status conditions say, which the
  framework writes, log lines, and the helpers of the end-to-end tests.
\<close>

end
